(* ===== verification/Prelude.thy ===== *)
theory Prelude
  imports Main "HOL-Library.Word"
begin

text \<open>
  What the components share: the collections of simplification rules, the result type of code
  that can fail, and generic lemmas on lists. Bytes are the characters of HOL (eight bits each),
  so a byte array or a \<^verbatim>\<open>std::string\<close> is a \<open>string\<close>.
\<close>

named_theorems fsm_simps "the table functions of the state machine at a concrete state"
named_theorems fsm_rows "the rows of the state machine's tables, one rule per state and table"
named_theorems stream_simps "operations on input streams in terms of the remaining input"

type_synonym u8 = "8 word"
type_synonym u16 = "16 word"
type_synonym u32 = "32 word"
type_synonym u64 = "64 word"

section \<open>Results of code that can fail\<close>

text \<open>
  The exceptions the code throws (or lets a library throw), and \<open>Undefined_behaviour\<close> for an
  operation C++ gives no meaning to: a null pointer that is dereferenced, an uninitialised or
  out-of-range byte that is read, \<^verbatim>\<open>front()\<close> of an empty container.
\<close>

datatype flock_error =
    Runtime_error string
  | Range_error
  | Out_of_range
  | Filesystem_error
  | Undefined_behaviour

type_synonym 'a result = "flock_error + 'a"

fun bindE :: "'e + 'a \<Rightarrow> ('a \<Rightarrow> 'e + 'b) \<Rightarrow> 'e + 'b" where
  "bindE (Inl e) f = Inl e"
| "bindE (Inr x) f = f x"

definition guardE :: "bool \<Rightarrow> flock_error \<Rightarrow> unit result" where
  "guardE b e = (if b then Inr () else Inl e)"

fun foldE :: "('s \<Rightarrow> 'x \<Rightarrow> 'e + 's) \<Rightarrow> 's \<Rightarrow> 'x list \<Rightarrow> 'e + 's" where
  "foldE f s [] = Inr s"
| "foldE f s (x # xs) = bindE (f s x) (\<lambda>s'. foldE f s' xs)"

text \<open>\<^verbatim>\<open>v[i]\<close> of a vector: undefined out of range.\<close>

definition nthE :: "'a list \<Rightarrow> nat \<Rightarrow> 'a result" where
  "nthE xs i = (if i < length xs then Inr (xs ! i) else Inl Undefined_behaviour)"

lemma bindE_assoc: "bindE (bindE m f) g = bindE m (\<lambda>x. bindE (f x) g)"
  by (cases m) simp_all

lemma foldE_append: "foldE f s (xs @ ys) = bindE (foldE f s xs) (\<lambda>s'. foldE f s' ys)"
  by (induction xs arbitrary: s) (simp_all add: bindE_assoc)

lemma foldE_snoc: "foldE f s (xs @ [x]) = bindE (foldE f s xs) (\<lambda>s'. f s' x)"
proof -
  have "bindE (f t x) Inr = f t x" for t by (cases "f t x") simp_all
  then show ?thesis by (simp add: foldE_append)
qed

lemma bindE_eq_Inr: "bindE m f = Inr y \<longleftrightarrow> (\<exists>x. m = Inr x \<and> f x = Inr y)"
  by (cases m) auto

lemma bindE_eq_Inl: "bindE m f = Inl e \<longleftrightarrow> m = Inl e \<or> (\<exists>x. m = Inr x \<and> f x = Inl e)"
  by (cases m) auto

lemma guardE_simps [simp]:
  "guardE True e = Inr ()" "guardE False e = Inl e"
  "guardE b e = Inr u \<longleftrightarrow> b"
  by (simp_all add: guardE_def)

section \<open>Lists\<close>

lemma takeWhile_append_stop:
  "list_all P xs \<Longrightarrow> \<not> P y \<Longrightarrow> takeWhile P (xs @ y # ys) = xs"
  by (induction xs) auto

lemma takeWhile_all: "list_all P xs \<Longrightarrow> takeWhile P xs = xs"
  by (induction xs) auto

lemma takeWhile_neq: "d \<notin> set w \<Longrightarrow> takeWhile (\<lambda>c. c \<noteq> d) (w @ d # t) = w"
  "d \<notin> set w \<Longrightarrow> takeWhile (\<lambda>c. c \<noteq> d) w = w"
  by (induction w) auto

lemma drop_prefix: "length xs = n \<Longrightarrow> drop n (xs @ ys) = ys"
  by simp

lemma take_prefix: "length xs = n \<Longrightarrow> take n (xs @ ys) = xs"
  by simp

end
