(* ===== verification/Streams.thy ===== *)
theory Streams
  imports Prelude
begin

text \<open>
  The parts of the C++ standard library the messages are built and read with: big-endian byte
  images of machine integers (\<^verbatim>\<open>htobe64\<close> and \<^verbatim>\<open>memcpy\<close>), decimal output of integers, and
  \<^verbatim>\<open>std::stringstream\<close> as an input stream (formatted extraction of integers and words,
  \<^verbatim>\<open>read\<close>, \<^verbatim>\<open>seekg\<close>, \<^verbatim>\<open>getline\<close>) with its end-of-file and failure bits. An
  extraction that does not happen leaves its variable as it was, so the operations take the old
  value of the variable they write. Fixed-width fields are an interface of their own (the locale
  \<open>fixed_codec\<close>), interpreted at the three integer widths the messages use.
\<close>

section \<open>Big-endian byte images\<close>

fun be_bytes :: "nat \<Rightarrow> nat \<Rightarrow> string" where
  "be_bytes 0 n = []"
| "be_bytes (Suc k) n = be_bytes k (n div 256) @ [char_of (n mod 256)]"

definition be_nat :: "string \<Rightarrow> nat" where
  "be_nat s = foldl (\<lambda>a c. 256 * a + of_char c) 0 s"

definition htobe16 :: "u16 \<Rightarrow> string" where "htobe16 w = be_bytes 2 (unat w)"
definition htobe32 :: "u32 \<Rightarrow> string" where "htobe32 w = be_bytes 4 (unat w)"
definition htobe64 :: "u64 \<Rightarrow> string" where "htobe64 w = be_bytes 8 (unat w)"

definition be16toh :: "string \<Rightarrow> u16" where "be16toh s = word_of_nat (be_nat s)"
definition be32toh :: "string \<Rightarrow> u32" where "be32toh s = word_of_nat (be_nat s)"
definition be64toh :: "string \<Rightarrow> u64" where "be64toh s = word_of_nat (be_nat s)"

definition byte_of :: "u8 \<Rightarrow> string" where "byte_of w = be_bytes 1 (unat w)"
definition of_byte :: "string \<Rightarrow> u8" where "of_byte s = word_of_nat (be_nat s)"

section \<open>Decimal output\<close>

definition digit :: "nat \<Rightarrow> char" where
  "digit n = char_of (48 + n)"

fun dec_nat :: "nat \<Rightarrow> string" where
  "dec_nat n = (if n < 10 then [digit n] else dec_nat (n div 10) @ [digit (n mod 10)])"

declare dec_nat.simps [simp del]

definition dec :: "int \<Rightarrow> string" where
  "dec n = (if n < 0 then CHR ''-'' # dec_nat (nat (- n)) else dec_nat (nat n))"

text \<open>\<^verbatim>\<open><< std::setw(n) << std::setfill(' ') << " "\<close>: at least one blank.\<close>

definition blanks :: "int \<Rightarrow> string" where
  "blanks n = replicate (nat (max n 1)) CHR '' ''"

section \<open>Input streams\<close>

record istream =
  sbuf :: string
  gpos :: nat
  eofbit :: bool
  failbit :: bool

definition stream_of :: "string \<Rightarrow> istream" where
  "stream_of s = \<lparr>sbuf = s, gpos = 0, eofbit = False, failbit = False\<rparr>"

definition good :: "istream \<Rightarrow> bool" where
  "good s \<longleftrightarrow> \<not> eofbit s \<and> \<not> failbit s"

definition rest :: "istream \<Rightarrow> string" where
  "rest s = drop (gpos s) (sbuf s)"

definition advance :: "nat \<Rightarrow> istream \<Rightarrow> istream" where
  "advance n s = s\<lparr>gpos := gpos s + n\<rparr>"

definition at_end :: "istream \<Rightarrow> istream" where
  "at_end s = s\<lparr>gpos := length (sbuf s), eofbit := True\<rparr>"

definition is_space :: "char \<Rightarrow> bool" where
  "is_space c \<longleftrightarrow> (of_char c :: nat) \<in> {9, 10, 11, 12, 13, 32}"

definition is_digit :: "char \<Rightarrow> bool" where
  "is_digit c \<longleftrightarrow> 48 \<le> (of_char c :: nat) \<and> (of_char c :: nat) \<le> 57"

definition digits_val :: "string \<Rightarrow> nat" where
  "digits_val ds = foldl (\<lambda>a c. 10 * a + (of_char c - 48)) 0 ds"

text \<open>The sentry of a formatted extraction: \<open>None\<close> when it fails, with the stream it leaves.\<close>

definition skipws :: "istream \<Rightarrow> bool \<times> istream" where
  "skipws s =
    (if \<not> good s then (False, s\<lparr>failbit := True\<rparr>)
     else let n = length (takeWhile is_space (rest s)) in
       if n = length (rest s) then (False, (at_end s)\<lparr>failbit := True\<rparr>)
       else (True, advance n s))"

text \<open>\<^verbatim>\<open>>>\<close> into an \<^verbatim>\<open>int\<close>. Without a digit the value is 0 and the stream fails; out of range
  it is the nearest bound and the stream fails.\<close>

definition extract_int :: "int \<Rightarrow> istream \<Rightarrow> int \<times> istream" where
  "extract_int old s =
    (case skipws s of
       (False, s') \<Rightarrow> (old, s')
     | (True, s') \<Rightarrow>
         let sgn_len = (if hd (rest s') \<in> {CHR ''-'', CHR ''+''} then 1 else 0);
             ds = takeWhile is_digit (drop sgn_len (rest s'));
             n = sgn_len + length ds;
             v = (if hd (rest s') = CHR ''-'' then - int (digits_val ds) else int (digits_val ds));
             s'' = (if n = length (rest s') then at_end s' else advance n s')
         in if ds = [] then (0, s''\<lparr>failbit := True\<rparr>)
            else if v > 2147483647 then (2147483647, s''\<lparr>failbit := True\<rparr>)
            else if v < - 2147483648 then (- 2147483648, s''\<lparr>failbit := True\<rparr>)
            else (v, s''))"

text \<open>\<^verbatim>\<open>>>\<close> into a \<^verbatim>\<open>std::string\<close>: one word.\<close>

definition extract_word :: "string \<Rightarrow> istream \<Rightarrow> string \<times> istream" where
  "extract_word old s =
    (case skipws s of
       (False, s') \<Rightarrow> (old, s')
     | (True, s') \<Rightarrow>
         let w = takeWhile (\<lambda>c. \<not> is_space c) (rest s') in
         (w, if length w = length (rest s') then at_end s' else advance (length w) s'))"

text \<open>\<^verbatim>\<open>read(p, n)\<close>: the bytes written to \<open>p\<close>, fewer than \<open>n\<close> when the stream ends first.\<close>

definition sread :: "nat \<Rightarrow> istream \<Rightarrow> string \<times> istream" where
  "sread n s =
    (if \<not> good s then ([], s\<lparr>failbit := True\<rparr>)
     else if n \<le> length (rest s) then (take n (rest s), advance n s)
     else (rest s, (at_end s)\<lparr>failbit := True\<rparr>))"

text \<open>\<^verbatim>\<open>seekg(off, dir)\<close> clears the end-of-file bit first and fails outside the buffer.\<close>

definition seek_to :: "int \<Rightarrow> istream \<Rightarrow> istream" where
  "seek_to p s =
    (let s' = s\<lparr>eofbit := False\<rparr> in
     if failbit s then s'
     else if 0 \<le> p \<and> p \<le> int (length (sbuf s)) then s'\<lparr>gpos := nat p\<rparr>
     else s'\<lparr>failbit := True\<rparr>)"

definition seekg_cur :: "int \<Rightarrow> istream \<Rightarrow> istream" where
  "seekg_cur off s = seek_to (int (gpos s) + off) s"

definition seekg_beg :: "int \<Rightarrow> istream \<Rightarrow> istream" where
  "seekg_beg off s = seek_to off s"

text \<open>\<^verbatim>\<open>std::getline\<close> up to a delimiter, which is consumed and not stored.\<close>

definition getline :: "char \<Rightarrow> string \<Rightarrow> istream \<Rightarrow> string \<times> istream" where
  "getline d old s =
    (if \<not> good s then (old, s\<lparr>failbit := True\<rparr>)
     else let w = takeWhile (\<lambda>c. c \<noteq> d) (rest s) in
       if length w < length (rest s) then (w, advance (Suc (length w)) s)
       else if w = [] then ([], (at_end s)\<lparr>failbit := True\<rparr>)
       else (w, at_end s))"

text \<open>A stream in good state that has consumed \<open>p\<close> and has \<open>r\<close> left.\<close>

definition stream_at :: "string \<Rightarrow> string \<Rightarrow> istream" where
  "stream_at p r = \<lparr>sbuf = p @ r, gpos = length p, eofbit = False, failbit = False\<rparr>"

section \<open>Lemmas\<close>

subsection \<open>Byte images\<close>

lemma length_be_bytes [simp]: "length (be_bytes k n) = k"
  by (induction k arbitrary: n) simp_all

text \<open>For evaluation at a numeral width.\<close>

lemma be_bytes_numeral:
  "be_bytes (numeral k) n = be_bytes (pred_numeral k) (n div 256) @ [char_of (n mod 256)]"
  by (subst numeral_eq_Suc [of k]) (rule be_bytes.simps(2))

lemma be_nat_Nil [simp]: "be_nat [] = 0"
  by (simp add: be_nat_def)

lemma be_nat_snoc [simp]: "be_nat (s @ [c]) = 256 * be_nat s + of_char c"
  by (simp add: be_nat_def)

lemma be_nat_be_bytes [simp]: "be_nat (be_bytes k n) = n mod 256 ^ k"
proof (induction k arbitrary: n)
  case 0
  then show ?case by simp
next
  case (Suc k)
  have "256 * (n div 256 mod 256 ^ k) + n mod 256 = n mod (256 * 256 ^ k)"
    by (simp add: mod_mult2_eq)
  then show ?case by (simp add: Suc.IH)
qed

lemma base_256_less: "a < (b::nat) \<Longrightarrow> k < 256 \<Longrightarrow> 256 * a + k < 256 * b"
  by linarith

lemma be_nat_less: "be_nat s < 256 ^ length s"
proof (induction s rule: rev_induct)
  case Nil
  then show ?case by simp
next
  case (snoc c s)
  obtain k :: nat where k: "of_char c = k" "k < 256" by (simp add: of_char_def)
  with base_256_less [OF snoc k(2)] show ?case by simp
qed

lemma be_bytes_be_nat: "length s = k \<Longrightarrow> be_bytes k (be_nat s) = s"
proof (induction s arbitrary: k rule: rev_induct)
  case Nil
  then show ?case by simp
next
  case (snoc c s)
  have c: "(of_char c :: nat) < 256" by (simp add: of_char_def)
  from snoc.prems obtain m where m: "k = Suc m" "length s = m" by (cases k) auto
  have d: "(256 * be_nat s + of_char c) div 256 = be_nat s" using c by simp
  have e: "char_of ((256 * be_nat s + of_char c) mod 256 :: nat) = c" using c by simp
  show ?case using snoc.IH [OF m(2)] by (simp add: m(1) d e)
qed

subsection \<open>The interface of a fixed-width field\<close>

locale fixed_codec =
  fixes width :: nat
    and enc :: "'a \<Rightarrow> string"
    and deco :: "string \<Rightarrow> 'a"
  assumes enc_length: "length (enc x) = width"
    and deco_enc: "deco (enc x) = x"
begin

lemma enc_inject: "enc x = enc y \<longleftrightarrow> x = y"
  using deco_enc by metis

lemma sread_enc:
  "sread width (stream_at p (enc x @ t)) = (enc x, stream_at (p @ enc x) t)"
  by (simp add: sread_def stream_at_def good_def rest_def advance_def enc_length)

lemma deco_sread_enc: "deco (fst (sread width (stream_at p (enc x @ t)))) = x"
  by (simp add: sread_enc deco_enc)

end

lemma word_of_be_nat:
  "k * 8 = LENGTH('a::len) \<Longrightarrow> (word_of_nat (be_nat (be_bytes k (unat w))) :: 'a word) = w"
proof -
  assume k: "k * 8 = LENGTH('a)"
  have "(256::nat) ^ k = (2 ^ 8) ^ k" by simp
  also have "\<dots> = 2 ^ (8 * k)" by (rule power_mult [symmetric])
  also have "\<dots> = 2 ^ LENGTH('a)" using k by (simp add: mult.commute)
  finally have "(256::nat) ^ k = 2 ^ LENGTH('a)" .
  then show ?thesis by (simp add: unsigned_less)
qed

interpretation be16: fixed_codec 2 htobe16 be16toh
  by unfold_locales (simp_all add: htobe16_def be16toh_def word_of_be_nat del: be_nat_be_bytes)

interpretation be32: fixed_codec 4 htobe32 be32toh
  by unfold_locales (simp_all add: htobe32_def be32toh_def word_of_be_nat del: be_nat_be_bytes)

interpretation be64: fixed_codec 8 htobe64 be64toh
  by unfold_locales (simp_all add: htobe64_def be64toh_def word_of_be_nat del: be_nat_be_bytes)

interpretation byte8: fixed_codec 1 byte_of of_byte
  by unfold_locales (simp_all add: byte_of_def of_byte_def word_of_be_nat del: be_nat_be_bytes be_bytes.simps)

subsection \<open>Decimal numbers\<close>

lemma digit_props: "n < 10 \<Longrightarrow> is_digit (digit n) \<and> of_char (digit n) = 48 + n"
  by (simp add: is_digit_def digit_def)

lemma digits_val_Nil [simp]: "digits_val [] = 0"
  by (simp add: digits_val_def)

lemma digits_val_snoc [simp]: "digits_val (s @ [c]) = 10 * digits_val s + (of_char c - 48)"
  by (simp add: digits_val_def)

lemma dec_nat_props:
  "list_all is_digit (dec_nat n) \<and> dec_nat n \<noteq> [] \<and> digits_val (dec_nat n) = n"
proof (induction n rule: dec_nat.induct)
  case (1 n)
  show ?case
  proof (cases "n < 10")
    case True
    then show ?thesis
      using digits_val_snoc [of "[]" "digit n"] by (simp add: dec_nat.simps digit_props)
  next
    case False
    with 1 show ?thesis by (simp add: dec_nat.simps [of n] digit_props)
  qed
qed

lemma dec_nat_digits [simp]:
  "list_all is_digit (dec_nat n)" "dec_nat n \<noteq> []" "digits_val (dec_nat n) = n"
  using dec_nat_props by auto

lemma dec_nat_inject [simp]: "dec_nat m = dec_nat n \<longleftrightarrow> m = n"
  using dec_nat_digits(3) by metis

lemma is_digit_not_special: "is_digit c \<Longrightarrow> \<not> is_space c \<and> c \<noteq> CHR ''-'' \<and> c \<noteq> CHR ''+''"
  by (auto simp: is_digit_def is_space_def)

lemma dec_nat_hd: "is_digit (hd (dec_nat n))"
  using dec_nat_digits(1,2) [of n] by (cases "dec_nat n") auto

lemma length_dec_nat_3: "100 \<le> n \<Longrightarrow> n < 1000 \<Longrightarrow> length (dec_nat n) = 3"
proof -
  assume n: "100 \<le> n" "n < 1000"
  then have "\<not> n < 10" "\<not> n div 10 < 10" "n div 10 div 10 < 10" by linarith+
  then show ?thesis
    by (simp add: dec_nat.simps [of n] dec_nat.simps [of "n div 10"] dec_nat.simps [of "n div 10 div 10"])
qed

subsection \<open>Streams\<close>

lemma stream_of_at: "stream_of s = stream_at [] s"
  by (simp add: stream_of_def stream_at_def)

lemma stream_at_sel [simp]:
  "good (stream_at p r)" "rest (stream_at p r) = r" "sbuf (stream_at p r) = p @ r"
  "gpos (stream_at p r) = length p" "failbit (stream_at p r) = False"
  "eofbit (stream_at p r) = False"
  by (simp_all add: stream_at_def good_def rest_def)

lemma advance_stream_at: "length xs = n \<Longrightarrow> advance n (stream_at p (xs @ ys)) = stream_at (p @ xs) ys"
  by (simp add: advance_def stream_at_def)

lemma sread_stream_at [stream_simps]:
  "length xs = n \<Longrightarrow> sread n (stream_at p (xs @ ys)) = (xs, stream_at (p @ xs) ys)"
  by (simp add: sread_def advance_stream_at)

lemma seekg_cur_stream_at [stream_simps]:
  "length xs = n \<Longrightarrow> seekg_cur (int n) (stream_at p (xs @ ys)) = stream_at (p @ xs) ys"
  by (simp add: seekg_cur_def seek_to_def stream_at_def nat_add_distrib)

lemma seekg_beg_stream_at [stream_simps]:
  "length p = n \<Longrightarrow> seekg_beg (int n) (stream_at (p @ q) r) = stream_at p (q @ r)"
  by (simp add: seekg_beg_def seek_to_def stream_at_def)

lemma skipws_nonspace [stream_simps]:
  "\<not> is_space c \<Longrightarrow> skipws (stream_at p (c # t)) = (True, stream_at p (c # t))"
  by (simp add: skipws_def advance_def)

lemma skipws_space [stream_simps]:
  "is_space b \<Longrightarrow> \<not> is_space c \<Longrightarrow>
     skipws (stream_at p (b # c # t)) = (True, stream_at (p @ [b]) (c # t))"
  using advance_stream_at [of "[b]" 1 p "c # t"] by (simp add: skipws_def)

lemma extract_int_digits:
  assumes s: "skipws s = (True, stream_at p (ds @ c # t))"
    and ds: "list_all is_digit ds" "ds \<noteq> []" and c: "\<not> is_digit c"
    and v: "digits_val ds \<le> 2147483647"
  shows "extract_int old s = (int (digits_val ds), stream_at (p @ ds) (c # t))"
proof -
  have h: "hd (ds @ c # t) \<notin> {CHR ''-'', CHR ''+''}"
    using ds is_digit_not_special by (cases ds) auto
  have tw: "takeWhile is_digit (ds @ c # t) = ds"
    using ds(1) c by (rule takeWhile_append_stop)
  show ?thesis
    using h ds(2) v by (auto simp: extract_int_def s tw Let_def advance_stream_at)
qed

lemma skipws_dec_nat:
  "skipws (stream_at p (dec_nat n @ t)) = (True, stream_at p (dec_nat n @ t))"
  "is_space b \<Longrightarrow>
     skipws (stream_at p (b # dec_nat n @ t)) = (True, stream_at (p @ [b]) (dec_nat n @ t))"
  using dec_nat_digits(1,2) [of n] is_digit_not_special
  by (cases "dec_nat n"; auto simp: stream_simps)+

lemma extract_int_dec_nat [stream_simps]:
  assumes "\<not> is_digit c" "n \<le> 2147483647"
  shows "extract_int old (stream_at p (dec_nat n @ c # t)) =
           (int n, stream_at (p @ dec_nat n) (c # t))"
    and "is_space b \<Longrightarrow> extract_int old (stream_at p (b # dec_nat n @ c # t)) =
           (int n, stream_at (p @ b # dec_nat n) (c # t))"
  using extract_int_digits [OF skipws_dec_nat(1) dec_nat_digits(1,2) assms(1), of n]
    extract_int_digits [OF skipws_dec_nat(2) dec_nat_digits(1,2) assms(1), of b n] assms(2)
  by simp_all

lemma extract_word_stream_at [stream_simps]:
  assumes "list_all (\<lambda>c. \<not> is_space c) w" "w \<noteq> []" "is_space b"
  shows "extract_word old (stream_at p (w @ b # t)) = (w, stream_at (p @ w) (b # t))"
proof -
  have "skipws (stream_at p (w @ b # t)) = (True, stream_at p (w @ b # t))"
    using assms by (cases w) (auto simp: stream_simps)
  moreover have "takeWhile (\<lambda>c. \<not> is_space c) (w @ b # t) = w"
    using assms by (intro takeWhile_append_stop) auto
  ultimately show ?thesis by (simp add: extract_word_def advance_stream_at)
qed

lemma getline_stream_at [stream_simps]:
  "d \<notin> set w \<Longrightarrow> getline d old (stream_at p (w @ d # t)) = (w, stream_at (p @ w @ [d]) t)"
  using advance_stream_at [of "w @ [d]" "Suc (length w)" p t]
  by (simp add: getline_def takeWhile_neq Let_def)

lemma getline_all [stream_simps]:
  "d \<notin> set w \<Longrightarrow> w \<noteq> [] \<Longrightarrow> fst (getline d old (stream_at p w)) = w"
  by (simp add: getline_def takeWhile_neq Let_def)

text \<open>A word that is read and put back by \<^verbatim>\<open>seekg(-length, cur)\<close> leaves the stream as it was, at the
  first byte that is not white space.\<close>

lemma extract_word_unread:
  assumes "skipws (stream_at p r) = (True, stream_at q u)" "extract_word old (stream_at p r) = (w, s)"
  shows "seekg_cur (- int (length w)) s = stream_at q u" "w = takeWhile (\<lambda>c. \<not> is_space c) u"
proof -
  let ?w = "takeWhile (\<lambda>c. \<not> is_space c) u"
  have e: "w = ?w" "s = (if length ?w = length u then at_end (stream_at q u) else advance (length ?w) (stream_at q u))"
    using assms by (auto simp: extract_word_def Let_def)
  have "length ?w \<le> length u" by (rule length_takeWhile_le)
  then show "seekg_cur (- int (length w)) s = stream_at q u"
    by (auto simp: e seekg_cur_def seek_to_def at_end_def advance_def stream_at_def)
  show "w = ?w" by (rule e)
qed

lemma extract_word_end:
  assumes "list_all (\<lambda>c. \<not> is_space c) w" "w \<noteq> []"
  shows "extract_word old (stream_at p w) = (w, at_end (stream_at p w))"
proof -
  have "skipws (stream_at p w) = (True, stream_at p w)"
    using assms by (cases w) (auto simp: stream_simps)
  then show ?thesis using assms by (simp add: extract_word_def takeWhile_all)
qed

end
