(* ===== verification/Hash.thy ===== *)
theory Hash
  imports Streams
begin

text \<open>
  The class \<^verbatim>\<open>Hash\<close> (\<^verbatim>\<open>include/hash.hpp\<close>, \<^verbatim>\<open>src/hash.cpp\<close>): a 64-byte digest, its
  comparison operators, its hexadecimal text, and the functors that make it a key of the node and
  box maps. libsodium's \<^verbatim>\<open>crypto_generichash\<close> with a 64-byte output and no key is the parameter
  \<open>gh\<close> of the definitions that call it. The comparison of digests is an interface of its own
  (the locale \<open>digest_order\<close>): a strict total order, from which the client lemmas on sorted
  vectors follow.
\<close>

definition F_GENERIC_HASH_LEN :: nat where
  "F_GENERIC_HASH_LEN = 64"

lemmas hash_len = F_GENERIC_HASH_LEN_def

text \<open>The array \<^verbatim>\<open>hash_\<close> is allocated and not initialised (\<open>None\<close>) until a digest is stored.\<close>

record hash =
  h_hash :: "string option"
  h_empty :: bool

definition Hash_default :: hash where
  "Hash_default = \<lparr>h_hash = None, h_empty = True\<rparr>"

definition Hash_bytes :: "string \<Rightarrow> hash" where
  "Hash_bytes hash_bytes = \<lparr>h_hash = Some (take F_GENERIC_HASH_LEN hash_bytes), h_empty = False\<rparr>"

definition makeHash :: "(string \<Rightarrow> string) \<Rightarrow> string \<Rightarrow> hash \<Rightarrow> hash" where
  "makeHash gh str h = h\<lparr>h_hash := Some (take F_GENERIC_HASH_LEN (gh str)), h_empty := False\<rparr>"

definition Hash_string :: "(string \<Rightarrow> string) \<Rightarrow> string \<Rightarrow> hash" where
  "Hash_string gh str = makeHash gh str \<lparr>h_hash = None, h_empty = True\<rparr>"

definition hash_empty :: "hash \<Rightarrow> bool" where
  "hash_empty h = h_empty h"

text \<open>\<open>getBytes\<close> hands out the array; reading it before a digest is stored is undefined.\<close>

definition getBytes :: "hash \<Rightarrow> string result" where
  "getBytes h = (case h_hash h of None \<Rightarrow> Inl Undefined_behaviour | Some b \<Rightarrow> Inr b)"

section \<open>Text form\<close>

definition hex_digit :: "nat \<Rightarrow> char" where
  "hex_digit n = char_of (if n < 10 then 48 + n else 87 + n)"

text \<open>\<^verbatim>\<open><< std::hex << std::setfill('0') << std::setw(2) << (int)c\<close>\<close>

definition hex_byte :: "char \<Rightarrow> string" where
  "hex_byte c = [hex_digit (of_char c div 16), hex_digit (of_char c mod 16)]"

definition getString :: "hash \<Rightarrow> string" where
  "getString h =
    (if \<not> h_empty h then concat (map hex_byte (case h_hash h of Some b \<Rightarrow> b | None \<Rightarrow> []))
     else [])"

section \<open>Comparison\<close>

fun memcmp :: "string \<Rightarrow> string \<Rightarrow> nat \<Rightarrow> int" where
  "memcmp (a # s) (b # t) (Suc n) =
     (if a = b then memcmp s t n else int (of_char a) - int (of_char b))"
| "memcmp _ _ _ = 0"

definition compare_guard :: "hash \<Rightarrow> hash \<Rightarrow> (string \<times> string) result" where
  "compare_guard lhs rhs =
    (if h_empty lhs \<or> h_empty rhs then Inl (Runtime_error ''Comparing empty Hash'')
     else bindE (getBytes lhs) (\<lambda>l. bindE (getBytes rhs) (\<lambda>r. Inr (l, r))))"

definition hash_less :: "hash \<Rightarrow> hash \<Rightarrow> bool result" where
  "hash_less lhs rhs =
    bindE (compare_guard lhs rhs) (\<lambda>(l, r). Inr (memcmp l r F_GENERIC_HASH_LEN < 0))"

definition hash_greater :: "hash \<Rightarrow> hash \<Rightarrow> bool result" where
  "hash_greater lhs rhs = bindE (compare_guard lhs rhs) (\<lambda>_. hash_less rhs lhs)"

definition hash_less_eq :: "hash \<Rightarrow> hash \<Rightarrow> bool result" where
  "hash_less_eq lhs rhs =
    bindE (compare_guard lhs rhs) (\<lambda>_. bindE (hash_greater lhs rhs) (\<lambda>b. Inr (\<not> b)))"

definition hash_greater_eq :: "hash \<Rightarrow> hash \<Rightarrow> bool result" where
  "hash_greater_eq lhs rhs =
    bindE (compare_guard lhs rhs) (\<lambda>_. bindE (hash_less lhs rhs) (\<lambda>b. Inr (\<not> b)))"

definition hash_equal :: "hash \<Rightarrow> hash \<Rightarrow> bool result" where
  "hash_equal lhs rhs =
    bindE (compare_guard lhs rhs) (\<lambda>(l, r). Inr (memcmp l r F_GENERIC_HASH_LEN = 0))"

definition hash_not_equal :: "hash \<Rightarrow> hash \<Rightarrow> bool result" where
  "hash_not_equal lhs rhs =
    bindE (compare_guard lhs rhs) (\<lambda>_. bindE (hash_equal lhs rhs) (\<lambda>b. Inr (\<not> b)))"

text \<open>The functors over plain and shared pointers to hashes dereference both and compare.\<close>

definition hashPointerLessThanFunctor :: "hash \<Rightarrow> hash \<Rightarrow> bool result" where
  "hashPointerLessThanFunctor lhs rhs =
    (if hash_empty lhs \<or> hash_empty rhs then Inl (Runtime_error ''Comparing empty Hash'')
     else hash_less lhs rhs)"

definition hashPointerEqualsFunctor :: "hash \<Rightarrow> hash \<Rightarrow> bool result" where
  "hashPointerEqualsFunctor lhs rhs =
    (if hash_empty lhs \<or> hash_empty rhs then Inl (Runtime_error ''Comparing empty Hash'')
     else hash_equal lhs rhs)"

text \<open>The container key: the first eight bytes as a \<^verbatim>\<open>size_t\<close> of a little-endian machine.\<close>

definition hashAsKeyForContainerFunctor :: "hash \<Rightarrow> u64 result" where
  "hashAsKeyForContainerFunctor h =
    (if hash_empty h then Inl (Runtime_error ''Using empty Hash'')
     else bindE (getBytes h) (\<lambda>b. Inr (word_of_nat (be_nat (rev (take 8 b))))))"

section \<open>Well-formed hashes\<close>

text \<open>What every constructor establishes when the digest has 64 bytes.\<close>

definition hash_ok :: "hash \<Rightarrow> bool" where
  "hash_ok h =
    (case h_hash h of None \<Rightarrow> h_empty h
     | Some b \<Rightarrow> \<not> h_empty h \<and> length b = F_GENERIC_HASH_LEN)"

definition digest :: "hash \<Rightarrow> string" where
  "digest h = (case h_hash h of Some b \<Rightarrow> b | None \<Rightarrow> [])"

definition filled :: "hash \<Rightarrow> bool" where
  "filled h \<longleftrightarrow> hash_ok h \<and> \<not> h_empty h"

lemma filled_cases: "filled h \<Longrightarrow> h_hash h = Some (digest h) \<and> \<not> h_empty h \<and> length (digest h) = 64"
  by (auto simp: filled_def hash_ok_def digest_def hash_len split: option.splits)

lemma Hash_default_ok: "hash_ok Hash_default" "hash_empty Hash_default"
  by (simp_all add: hash_ok_def Hash_default_def hash_empty_def)

lemma Hash_bytes_ok: "length b = 64 \<Longrightarrow> filled (Hash_bytes b) \<and> digest (Hash_bytes b) = b"
  by (simp add: filled_def hash_ok_def Hash_bytes_def digest_def hash_len)

lemma makeHash_ok:
  "length (gh s) = 64 \<Longrightarrow> filled (makeHash gh s h) \<and> digest (makeHash gh s h) = gh s"
  by (simp add: filled_def hash_ok_def makeHash_def digest_def hash_len)

lemma Hash_string_ok:
  "length (gh s) = 64 \<Longrightarrow> filled (Hash_string gh s) \<and> digest (Hash_string gh s) = gh s"
  by (simp add: Hash_string_def makeHash_ok)

subsection \<open>memcmp is a strict total order on digests\<close>

lemma memcmp_refl [simp]: "memcmp s s n = 0"
proof (induction s arbitrary: n)
  case (Cons a s)
  then show ?case by (cases n) simp_all
qed simp

lemma memcmp_zero: "length s = n \<Longrightarrow> length t = n \<Longrightarrow> memcmp s t n = 0 \<longleftrightarrow> s = t"
  by (induction s t n rule: memcmp.induct) auto

lemma memcmp_antisym: "memcmp t s n = - memcmp s t n"
  by (induction s t n rule: memcmp.induct) auto

lemma memcmp_trans:
  "length s = n \<Longrightarrow> length t = n \<Longrightarrow> length u = n \<Longrightarrow>
     memcmp s t n < 0 \<Longrightarrow> memcmp t u n < 0 \<Longrightarrow> memcmp s u n < 0"
proof (induction s t n arbitrary: u rule: memcmp.induct)
  case (1 a s b t n)
  then obtain c v where u: "u = c # v" by (cases u) auto
  from 1 u show ?case by (auto split: if_splits)
qed simp_all

definition digest_less :: "string \<Rightarrow> string \<Rightarrow> bool" where
  "digest_less s t \<longleftrightarrow> memcmp s t F_GENERIC_HASH_LEN < 0"

definition is_digest :: "string \<Rightarrow> bool" where
  "is_digest s \<longleftrightarrow> length s = F_GENERIC_HASH_LEN"

section \<open>The interface of an ordering of digests\<close>

locale digest_order =
  fixes lt :: "'d \<Rightarrow> 'd \<Rightarrow> bool"
    and valid :: "'d \<Rightarrow> bool"
  assumes lt_irrefl: "\<not> lt x x"
    and lt_trans: "valid x \<Longrightarrow> valid y \<Longrightarrow> valid z \<Longrightarrow> lt x y \<Longrightarrow> lt y z \<Longrightarrow> lt x z"
    and lt_total: "valid x \<Longrightarrow> valid y \<Longrightarrow> x \<noteq> y \<Longrightarrow> lt x y \<or> lt y x"
begin

lemma lt_asym: "valid x \<Longrightarrow> valid y \<Longrightarrow> lt x y \<Longrightarrow> \<not> lt y x"
  using lt_trans lt_irrefl by blast

lemma lt_cases: "valid x \<Longrightarrow> valid y \<Longrightarrow> \<not> lt x y \<Longrightarrow> \<not> lt y x \<Longrightarrow> x = y"
  using lt_total by blast

lemma sorted_distinct:
  "sorted_wrt lt xs \<Longrightarrow> distinct xs"
  by (induction xs) (auto simp: lt_irrefl)

lemma sorted_unique:
  assumes "sorted_wrt lt xs" "sorted_wrt lt ys" "set xs = set ys" "\<forall>x \<in> set xs. valid x"
  shows "xs = ys"
  using assms
proof (induction xs arbitrary: ys)
  case Nil
  then show ?case by simp
next
  case (Cons x xs)
  then obtain y zs where ys: "ys = y # zs" by (cases ys) auto
  have v: "valid x" "valid y" using Cons.prems ys by auto
  have xy: "x = y"
  proof (rule ccontr)
    assume ne: "x \<noteq> y"
    from Cons.prems(3) ys have "y \<in> set (x # xs)" "x \<in> set (y # zs)" by auto
    with ne have "y \<in> set xs" "x \<in> set zs" by auto
    then have "lt x y" "lt y x" using Cons.prems(1,2) ys by auto
    with lt_asym v show False by blast
  qed
  have "distinct (x # xs)" "distinct (y # zs)"
    using Cons.prems(1,2) ys sorted_distinct by blast+
  then have "set xs = set zs" using Cons.prems(3) ys xy by auto
  then have "xs = zs" using Cons.IH Cons.prems ys by auto
  with xy ys show ?case by simp
qed

end

interpretation dig: digest_order digest_less is_digest
proof unfold_locales
  fix x y z
  show "\<not> digest_less x x" by (simp add: digest_less_def)
  show "is_digest x \<Longrightarrow> is_digest y \<Longrightarrow> is_digest z \<Longrightarrow> digest_less x y \<Longrightarrow> digest_less y z \<Longrightarrow>
      digest_less x z"
    using memcmp_trans [of x F_GENERIC_HASH_LEN y z] by (simp add: digest_less_def is_digest_def)
  show "is_digest x \<Longrightarrow> is_digest y \<Longrightarrow> x \<noteq> y \<Longrightarrow> digest_less x y \<or> digest_less y x"
    using memcmp_zero [of x F_GENERIC_HASH_LEN y] memcmp_antisym [of y x F_GENERIC_HASH_LEN]
    by (auto simp: digest_less_def is_digest_def)
qed

subsection \<open>The reference: the order of the bytes\<close>

definition byte_less :: "string \<Rightarrow> string \<Rightarrow> bool" where
  "byte_less s t \<longleftrightarrow> (\<exists>i < 64. take i s = take i t \<and> (of_char (s ! i) :: nat) < of_char (t ! i))"

lemma memcmp_bytes:
  "length s = n \<Longrightarrow> length t = n \<Longrightarrow>
     memcmp s t n < 0 \<longleftrightarrow> (\<exists>i < n. take i s = take i t \<and> (of_char (s ! i) :: nat) < of_char (t ! i))"
proof (induction s t n rule: memcmp.induct)
  case (1 a s b t n)
  have split: "(\<exists>i < Suc n. P i) \<longleftrightarrow> P 0 \<or> (\<exists>i < n. P (Suc i))" for P
    by (metis less_Suc_eq_0_disj)
  from 1 show ?case by (cases "a = b") (simp_all add: split)
qed auto

lemma digest_less_bytes: "is_digest s \<Longrightarrow> is_digest t \<Longrightarrow> digest_less s t = byte_less s t"
  by (simp add: digest_less_def byte_less_def is_digest_def hash_len memcmp_bytes)

subsection \<open>The operators in terms of the digests\<close>

lemma filled_is_digest: "filled h \<Longrightarrow> is_digest (digest h)"
  by (simp add: is_digest_def hash_len filled_cases)

lemma compare_guard_filled:
  "filled a \<Longrightarrow> filled b \<Longrightarrow> compare_guard a b = Inr (digest a, digest b)"
  by (simp add: compare_guard_def getBytes_def filled_cases)

lemma filled_not_empty: "filled h \<Longrightarrow> \<not> hash_empty h"
  by (simp add: filled_def hash_empty_def)

lemma hash_less_filled:
  "filled a \<Longrightarrow> filled b \<Longrightarrow> hash_less a b = Inr (digest_less (digest a) (digest b))"
  by (simp add: hash_less_def compare_guard_filled digest_less_def)

lemma hash_equal_filled:
  "filled a \<Longrightarrow> filled b \<Longrightarrow> hash_equal a b = Inr (digest a = digest b)"
  by (simp add: hash_equal_def compare_guard_filled memcmp_zero filled_cases hash_len)

lemmas hash_ops_filled =
  hash_less_filled hash_equal_filled compare_guard_filled filled_not_empty hash_greater_def
  hash_less_eq_def hash_greater_eq_def hash_not_equal_def hashPointerLessThanFunctor_def
  hashPointerEqualsFunctor_def

subsection \<open>Hexadecimal text\<close>

lemma hex_digit_inject: "m < 16 \<Longrightarrow> n < 16 \<Longrightarrow> hex_digit m = hex_digit n \<longleftrightarrow> m = n"
  by (auto simp: hex_digit_def dest!: arg_cong [of _ _ "of_char :: char \<Rightarrow> nat"])

lemma of_char_less_256: "(of_char c :: nat) < 256"
  by (simp add: of_char_def)

lemma hex_byte_inject: "hex_byte a = hex_byte b \<longleftrightarrow> a = b"
proof
  assume h: "hex_byte a = hex_byte b"
  have "(of_char a :: nat) div 16 < 16" "(of_char b :: nat) div 16 < 16"
    using of_char_less_256 [of a] of_char_less_256 [of b] by linarith+
  then have "(of_char a :: nat) div 16 = of_char b div 16" "(of_char a :: nat) mod 16 = of_char b mod 16"
    using h hex_digit_inject by (auto simp: hex_byte_def)
  then have "(of_char a :: nat) = of_char b" by (metis div_mod_decomp)
  then show "a = b" by simp
qed simp

lemma length_hex_byte [simp]: "length (hex_byte c) = 2"
  by (simp add: hex_byte_def)

lemma hex_inject: "concat (map hex_byte s) = concat (map hex_byte t) \<longleftrightarrow> s = t"
proof
  assume "concat (map hex_byte s) = concat (map hex_byte t)"
  then show "s = t"
  proof (induction s arbitrary: t)
    case Nil
    then show ?case by (cases t) (auto simp: hex_byte_def)
  next
    case (Cons a s)
    then obtain b u where t: "t = b # u" by (cases t) (auto simp: hex_byte_def)
    with Cons show ?case by (simp add: append_eq_append_conv hex_byte_inject)
  qed
qed simp

lemma getString_filled: "filled h \<Longrightarrow> getString h = concat (map hex_byte (digest h))"
  by (simp add: getString_def filled_cases)

lemma getString_inject:
  "filled a \<Longrightarrow> filled b \<Longrightarrow> getString a = getString b \<longleftrightarrow> digest a = digest b"
  by (simp add: getString_filled hex_inject)

lemma length_getString: "filled h \<Longrightarrow> length (getString h) = 128"
proof -
  have "length (concat (map hex_byte s)) = 2 * length s" for s
    by (induction s) simp_all
  then show "filled h \<Longrightarrow> ?thesis" by (simp add: getString_filled filled_cases)
qed

section \<open>Properties\<close>

text \<open>C10. On filled hashes the six operators are decided by the digests read as sequences of unsigned
  bytes: less is the lexicographic order of the bytes (the first byte that differs is the smaller
  one), equal is equality of the digests, greater is less with the sides exchanged, and the other
  three are their complements. Exactly one of less, equal and greater holds, no hash is less than
  itself, and less is transitive, so the hashes are strictly and totally ordered.\<close>

theorem hash_trichotomy:
  assumes "filled a" "filled b" "filled c"
  shows "hash_less a b = Inr (byte_less (digest a) (digest b)) \<and>
     hash_greater a b = Inr (byte_less (digest b) (digest a)) \<and>
     (\<exists>l e g. hash_less a b = Inr l \<and> hash_equal a b = Inr e \<and> hash_greater a b = Inr g \<and>
       (l \<and> \<not> e \<and> \<not> g \<or> \<not> l \<and> e \<and> \<not> g \<or> \<not> l \<and> \<not> e \<and> g) \<and>
       hash_less_eq a b = Inr (l \<or> e) \<and> hash_greater_eq a b = Inr (g \<or> e) \<and>
       hash_not_equal a b = Inr (\<not> e) \<and> (e \<longleftrightarrow> digest a = digest b)) \<and>
     hash_less a a = Inr False \<and>
     (hash_less a b = Inr True \<and> hash_less b c = Inr True \<longrightarrow> hash_less a c = Inr True)"
proof -
  let ?x = "digest a" and ?y = "digest b"
  have v: "is_digest ?x" "is_digest ?y" "is_digest (digest c)" using assms by (simp_all add: filled_is_digest)
  have "\<exists>l e g. hash_less a b = Inr l \<and> hash_equal a b = Inr e \<and> hash_greater a b = Inr g \<and>
     (l \<and> \<not> e \<and> \<not> g \<or> \<not> l \<and> e \<and> \<not> g \<or> \<not> l \<and> \<not> e \<and> g) \<and>
     hash_less_eq a b = Inr (l \<or> e) \<and> hash_greater_eq a b = Inr (g \<or> e) \<and>
     hash_not_equal a b = Inr (\<not> e) \<and> (e \<longleftrightarrow> ?x = ?y)"
    using dig.lt_irrefl [of ?x] dig.lt_asym [OF v(1,2)] dig.lt_total [OF v(1,2)]
    by (auto simp: hash_ops_filled assms)
  moreover have "hash_less a b = Inr (byte_less ?x ?y)" "hash_greater a b = Inr (byte_less ?y ?x)" "hash_less a a = Inr False"
    by (simp_all add: hash_ops_filled assms digest_less_bytes v dig.lt_irrefl)
  moreover have "hash_less a b = Inr True \<and> hash_less b c = Inr True \<longrightarrow> hash_less a c = Inr True"
    using dig.lt_trans [OF v] by (simp add: hash_less_filled assms)
  ultimately show ?thesis by blast
qed

theorem hash_trichotomy_witness:
  "hash_less (Hash_bytes (replicate 64 CHR ''a'')) (Hash_bytes (replicate 64 CHR ''b'')) = Inr True \<and>
   hash_greater (Hash_bytes (replicate 64 CHR ''a'')) (Hash_bytes (replicate 64 CHR ''b'')) = Inr False \<and>
   hash_less (Hash_bytes (replicate 64 CHR ''a'')) (Hash_bytes (replicate 64 CHR ''c'')) = Inr True"
proof -
  let ?a = "Hash_bytes (replicate 64 CHR ''a'')" and ?b = "Hash_bytes (replicate 64 CHR ''b'')"
  let ?c = "Hash_bytes (replicate 64 CHR ''c'')"
  have f: "filled ?a" "filled ?b" "filled ?c" by (simp_all add: Hash_bytes_ok)
  have "hash_less ?a ?b = Inr True" "hash_less ?b ?c = Inr True"
    by (simp_all add: hash_less_def compare_guard_def getBytes_def Hash_bytes_def hash_len eval_nat_numeral)
  with hash_trichotomy [OF f] show ?thesis by auto
qed

text \<open>The functors make a lawful unordered-map key: filled hashes that the equality functor
  identifies have the same container key, and their texts coincide exactly when they do.\<close>

lemma hash_key_lawful:
  assumes "filled a" "filled b"
  shows "(hashPointerEqualsFunctor a b = Inr True \<longleftrightarrow> getString a = getString b) \<and>
     (hashPointerEqualsFunctor a b = Inr True \<longrightarrow>
        hashAsKeyForContainerFunctor a = hashAsKeyForContainerFunctor b)"
  using assms by (auto simp: hash_ops_filled getString_inject hashAsKeyForContainerFunctor_def
      getBytes_def filled_cases)

end
