(* ===== verification/Hash_Tree.thy ===== *)
theory Hash_Tree
  imports Hash "HOL-Library.Multiset"
begin

text \<open>
  The class \<^verbatim>\<open>HashTree\<close> (\<^verbatim>\<open>include/hash_tree.hpp\<close>, \<^verbatim>\<open>src/hash_tree.cpp\<close>). A
  \<^verbatim>\<open>std::shared_ptr<Hash>\<close> is its address with the hash it points to, since \<^verbatim>\<open>std::unique\<close>
  without a predicate compares the pointers; \<^verbatim>\<open>new\<close> takes the next free address. The reference
  is the Merkle tree of the leaves, level by level (\<open>merkle_levels\<close>), and the symmetric
  difference of two sets of leaves.
\<close>

type_synonym sptr = "nat \<times> hash"

record hash_tree =
  ht_hashes :: "sptr list"
  ht_elements_per_level :: "nat list"

definition HashTree_default :: hash_tree where
  "HashTree_default = \<lparr>ht_hashes = [], ht_elements_per_level = []\<rparr>"

definition HashTree_of :: "sptr list \<Rightarrow> hash_tree" where
  "HashTree_of hashes = \<lparr>ht_hashes = hashes, ht_elements_per_level = []\<rparr>"

section \<open>The algorithms of the standard library\<close>

definition hashSharedPointerLessThanFunctor :: "sptr \<Rightarrow> sptr \<Rightarrow> bool result" where
  "hashSharedPointerLessThanFunctor lhs rhs =
    (if hash_empty (snd lhs) \<or> hash_empty (snd rhs)
     then Inl (Runtime_error ''Comparing empty Hash'') else hash_less (snd lhs) (snd rhs))"

definition hashSharedPointerEqualsFunctor :: "sptr \<Rightarrow> sptr \<Rightarrow> bool result" where
  "hashSharedPointerEqualsFunctor lhs rhs =
    (if hash_empty (snd lhs) \<or> hash_empty (snd rhs)
     then Inl (Runtime_error ''Comparing empty Hash'') else hash_equal (snd lhs) (snd rhs))"

text \<open>\<^verbatim>\<open>std::sort\<close> with a comparison that may throw. Equivalent elements keep their order here;
  the standard leaves that order open, and no property below depends on it.\<close>

fun sort_insert :: "('a \<Rightarrow> 'a \<Rightarrow> bool result) \<Rightarrow> 'a \<Rightarrow> 'a list \<Rightarrow> 'a list result" where
  "sort_insert lt x [] = Inr [x]"
| "sort_insert lt x (y # ys) =
     bindE (lt x y) (\<lambda>b. if b then Inr (x # y # ys)
       else bindE (sort_insert lt x ys) (\<lambda>zs. Inr (y # zs)))"

definition std_sort :: "('a \<Rightarrow> 'a \<Rightarrow> bool result) \<Rightarrow> 'a list \<Rightarrow> 'a list result" where
  "std_sort lt xs = foldE (\<lambda>acc x. sort_insert lt x acc) [] xs"

text \<open>\<^verbatim>\<open>std::unique\<close> on shared pointers (the pointers are compared) and \<^verbatim>\<open>std::unique_copy\<close> with
  a predicate: of each run of equal neighbours the first is kept.\<close>

fun unique_ptrs :: "sptr list \<Rightarrow> sptr list" where
  "unique_ptrs (x # y # zs) =
     (if fst x = fst y then unique_ptrs (x # zs) else x # unique_ptrs (y # zs))"
| "unique_ptrs xs = xs"

fun unique_copy :: "('a \<Rightarrow> 'a \<Rightarrow> bool result) \<Rightarrow> 'a list \<Rightarrow> 'a list result" where
  "unique_copy eq (x # y # zs) =
     bindE (eq x y) (\<lambda>b. if b then unique_copy eq (x # zs)
       else bindE (unique_copy eq (y # zs)) (\<lambda>us. Inr (x # us)))"
| "unique_copy eq xs = Inr xs"

fun set_symmetric_difference ::
  "('a \<Rightarrow> 'a \<Rightarrow> bool result) \<Rightarrow> 'a list \<Rightarrow> 'a list \<Rightarrow> 'a list result" where
  "set_symmetric_difference lt [] ys = Inr ys"
| "set_symmetric_difference lt xs [] = Inr xs"
| "set_symmetric_difference lt (x # xs) (y # ys) =
     bindE (lt x y) (\<lambda>b.
       if b then bindE (set_symmetric_difference lt xs (y # ys)) (\<lambda>zs. Inr (x # zs))
       else bindE (lt y x) (\<lambda>c.
         if c then bindE (set_symmetric_difference lt (x # xs) ys) (\<lambda>zs. Inr (y # zs))
         else set_symmetric_difference lt xs ys))"

section \<open>Building the tree\<close>

text \<open>The greatest \<^verbatim>\<open>int\<close> of the 32-bit type the source counts with. A sum, a shift or a
  conversion whose value is larger is undefined (or, for the conversion from \<^verbatim>\<open>size_t\<close> and the
  shift, left to the implementation); the model stops there.\<close>

definition INT_MAX :: int where
  "INT_MAX = 2147483647"

text \<open>The loop that finds the depth: \<^verbatim>\<open>while ((1 + ((hash_count - 1) / tree_leaf_count)) > 1)\<close>.
  The leaf count starts at 1 and doubles; the quotient is never negative but for an empty vector,
  where the divisor is 1, so \<open>div\<close> is the division of C.\<close>

function depth_loop :: "int \<Rightarrow> int \<Rightarrow> int \<Rightarrow> nat \<Rightarrow> (int \<times> int \<times> nat) result" where
  "depth_loop hash_count leaf_count tree_size depth =
     (if 0 < leaf_count \<and> 1 + (hash_count - 1) div leaf_count > 1 then
        if 2 * leaf_count > INT_MAX \<or> tree_size + 2 * leaf_count > INT_MAX
        then Inl Undefined_behaviour
        else depth_loop hash_count (2 * leaf_count) (tree_size + 2 * leaf_count) (Suc depth)
      else Inr (leaf_count, tree_size, depth))"
  by pat_completeness auto
termination
proof (relation "measure (\<lambda>(h, l, s, d). nat (h - l))", goal_cases)
  case 1
  show ?case by simp
next
  case (2 h l s d)
  then have "0 < (h - 1) div l" by simp
  with 2 have "l \<le> h - 1" by (simp add: pos_imp_zdiv_pos_iff)
  with 2 show ?case by simp
qed

declare depth_loop.simps [simp del]

text \<open>One pass of \<^verbatim>\<open>for (int j = 0; j < (1 << i); ++j)\<close>; the state is the vector, the node counter
  of the level and the next free address.\<close>

definition level_step :: "(string \<Rightarrow> string) \<Rightarrow> nat \<Rightarrow> nat \<Rightarrow> sptr list \<times> nat \<times> nat \<Rightarrow> nat \<Rightarrow>
    (sptr list \<times> nat \<times> nat) result" where
  "level_step gh node_count back st j =
    (case st of (hashes, temp_node_count, nxt) \<Rightarrow>
     let offset = 2 * j; curr_item = node_count + offset in
     if int back - (int offset + 2) \<ge> 0 then
       bindE (nthE hashes curr_item) (\<lambda>a. bindE (nthE hashes (curr_item + 1)) (\<lambda>b.
         Inr (hashes @ [(nxt, Hash_string gh (getString (snd a) @ getString (snd b)))],
              temp_node_count + 1, nxt + 1)))
     else if (int offset + 2) - int back = 1 then
       bindE (nthE hashes curr_item) (\<lambda>a.
         Inr (hashes @ [(nxt, Hash_string gh (getString (snd a) @ getString (snd a)))],
              temp_node_count + 1, nxt + 1))
     else Inr st)"

text \<open>The levels above the leaves, \<^verbatim>\<open>for (int i = tree_depth - 1; i >= 0; --i)\<close>: the recursion is
  on \<open>i + 1\<close>.\<close>

fun upper_levels :: "(string \<Rightarrow> string) \<Rightarrow> nat \<Rightarrow> sptr list \<Rightarrow> nat list \<Rightarrow> nat \<Rightarrow> nat \<Rightarrow>
    (sptr list \<times> nat list \<times> nat) result" where
  "upper_levels gh 0 hashes per_level node_count nxt = Inr (hashes, per_level, nxt)"
| "upper_levels gh (Suc i) hashes per_level node_count nxt =
     bindE (foldE (level_step gh node_count (last per_level)) (hashes, 0, nxt) [0..<2 ^ i])
       (\<lambda>(hashes', temp_node_count, nxt').
          upper_levels gh i hashes' (per_level @ [temp_node_count]) (node_count + last per_level) nxt')"

text \<open>\<^verbatim>\<open>hashes.reserve(tree_size+1)\<close> is computed in \<^verbatim>\<open>int\<close> as well. The remaining counters
  (\<^verbatim>\<open>node_count\<close>, \<^verbatim>\<open>offset\<close>, \<^verbatim>\<open>curr_item\<close>, \<^verbatim>\<open>1 << i\<close>) stay below the tree size, so
  once that sum is in range none of them can overflow.\<close>

definition makeHashTree :: "(string \<Rightarrow> string) \<Rightarrow> nat \<Rightarrow> sptr list \<Rightarrow> (hash_tree \<times> nat) result" where
  "makeHashTree gh nxt temp_hashes =
    bindE (std_sort hashSharedPointerLessThanFunctor temp_hashes) (\<lambda>sorted_hashes.
      let leaves = unique_ptrs sorted_hashes;
          hash_count = length leaves
      in if int hash_count > INT_MAX then Inl Undefined_behaviour
         else bindE (depth_loop (int hash_count) 1 1 0) (\<lambda>(leaf_count, tree_size, tree_depth).
           if hash_count > 0 then
             if tree_size + 1 > INT_MAX then Inl Undefined_behaviour
             else bindE (upper_levels gh tree_depth leaves [hash_count] 0 nxt)
               (\<lambda>(hashes, per_level, nxt').
                  Inr (\<lparr>ht_hashes = hashes, ht_elements_per_level = per_level\<rparr>, nxt'))
           else Inr (\<lparr>ht_hashes = [], ht_elements_per_level = []\<rparr>, nxt)))"

definition makeHashTreeFromSelf :: "(string \<Rightarrow> string) \<Rightarrow> nat \<Rightarrow> hash_tree \<Rightarrow> (hash_tree \<times> nat) result" where
  "makeHashTreeFromSelf gh nxt t = makeHashTree gh nxt (ht_hashes t)"

definition ht_empty :: "hash_tree \<Rightarrow> bool" where
  "ht_empty t \<longleftrightarrow> ht_hashes t = []"

definition getTopHash :: "hash_tree \<Rightarrow> hash" where
  "getTopHash t = (if ht_hashes t \<noteq> [] then snd (last (ht_hashes t)) else Hash_default)"

section \<open>Comparing trees\<close>

text \<open>The free function of the header, which \<^verbatim>\<open>operator==\<close> calls: true when the top hashes agree.\<close>

definition checkHashTreeChange_free :: "hash_tree \<Rightarrow> hash_tree \<Rightarrow> bool" where
  "checkHashTreeChange_free lhs rhs =
    (if getString (getTopHash lhs) \<noteq> getString (getTopHash rhs) then False else True)"

definition hash_tree_equal :: "hash_tree \<Rightarrow> hash_tree \<Rightarrow> bool" where
  "hash_tree_equal lhs rhs = checkHashTreeChange_free lhs rhs"

definition hash_tree_not_equal :: "hash_tree \<Rightarrow> hash_tree \<Rightarrow> bool" where
  "hash_tree_not_equal lhs rhs = (\<not> checkHashTreeChange_free lhs rhs)"

text \<open>The member function: \<^verbatim>\<open>hashes_.back()\<close> of the own vector is undefined when it is empty.\<close>

definition checkHashTreeChange :: "hash_tree \<Rightarrow> hash_tree \<Rightarrow> bool result" where
  "checkHashTreeChange self lhs =
    (if ht_hashes self = [] then Inl Undefined_behaviour
     else Inr (getString (getTopHash lhs) \<noteq> getString (snd (last (ht_hashes self)))))"

definition frontE :: "'a list \<Rightarrow> 'a result" where
  "frontE xs = (case xs of [] \<Rightarrow> Inl Undefined_behaviour | x # _ \<Rightarrow> Inr x)"

text \<open>The leaves of a tree, sorted and without repetition, as \<open>getChangedHashes\<close> prepares them.\<close>

definition unique_leaves :: "hash_tree \<Rightarrow> sptr list result" where
  "unique_leaves t =
    bindE (frontE (ht_elements_per_level t)) (\<lambda>n.
      if n \<le> length (ht_hashes t) then
        bindE (std_sort hashSharedPointerLessThanFunctor (take n (ht_hashes t)))
          (unique_copy hashSharedPointerEqualsFunctor)
      else Inl Undefined_behaviour)"

definition getChangedHashes :: "hash_tree \<Rightarrow> hash_tree \<Rightarrow> sptr list \<Rightarrow> (bool \<times> sptr list) result" where
  "getChangedHashes self lhs changed_hashes =
    bindE (checkHashTreeChange self lhs) (\<lambda>changed.
      if changed then
        bindE (unique_leaves lhs) (\<lambda>left.
          bindE (unique_leaves self) (\<lambda>right.
            bindE (set_symmetric_difference hashSharedPointerLessThanFunctor left right)
              (\<lambda>diff. Inr (True, diff))))
      else Inr (False, changed_hashes))"

section \<open>The reference: Merkle levels\<close>

fun parents :: "(hash \<Rightarrow> hash \<Rightarrow> hash) \<Rightarrow> hash list \<Rightarrow> hash list" where
  "parents f [] = []"
| "parents f [a] = [f a a]"
| "parents f (a # b # hs) = f a b # parents f hs"

lemma length_parents: "length (parents f hs) = (length hs + 1) div 2"
  by (induction f hs rule: parents.induct) simp_all

function merkle_levels :: "(hash \<Rightarrow> hash \<Rightarrow> hash) \<Rightarrow> hash list \<Rightarrow> hash list list" where
  "merkle_levels f hs = (if length hs \<le> 1 then [hs] else hs # merkle_levels f (parents f hs))"
  by pat_completeness auto
termination
  by (relation "measure (\<lambda>(f, hs). length hs)") (auto simp: length_parents)

declare merkle_levels.simps [simp del]

definition merkle_root :: "(hash \<Rightarrow> hash \<Rightarrow> hash) \<Rightarrow> hash list \<Rightarrow> hash" where
  "merkle_root f hs = hd (last (merkle_levels f hs))"

definition join_hashes :: "(string \<Rightarrow> string) \<Rightarrow> hash \<Rightarrow> hash \<Rightarrow> hash" where
  "join_hashes gh a b = Hash_string gh (getString a @ getString b)"

section \<open>The algorithms without exceptions\<close>

fun insert_by :: "('a \<Rightarrow> 'a \<Rightarrow> bool) \<Rightarrow> 'a \<Rightarrow> 'a list \<Rightarrow> 'a list" where
  "insert_by lt x [] = [x]"
| "insert_by lt x (y # ys) = (if lt x y then x # y # ys else y # insert_by lt x ys)"

definition sort_by :: "('a \<Rightarrow> 'a \<Rightarrow> bool) \<Rightarrow> 'a list \<Rightarrow> 'a list" where
  "sort_by lt xs = foldl (\<lambda>acc x. insert_by lt x acc) [] xs"

fun unique_by :: "('a \<Rightarrow> 'a \<Rightarrow> bool) \<Rightarrow> 'a list \<Rightarrow> 'a list" where
  "unique_by eq (x # y # zs) =
     (if eq x y then unique_by eq (x # zs) else x # unique_by eq (y # zs))"
| "unique_by eq xs = xs"

fun symdiff_by :: "('a \<Rightarrow> 'a \<Rightarrow> bool) \<Rightarrow> 'a list \<Rightarrow> 'a list \<Rightarrow> 'a list" where
  "symdiff_by lt [] ys = ys"
| "symdiff_by lt xs [] = xs"
| "symdiff_by lt (x # xs) (y # ys) =
     (if lt x y then x # symdiff_by lt xs (y # ys)
      else if lt y x then y # symdiff_by lt (x # xs) ys
      else symdiff_by lt xs ys)"

lemma set_insert_by [simp]: "set (insert_by lt x ys) = insert x (set ys)"
  by (induction ys) auto

lemma mset_insert_by [simp]: "mset (insert_by lt x ys) = add_mset x (mset ys)"
  by (induction ys) auto

lemma mset_sort_by [simp]: "mset (sort_by lt xs) = mset xs"
  unfolding sort_by_def by (induction xs rule: rev_induct) simp_all

lemma set_sort_by [simp]: "set (sort_by lt xs) = set xs"
  by (rule mset_eq_setD) simp

lemma set_unique_by: "set (unique_by eq xs) \<subseteq> set xs"
  by (induction eq xs rule: unique_by.induct) auto

lemma map_insert_by:
  "map f (insert_by (\<lambda>a b. lt (f a) (f b)) x ys) = insert_by lt (f x) (map f ys)"
  by (induction ys) simp_all

lemma map_sort_by: "map f (sort_by (\<lambda>a b. lt (f a) (f b)) xs) = sort_by lt (map f xs)"
  unfolding sort_by_def by (induction xs rule: rev_induct) (simp_all add: map_insert_by)

lemma map_unique_by: "map f (unique_by (\<lambda>a b. eq (f a) (f b)) xs) = unique_by eq (map f xs)"
proof (induction "\<lambda>a b. eq (f a) (f b)" xs rule: unique_by.induct)
  case (1 x y zs)
  then show ?case by simp
qed simp_all

lemma map_symdiff_by:
  "map f (symdiff_by (\<lambda>a b. lt (f a) (f b)) xs ys) = symdiff_by lt (map f xs) (map f ys)"
proof (induction "\<lambda>a b. lt (f a) (f b)" xs ys rule: symdiff_by.induct)
  case (1 ys)
  then show ?case by simp
next
  case (2 x xs)
  then show ?case by simp
next
  case (3 x xs y ys)
  then show ?case by simp
qed

text \<open>A comparison that never throws on the elements at hand.\<close>

definition total_on :: "('a \<Rightarrow> 'a \<Rightarrow> bool result) \<Rightarrow> ('a \<Rightarrow> 'a \<Rightarrow> bool) \<Rightarrow> 'a set \<Rightarrow> bool" where
  "total_on ltE lt A \<longleftrightarrow> (\<forall>a \<in> A. \<forall>b \<in> A. ltE a b = Inr (lt a b))"

lemma sort_insert_total:
  "total_on ltE lt (insert x (set ys)) \<Longrightarrow> sort_insert ltE x ys = Inr (insert_by lt x ys)"
  by (induction ys) (auto simp: total_on_def)

lemma std_sort_total: "total_on ltE lt (set xs) \<Longrightarrow> std_sort ltE xs = Inr (sort_by lt xs)"
proof (induction xs rule: rev_induct)
  case Nil
  then show ?case by (simp add: std_sort_def sort_by_def)
next
  case (snoc x xs)
  then have "std_sort ltE xs = Inr (sort_by lt xs)" by (simp add: total_on_def)
  moreover have "sort_insert ltE x (sort_by lt xs) = Inr (insert_by lt x (sort_by lt xs))"
    using snoc.prems by (intro sort_insert_total) (simp add: total_on_def)
  ultimately show ?case by (simp add: std_sort_def sort_by_def foldE_snoc)
qed

lemma unique_copy_total: "total_on eqE eq (set xs) \<Longrightarrow> unique_copy eqE xs = Inr (unique_by eq xs)"
  by (induction eqE xs rule: unique_copy.induct) (auto simp: total_on_def)

lemma symdiff_total:
  "total_on ltE lt (set xs \<union> set ys) \<Longrightarrow>
     set_symmetric_difference ltE xs ys = Inr (symdiff_by lt xs ys)"
  by (induction ltE xs ys rule: set_symmetric_difference.induct) (auto simp: total_on_def)

section \<open>Sorted sets of digests\<close>

context digest_order begin

lemma sorted_insert_by:
  "valid x \<Longrightarrow> \<forall>y \<in> set ys. valid y \<Longrightarrow> sorted_wrt (\<lambda>a b. \<not> lt b a) ys \<Longrightarrow>
     sorted_wrt (\<lambda>a b. \<not> lt b a) (insert_by lt x ys)"
proof (induction ys)
  case (Cons y ys)
  show ?case
  proof (cases "lt x y")
    case True
    have "\<not> lt z x" if "z \<in> set ys" for z
      using Cons.prems True that lt_trans [of z x y] by auto
    with True Cons.prems lt_asym show ?thesis by auto
  next
    case False
    with Cons show ?thesis by auto
  qed
qed simp

lemma sorted_sort_by:
  "\<forall>x \<in> set xs. valid x \<Longrightarrow> sorted_wrt (\<lambda>a b. \<not> lt b a) (sort_by lt xs)"
proof (induction xs rule: rev_induct)
  case (snoc x xs)
  then have "sorted_wrt (\<lambda>a b. \<not> lt b a) (insert_by lt x (sort_by lt xs))"
    by (intro sorted_insert_by) auto
  then show ?case by (simp add: sort_by_def)
qed (simp add: sort_by_def)

lemma unique_by_sorted:
  assumes "\<forall>x \<in> set xs. valid x" "sorted_wrt (\<lambda>a b. \<not> lt b a) xs"
  shows "sorted_wrt lt (unique_by (=) xs) \<and> set (unique_by (=) xs) = set xs"
  using assms
proof (induction "(=) :: 'd \<Rightarrow> 'd \<Rightarrow> bool" xs rule: unique_by.induct)
  case (1 x y zs)
  show ?case
  proof (cases "x = y")
    case True
    with 1 show ?thesis by auto
  next
    case False
    with 1 have IH: "sorted_wrt lt (unique_by (=) (y # zs))" "set (unique_by (=) (y # zs)) = set (y # zs)"
      by auto
    have "lt x z" if "z \<in> set (y # zs)" for z
    proof -
      have "\<not> lt y x" "\<not> lt z x" "\<not> lt z y" "valid x" "valid y" "valid z"
        using 1 that lt_irrefl by auto
      with False show ?thesis using lt_total lt_cases lt_trans by metis
    qed
    with IH False show ?thesis by auto
  qed
qed simp_all

lemma symdiff_by_sorted:
  assumes "\<forall>x \<in> set xs \<union> set ys. valid x" "sorted_wrt lt xs" "sorted_wrt lt ys"
  shows "set (symdiff_by lt xs ys) = (set xs - set ys) \<union> (set ys - set xs) \<and>
         sorted_wrt lt (symdiff_by lt xs ys)"
  using assms
proof (induction xs arbitrary: ys)
  case (Cons x xs)
  note outer = Cons.IH
  from Cons.prems show ?case
  proof (induction ys)
    case (Cons y ys)
    have v: "valid x" "valid y" using Cons.prems by auto
    have xs: "\<forall>z \<in> set xs. lt x z" and ys: "\<forall>z \<in> set ys. lt y z" using Cons.prems by auto
    consider "lt x y" | "lt y x" | "x = y" using lt_total v by blast
    then show ?case
    proof cases
      case 1
      have "\<forall>z \<in> set (y # ys). lt x z" using 1 ys v Cons.prems(1) lt_trans [of x y] by auto
      with 1 outer [of "y # ys"] Cons.prems xs lt_irrefl show ?thesis by auto
    next
      case 2
      have "\<forall>z \<in> set (x # xs). lt y z" using 2 xs v Cons.prems(1) lt_trans [of y x] by auto
      moreover have "\<not> lt x y" using 2 v lt_asym by blast
      ultimately show ?thesis using 2 Cons.IH Cons.prems ys lt_irrefl by auto
    next
      case 3
      with outer [of ys] Cons.prems xs ys lt_irrefl show ?thesis by auto
    qed
  qed simp
qed simp

lemma sorted_mset_unique:
  assumes "sorted_wrt (\<lambda>a b. \<not> lt b a) xs" "sorted_wrt (\<lambda>a b. \<not> lt b a) ys"
    "mset xs = mset ys" "\<forall>x \<in> set xs. valid x"
  shows "xs = ys"
  using assms
proof (induction xs arbitrary: ys)
  case (Cons x xs)
  then obtain y zs where ys: "ys = y # zs" by (cases ys) auto
  have sets: "set (x # xs) = set (y # zs)" using Cons.prems(3) ys mset_eq_setD by blast
  then have v: "valid x" "valid y" using Cons.prems(4) by auto
  have "y \<in> set (x # xs)" "x \<in> set (y # zs)" using sets by auto
  then have "\<not> lt y x" "\<not> lt x y" using Cons.prems(1,2) ys lt_irrefl by auto
  then have xy: "x = y" using lt_cases v by blast
  then have "xs = zs" using Cons.IH [of zs] Cons.prems ys by auto
  with xy ys show ?case by simp
qed simp

lemma sort_by_cong:
  "mset xs = mset ys \<Longrightarrow> \<forall>x \<in> set xs. valid x \<Longrightarrow> sort_by lt xs = sort_by lt ys"
  by (rule sorted_mset_unique) (auto intro!: sorted_sort_by dest: mset_eq_setD)

lemma symdiff_leaves:
  assumes "\<forall>x \<in> set xs \<union> set ys. valid x"
  defines "z \<equiv> symdiff_by lt (unique_by (=) (sort_by lt xs)) (unique_by (=) (sort_by lt ys))"
  shows "set z = (set xs - set ys) \<union> (set ys - set xs) \<and> sorted_wrt lt z"
proof -
  have u: "sorted_wrt lt (unique_by (=) (sort_by lt zs)) \<and> set (unique_by (=) (sort_by lt zs)) = set zs"
    if "\<forall>x \<in> set zs. valid x" for zs
    using unique_by_sorted [of "sort_by lt zs"] sorted_sort_by [of zs] that by simp
  show ?thesis
    using symdiff_by_sorted [of "unique_by (=) (sort_by lt xs)" "unique_by (=) (sort_by lt ys)"]
      u [of xs] u [of ys] assms(1) unfolding z_def by simp
qed

end

section \<open>The vector of nodes is the Merkle tree\<close>

definition key :: "sptr \<Rightarrow> string" where
  "key p = digest (snd p)"

lemma key_fun: "key = (\<lambda>p. digest (snd p))"
  by (simp add: key_def fun_eq_iff)

definition key_less :: "sptr \<Rightarrow> sptr \<Rightarrow> bool" where
  "key_less a b = digest_less (key a) (key b)"

definition all_filled :: "sptr list \<Rightarrow> bool" where
  "all_filled ps = list_all (\<lambda>p. filled (snd p)) ps"

definition leaves_of :: "sptr list \<Rightarrow> sptr list" where
  "leaves_of ps = unique_ptrs (sort_by key_less ps)"

text \<open>Consecutive addresses from \<open>n\<close> on for a list of new hashes.\<close>

definition alloc :: "nat \<Rightarrow> hash list \<Rightarrow> sptr list" where
  "alloc n hs = zip [n..<n + length hs] hs"

lemma map_snd_alloc [simp]: "map snd (alloc n hs) = hs" "length (alloc n hs) = length hs"
  by (simp_all add: alloc_def)

lemma alloc_snoc: "alloc n (hs @ [h]) = alloc n hs @ [(n + length hs, h)]"
  by (simp add: alloc_def)

lemma parents_even:
  "even (length hs) \<Longrightarrow> parents f (hs @ [a, b]) = parents f hs @ [f a b]"
  "even (length hs) \<Longrightarrow> parents f (hs @ [a]) = parents f hs @ [f a a]"
  by (induction f hs rule: parents.induct) simp_all

lemma take_two_more:
  "n + 2 \<le> length xs \<Longrightarrow> take (n + 2) xs = take n xs @ [xs ! n, xs ! (n + 1)]"
  by (simp add: take_Suc_conv_app_nth)

lemma take_one_more: "n + 1 = length xs \<Longrightarrow> take (n + 2) xs = take n xs @ [xs ! n]"
  by (metis Suc_eq_plus1 add_2_eq_Suc' le_add2 lessI nat_le_linear not_less_eq_eq take_Suc_conv_app_nth
      take_all_iff)

lemma level_step_cases:
  "2 * j + 2 \<le> back \<Longrightarrow> nc + 2 * j + 1 < length hs \<Longrightarrow>
     level_step gh nc back (hs, t, n) j =
       Inr (hs @ [(n, join_hashes gh (snd (hs ! (nc + 2 * j))) (snd (hs ! (nc + (2 * j + 1)))))], t + 1, n + 1)"
  "2 * j + 1 = back \<Longrightarrow> nc + 2 * j < length hs \<Longrightarrow>
     level_step gh nc back (hs, t, n) j =
       Inr (hs @ [(n, join_hashes gh (snd (hs ! (nc + 2 * j))) (snd (hs ! (nc + 2 * j))))], t + 1, n + 1)"
  "back \<le> 2 * j \<Longrightarrow> level_step gh nc back (hs, t, n) j = Inr (hs, t, n)"
  by (simp_all add: level_step_def nthE_def join_hashes_def Let_def)

lemma level_fold:
  assumes "f = join_hashes gh"
  shows "foldE (level_step gh (length pre) (length prev)) (pre @ prev, 0, nxt) [0..<m] =
     (let new = parents f (map snd (take (2 * m) prev))
      in Inr (pre @ prev @ alloc nxt new, length new, nxt + length new))"
proof (induction m)
  case 0
  then show ?case by (simp add: alloc_def)
next
  case (Suc m)
  let ?t = "map snd (take (2 * m) prev)"
  let ?new = "parents f ?t"
  have idx: "(pre @ prev @ alloc nxt ?new) ! (length pre + i) = prev ! i" if "i < length prev" for i
    using that by (simp add: nth_append)
  consider (two) "2 * m + 2 \<le> length prev" | (one) "2 * m + 1 = length prev" | (none) "length prev \<le> 2 * m"
    by linarith
  then show ?case
  proof cases
    case two
    then have "parents f (map snd (take (2 * Suc m) prev)) =
        ?new @ [f (snd (prev ! (2 * m))) (snd (prev ! (2 * m + 1)))]"
      using parents_even(1) [of ?t f] take_two_more [of "2 * m" prev] by simp
    with two Suc idx [of "2 * m"] idx [of "2 * m + 1"] show ?thesis
      by (simp add: foldE_snoc level_step_cases(1) alloc_snoc assms Let_def del: append_assoc)
  next
    case one
    have tk: "take (2 * Suc m) prev = take (2 * m) prev @ [prev ! (2 * m)]"
      using one take_one_more [of "2 * m" prev] by simp
    have "parents f (map snd (take (2 * Suc m) prev)) = ?new @ [f (snd (prev ! (2 * m))) (snd (prev ! (2 * m)))]"
      unfolding tk map_append list.map using one by (intro parents_even(2)) simp
    with one Suc idx [of "2 * m"] show ?thesis
      by (simp add: foldE_snoc level_step_cases(2) alloc_snoc assms Let_def)
  next
    case none
    with Suc show ?thesis by (simp add: foldE_snoc level_step_cases(3) Let_def)
  qed
qed

lemma merkle_levels_single: "length hs \<le> 1 \<Longrightarrow> merkle_levels f hs = [hs]"
  by (simp add: merkle_levels.simps [of f hs])

lemma merkle_levels_more: "1 < length hs \<Longrightarrow> merkle_levels f hs = hs # merkle_levels f (parents f hs)"
  by (simp add: merkle_levels.simps [of f hs])

lemma merkle_levels_Cons: "merkle_levels f hs = hs # tl (merkle_levels f hs)"
  by (cases "length hs \<le> 1") (simp_all add: merkle_levels_single merkle_levels_more)

lemma upper_levels_merkle:
  assumes "f = join_hashes gh" "prev \<noteq> []" "length prev \<le> 2 ^ i" "i > 0 \<longrightarrow> 2 ^ (i - 1) < length prev"
  shows "\<exists>ns nxt'. upper_levels gh i (pre @ prev) (per @ [length prev]) (length pre) nxt =
       Inr (pre @ prev @ ns, per @ map length (merkle_levels f (map snd prev)), nxt') \<and>
     map snd ns = concat (tl (merkle_levels f (map snd prev)))"
  using assms(2-4)
proof (induction i arbitrary: pre prev per nxt)
  case 0
  then have "length prev = 1" by (cases prev) auto
  then show ?case by (simp add: merkle_levels_single)
next
  case (Suc i)
  let ?new = "parents f (map snd prev)"
  let ?nodes = "alloc nxt ?new"
  have "(1::nat) \<le> 2 ^ i" by simp
  with Suc.prems(3) have big: "1 < length prev" by (simp only: diff_Suc_1) linarith
  have tk: "take (2 * 2 ^ i) prev = prev" using Suc.prems(2) by simp
  have len: "length ?nodes = (length prev + 1) div 2" by (simp add: length_parents)
  have "0 < length ?nodes" unfolding len using big by linarith
  then have pre: "?nodes \<noteq> []" by (rule length_greater_0_conv [THEN iffD1])
  have hi: "length ?nodes \<le> 2 ^ i" using len Suc.prems(2) by simp
  have lo: "i > 0 \<longrightarrow> 2 ^ (i - 1) < length ?nodes"
  proof
    assume "i > 0"
    then have "(2::nat) ^ i = 2 * 2 ^ (i - 1)" by (metis power_minus_mult mult.commute)
    with Suc.prems(3) show "2 ^ (i - 1) < length ?nodes" using len by simp
  qed
  from Suc.IH [OF pre hi lo, of "pre @ prev" "per @ [length prev]" "nxt + length ?new"]
  obtain ns nxt' where
    up: "upper_levels gh i ((pre @ prev) @ ?nodes) ((per @ [length prev]) @ [length ?nodes]) (length (pre @ prev))
           (nxt + length ?new) =
         Inr ((pre @ prev) @ ?nodes @ ns, (per @ [length prev]) @ map length (merkle_levels f (map snd ?nodes)), nxt')"
    and ns: "map snd ns = concat (tl (merkle_levels f (map snd ?nodes)))" by blast
  have ml: "merkle_levels f (map snd prev) = map snd prev # merkle_levels f ?new"
    using big by (simp add: merkle_levels_more)
  have "concat (merkle_levels f ?new) = map snd (?nodes @ ns)"
    using ns merkle_levels_Cons [of f ?new] by (metis concat.simps(2) map_append map_snd_alloc(1))
  then show ?case
    using up level_fold [OF assms(1), of pre prev nxt "2 ^ i"] tk ml
    by (intro exI [of _ "?nodes @ ns"] exI [of _ nxt']) (simp add: Let_def)
qed

text \<open>The depth is the least one whose level has room for the leaves, and the tree size is that of
  the full tree.\<close>

lemma depth_loop_bounds:
  assumes "depth_loop h l s k = Inr (l', s', d)" "l = 2 ^ k" "s = 2 * l - 1" "1 \<le> h"
    "k > 0 \<longrightarrow> 2 ^ (k - 1) < h"
  shows "h \<le> 2 ^ d \<and> (d > 0 \<longrightarrow> 2 ^ (d - 1) < h) \<and> l' = 2 ^ d \<and> s' = 2 * 2 ^ d - 1"
  using assms
proof (induction h l s k rule: depth_loop.induct)
  case (1 h l s k)
  show ?case
  proof (cases "0 < l \<and> 1 + (h - 1) div l > 1")
    case True
    then have "l \<le> h - 1" by (auto simp: pos_imp_zdiv_pos_iff)
    moreover have g: "\<not> (2 * l > INT_MAX \<or> s + 2 * l > INT_MAX)"
      using 1(2) True by (auto simp: depth_loop.simps [of h l s k])
    moreover have "depth_loop h l s k = depth_loop h (2 * l) (s + 2 * l) (Suc k)"
      using True g by (simp add: depth_loop.simps [of h l s k])
    ultimately show ?thesis using 1 True by simp
  next
    case False
    with 1 have "\<not> 0 < (h - 1) div 2 ^ k" by simp
    then have "h - 1 < 2 ^ k" by (simp add: pos_imp_zdiv_pos_iff)
    moreover have "depth_loop h l s k = Inr (l, s, k)"
      by (simp only: depth_loop.simps [of h l s k] False if_False)
    ultimately have "h - 1 < 2 ^ k" "(l', s', d) = (l, s, k)" using 1(2) by simp_all
    then show ?thesis using 1(3-6) by auto
  qed
qed

lemma depth_loop_returns:
  assumes "0 < l" "s = 2 * l - 1" "h \<le> 2 ^ 29"
  shows "\<exists>r. depth_loop h l s k = Inr r"
  using assms
proof (induction h l s k rule: depth_loop.induct)
  case (1 h l s k)
  show ?case
  proof (cases "1 + (h - 1) div l > 1")
    case True
    with 1(2) have "l \<le> h - 1" by (auto simp: pos_imp_zdiv_pos_iff)
    with 1(4) have "l < 2 ^ 29" by linarith
    then have g: "\<not> (2 * l > INT_MAX \<or> s + 2 * l > INT_MAX)" using 1(3) by (simp add: INT_MAX_def)
    then have "depth_loop h l s k = depth_loop h (2 * l) (s + 2 * l) (Suc k)"
      using True 1(2) by (simp add: depth_loop.simps [of h l s k])
    then show ?thesis using 1(1) [OF _ g] True 1(2-4) by simp
  qed (simp add: depth_loop.simps [of h l s k])
qed

lemma depth_loop_error: "depth_loop h l s k = Inl e \<Longrightarrow> e = Undefined_behaviour"
proof (induction h l s k rule: depth_loop.induct)
  case (1 h l s k)
  then show ?case by (auto simp: depth_loop.simps [of h l s k] split: if_splits)
qed

text \<open>More than $2^{29}$ leaves need a tree size that \<^verbatim>\<open>int\<close> cannot hold.\<close>

lemma depth_loop_large:
  assumes "2 ^ 29 < h"
  shows "depth_loop h 1 1 0 = Inl Undefined_behaviour \<or>
    (\<exists>l s d. depth_loop h 1 1 0 = Inr (l, s, d) \<and> s + 1 > INT_MAX)"
proof (cases "depth_loop h 1 1 0")
  case (Inl e)
  then show ?thesis using depth_loop_error by blast
next
  case (Inr r)
  obtain l s d where r: "r = (l, s, d)" by (cases r)
  from depth_loop_bounds [of h 1 1 0 l s d] Inr r assms have b: "h \<le> 2 ^ d" "s = 2 * 2 ^ d - 1" by auto
  then have "(2::int) ^ 29 < 2 ^ d" using assms by linarith
  then have "29 < d" by (rule power_less_imp_less_exp [rotated]) simp
  then have "(2::int) ^ 30 \<le> 2 ^ d" by (intro power_increasing) simp_all
  then have "s + 1 > INT_MAX" using b by (simp add: INT_MAX_def)
  then show ?thesis using Inr r by blast
qed


subsection \<open>The tree of filled leaves\<close>

lemma functors_filled:
  assumes "filled (snd a)" "filled (snd b)"
  shows "hashSharedPointerLessThanFunctor a b = Inr (key_less a b)"
    and "hashSharedPointerEqualsFunctor a b = Inr (key a = key b)"
  using assms by (simp_all add: hashSharedPointerLessThanFunctor_def hashSharedPointerEqualsFunctor_def
      hash_less_filled hash_equal_filled filled_not_empty key_less_def key_def)

lemma all_filledD: "all_filled ps \<Longrightarrow> p \<in> set ps \<Longrightarrow> filled (snd p)"
  by (simp add: all_filled_def list_all_iff)

lemma all_filled_subset: "all_filled ps \<Longrightarrow> set xs \<subseteq> set ps \<Longrightarrow> all_filled xs"
  by (auto simp: all_filled_def list_all_iff)

lemma total_on_functors:
  assumes "all_filled ps"
  shows "total_on hashSharedPointerLessThanFunctor key_less (set ps)"
    and "total_on hashSharedPointerEqualsFunctor (\<lambda>a b. key a = key b) (set ps)"
  unfolding total_on_def by (intro ballI functors_filled all_filledD [OF assms]; assumption)+

lemma unique_ptrs_distinct: "distinct (map fst ps) \<Longrightarrow> unique_ptrs ps = ps"
  by (induction ps rule: unique_ptrs.induct) auto

lemma distinct_sort_by: "distinct (map fst ps) \<Longrightarrow> distinct (map fst (sort_by lt ps))"
  by (metis mset_sort_by mset_map mset_eq_imp_distinct_iff)

lemma leaves_of_distinct: "distinct (map fst ps) \<Longrightarrow> leaves_of ps = sort_by key_less ps"
  by (simp add: leaves_of_def unique_ptrs_distinct distinct_sort_by)

lemma length_sort_by [simp]: "length (sort_by lt xs) = length xs"
  by (metis mset_sort_by size_mset)

lemma map_key_sort: "map key (sort_by key_less ps) = sort_by digest_less (map key ps)"
  unfolding key_less_def by (rule map_sort_by)

lemma last_merkle_level: "hs \<noteq> [] \<Longrightarrow> length (last (merkle_levels f hs)) = 1"
proof (induction f hs rule: merkle_levels.induct)
  case (1 f hs)
  show ?case
  proof (cases "length hs \<le> 1")
    case True
    with 1 show ?thesis by (cases hs) (simp_all add: merkle_levels_single)
  next
    case False
    then have "0 < length (parents f hs)" by (simp add: length_parents)
    then have "parents f hs \<noteq> []" by (rule length_greater_0_conv [THEN iffD1])
    with 1 False have "length (last (merkle_levels f (parents f hs))) = 1" by simp
    moreover have "merkle_levels f (parents f hs) \<noteq> []" by (subst merkle_levels_Cons) simp
    ultimately show ?thesis using False by (simp add: merkle_levels_more)
  qed
qed

lemma last_concat_merkle: "hs \<noteq> [] \<Longrightarrow> last (concat (merkle_levels f hs)) = merkle_root f hs"
proof -
  assume "hs \<noteq> []"
  then obtain h where h: "last (merkle_levels f hs) = [h]"
    using last_merkle_level by (metis One_nat_def length_0_conv length_Suc_conv)
  have ne: "merkle_levels f hs \<noteq> []" by (subst merkle_levels_Cons) simp
  then have "concat (merkle_levels f hs) = concat (butlast (merkle_levels f hs)) @ [h]"
    using h by (metis append_butlast_last_id concat_append concat.simps append_Nil2)
  then show ?thesis using h by (simp add: merkle_root_def)
qed

text \<open>Up to the depth loop, on filled leaves behind distinct pointers.\<close>

lemma makeHashTree_leaves:
  assumes "all_filled ps" "distinct (map fst ps)" "ps \<noteq> []"
  shows "makeHashTree gh nxt ps =
    (if int (length ps) > INT_MAX then Inl Undefined_behaviour
     else bindE (depth_loop (int (length ps)) 1 1 0) (\<lambda>(leaf_count, tree_size, tree_depth).
       if tree_size + 1 > INT_MAX then Inl Undefined_behaviour
       else bindE (upper_levels gh tree_depth (sort_by key_less ps) [length ps] 0 nxt)
         (\<lambda>(hashes, per_level, nxt').
            Inr (\<lparr>ht_hashes = hashes, ht_elements_per_level = per_level\<rparr>, nxt'))))"
proof -
  have "std_sort hashSharedPointerLessThanFunctor ps = Inr (sort_by key_less ps)"
    by (intro std_sort_total total_on_functors assms(1))
  moreover have "unique_ptrs (sort_by key_less ps) = sort_by key_less ps"
    by (intro unique_ptrs_distinct distinct_sort_by assms(2))
  moreover have "sort_by key_less ps \<noteq> []" using assms(3) by (metis length_sort_by length_0_conv)
  ultimately show ?thesis by (simp add: makeHashTree_def Let_def cong: if_cong)
qed

lemma makeHashTree_built:
  assumes "all_filled ps" "distinct (map fst ps)" "ps \<noteq> []"
    and "depth_loop (int (length ps)) 1 1 0 = Inr (l', s', d)" "s' + 1 \<le> INT_MAX"
  shows "\<exists>t nxt'. makeHashTree gh nxt ps = Inr (t, nxt') \<and>
     (let ls = merkle_levels (join_hashes gh) (map snd (sort_by key_less ps)) in
       map snd (ht_hashes t) = concat ls \<and> ht_elements_per_level t = map length ls) \<and>
     take (length ps) (ht_hashes t) = sort_by key_less ps"
proof -
  let ?l = "sort_by key_less ps"
  have ne: "?l \<noteq> []" using assms(3) by (metis length_sort_by length_0_conv)
  have "1 \<le> int (length ps)" using assms(3) by (cases ps) simp_all
  with depth_loop_bounds [OF assms(4)] have
    i: "int (length ps) \<le> 2 ^ d" "d > 0 \<longrightarrow> 2 ^ (d - 1) < int (length ps)" "s' = 2 * 2 ^ d - 1" by simp_all
  then have b: "length ?l \<le> 2 ^ d" "d > 0 \<longrightarrow> 2 ^ (d - 1) < length ?l"
    by (metis length_sort_by of_nat_le_iff of_nat_numeral of_nat_power,
        metis length_sort_by of_nat_less_iff of_nat_numeral of_nat_power)
  have m: "\<not> int (length ps) > INT_MAX"
    using i assms(5) by (smt (verit) zero_less_power)
  from upper_levels_merkle [OF refl ne b, of gh "[]" "[]" nxt] obtain ns nxt' where
    u: "upper_levels gh d ?l [length ?l] 0 nxt =
          Inr (?l @ ns, map length (merkle_levels (join_hashes gh) (map snd ?l)), nxt')"
    and ns: "map snd ns = concat (tl (merkle_levels (join_hashes gh) (map snd ?l)))" by auto
  have "map snd (?l @ ns) = concat (merkle_levels (join_hashes gh) (map snd ?l))"
    using ns merkle_levels_Cons [of "join_hashes gh" "map snd ?l"] by (metis concat.simps(2) map_append)
  then show ?thesis
    using u assms(4,5) m by (simp add: makeHashTree_leaves [OF assms(1-3)] Let_def)
qed

lemma makeHashTree_filled:
  assumes "all_filled ps" "distinct (map fst ps)" "ps \<noteq> []" "length ps \<le> 2 ^ 29"
  shows "\<exists>t nxt'. makeHashTree gh nxt ps = Inr (t, nxt') \<and>
     (let ls = merkle_levels (join_hashes gh) (map snd (sort_by key_less ps)) in
       map snd (ht_hashes t) = concat ls \<and> ht_elements_per_level t = map length ls) \<and>
     take (length ps) (ht_hashes t) = sort_by key_less ps"
proof -
  have h: "int (length ps) \<le> 2 ^ 29" using assms(4) by (metis of_nat_le_iff of_nat_numeral of_nat_power)
  then obtain l s d where d: "depth_loop (int (length ps)) 1 1 0 = Inr (l, s, d)"
    using depth_loop_returns [of 1 1 "int (length ps)" 0] by (metis mult_1_right diff_add_cancel
        add_diff_cancel_left' one_add_one prod_cases3 zero_less_one)
  have "1 \<le> int (length ps)" using assms(3) by (cases ps) simp_all
  with depth_loop_bounds [OF d] have b: "d > 0 \<longrightarrow> 2 ^ (d - 1) < int (length ps)" "s = 2 * 2 ^ d - 1"
    by simp_all
  have "d \<le> 29"
  proof (rule ccontr)
    assume "\<not> d \<le> 29"
    then have "(2::int) ^ 29 \<le> 2 ^ (d - 1)" by (intro power_increasing) simp_all
    moreover have "2 ^ (d - 1) < int (length ps)" using b(1) \<open>\<not> d \<le> 29\<close> by linarith
    ultimately show False using h by linarith
  qed
  then have "(2::int) ^ d \<le> 2 ^ 29" by (intro power_increasing) simp_all
  then have "s + 1 \<le> INT_MAX" using b by (simp add: INT_MAX_def)
  with makeHashTree_built [OF assms(1-3) d] show ?thesis .
qed

lemma makeHashTree_too_large:
  assumes "all_filled ps" "distinct (map fst ps)" "ps \<noteq> []" "2 ^ 29 < length ps"
  shows "makeHashTree gh nxt ps = Inl Undefined_behaviour"
proof -
  have "2 ^ 29 < int (length ps)" using assms(4) by (metis of_nat_less_iff of_nat_numeral of_nat_power)
  from depth_loop_large [OF this] show ?thesis
    by (auto simp: makeHashTree_leaves [OF assms(1-3)])
qed

text \<open>Whatever the number of leaves, a tree that is returned is the Merkle tree.\<close>

lemma makeHashTree_returned:
  assumes "makeHashTree gh nxt ps = Inr (t, nxt')" "all_filled ps" "distinct (map fst ps)" "ps \<noteq> []"
  shows "(let ls = merkle_levels (join_hashes gh) (map snd (sort_by key_less ps)) in
       map snd (ht_hashes t) = concat ls \<and> ht_elements_per_level t = map length ls) \<and>
     take (length ps) (ht_hashes t) = sort_by key_less ps"
proof -
  have "length ps \<le> 2 ^ 29"
    using makeHashTree_too_large [OF assms(2-4), of gh nxt] assms(1) by (metis not_le Inl_Inr_False)
  from makeHashTree_filled [OF assms(2-4) this, of gh nxt] assms(1) show ?thesis by auto
qed


text \<open>What is known of a tree built from the leaves \<open>ps\<close>.\<close>

definition tree_of :: "(string \<Rightarrow> string) \<Rightarrow> sptr list \<Rightarrow> hash_tree \<Rightarrow> bool" where
  "tree_of gh ps t \<longleftrightarrow> (\<exists>n n'. makeHashTree gh n ps = Inr (t, n'))"

definition good_leaves :: "sptr list \<Rightarrow> bool" where
  "good_leaves ps \<longleftrightarrow> ps \<noteq> [] \<and> all_filled ps \<and> distinct (map fst ps)"

lemma tree_of_facts:
  assumes "tree_of gh ps t" "good_leaves ps"
  defines "ls \<equiv> merkle_levels (join_hashes gh) (map snd (sort_by key_less ps))"
  shows "map snd (ht_hashes t) = concat ls" "ht_elements_per_level t = map length ls"
    "take (length ps) (ht_hashes t) = sort_by key_less ps"
    "getTopHash t = merkle_root (join_hashes gh) (map snd (sort_by key_less ps))"
    "hd (ht_elements_per_level t) = length ps" "ht_elements_per_level t \<noteq> []" "ht_hashes t \<noteq> []"
proof -
  from assms(1) obtain n n' where m: "makeHashTree gh n ps = Inr (t, n')" by (auto simp: tree_of_def)
  from assms(2) have ps: "ps \<noteq> []" by (simp add: good_leaves_def)
  have f: "map snd (ht_hashes t) = concat ls \<and> ht_elements_per_level t = map length ls \<and>
      take (length ps) (ht_hashes t) = sort_by key_less ps"
    using makeHashTree_returned [OF m] assms(2) unfolding good_leaves_def ls_def
    by (simp add: Let_def)
  then show "map snd (ht_hashes t) = concat ls" "ht_elements_per_level t = map length ls"
    "take (length ps) (ht_hashes t) = sort_by key_less ps" by simp_all
  have l: "ls = map snd (sort_by key_less ps) # tl ls" unfolding ls_def by (rule merkle_levels_Cons)
  then show "hd (ht_elements_per_level t) = length ps" "ht_elements_per_level t \<noteq> []"
    using f by (metis list.sel(1) list.simps(9) length_map length_sort_by, metis list.map_disc_iff list.discI)
  show ne: "ht_hashes t \<noteq> []" using f ps by (metis length_0_conv length_sort_by take_Nil)
  then have "snd (last (ht_hashes t)) = last (concat ls)" using f by (metis last_map)
  then show "getTopHash t = merkle_root (join_hashes gh) (map snd (sort_by key_less ps))"
    using ne ps last_concat_merkle [of "map snd (sort_by key_less ps)" "join_hashes gh"]
    unfolding getTopHash_def ls_def by (metis length_0_conv length_map length_sort_by)
qed

lemma filled_eqI: "filled a \<Longrightarrow> filled b \<Longrightarrow> digest a = digest b \<Longrightarrow> a = b"
  using filled_cases [of a] filled_cases [of b] by (cases a, cases b) simp

lemma map_snd_by_key:
  "all_filled xs \<Longrightarrow> all_filled ys \<Longrightarrow> map key xs = map key ys \<Longrightarrow> map snd xs = map snd ys"
proof (induction xs arbitrary: ys)
  case (Cons x xs)
  then obtain y zs where "ys = y # zs" by (cases ys) auto
  with Cons show ?case by (auto simp: all_filled_def key_def intro: filled_eqI)
qed simp

lemma valid_keys: "all_filled ps \<Longrightarrow> \<forall>x \<in> set (map key ps). is_digest x"
  by (auto simp: key_def intro: filled_is_digest dest: all_filledD)

lemma sorted_leaves_by_mset:
  assumes "all_filled ps" "all_filled qs" "mset (map key ps) = mset (map key qs)"
  shows "map snd (sort_by key_less ps) = map snd (sort_by key_less qs)"
  by (rule map_snd_by_key)
    (use assms in \<open>auto simp: map_key_sort intro: all_filled_subset dig.sort_by_cong valid_keys [THEN bspec]\<close>)


subsection \<open>No collision, no missed change\<close>

fun pair_strings :: "hash list \<Rightarrow> string list" where
  "pair_strings [] = []"
| "pair_strings [a] = [getString a @ getString a]"
| "pair_strings (a # b # hs) = (getString a @ getString b) # pair_strings hs"

text \<open>The strings that are hashed when the levels above the leaves are built.\<close>

function merkle_inputs :: "(string \<Rightarrow> string) \<Rightarrow> hash list \<Rightarrow> string list" where
  "merkle_inputs gh hs =
    (if length hs \<le> 1 then [] else pair_strings hs @ merkle_inputs gh (parents (join_hashes gh) hs))"
  by pat_completeness auto
termination
  by (relation "measure (\<lambda>(gh, hs). length hs)") (auto simp: length_parents)

declare merkle_inputs.simps [simp del]

lemma merkle_inputs_single: "length hs \<le> 1 \<Longrightarrow> merkle_inputs gh hs = []"
  by (simp add: merkle_inputs.simps [of gh hs])

lemma parents_pair_strings: "parents (join_hashes gh) hs = map (Hash_string gh) (pair_strings hs)"
  by (induction hs rule: pair_strings.induct) (simp_all add: join_hashes_def)

lemma pair_strings_inject:
  "length hs = length ks \<Longrightarrow> list_all filled hs \<Longrightarrow> list_all filled ks \<Longrightarrow>
     pair_strings hs = pair_strings ks \<Longrightarrow> hs = ks"
proof (induction hs arbitrary: ks rule: pair_strings.induct)
  case (2 a)
  then obtain c where "ks = [c]" by (cases ks) auto
  with 2 show ?case by (auto simp: getString_inject length_getString intro: filled_eqI)
next
  case (3 a b hs)
  then obtain c d ls where ks: "ks = c # d # ls" by (metis length_Suc_conv list.size(4) add.commute plus_1_eq_Suc)
  with 3 have s: "getString a @ getString b = getString c @ getString d" by simp
  have "length (getString a) = length (getString c)" using 3 ks by (simp add: length_getString)
  with s have "getString a = getString c" "getString b = getString d" by simp_all
  with 3 ks have "a = c" "b = d" by (auto simp: getString_inject intro: filled_eqI)
  with 3 ks show ?case by simp
qed simp

lemma list_all_filled_parents:
  "\<forall>s. length (gh s) = 64 \<Longrightarrow> list_all filled (parents (join_hashes gh) hs)"
  by (simp add: parents_pair_strings list_all_iff Hash_string_ok)

lemma merkle_root_parents:
  "1 < length hs \<Longrightarrow> merkle_root f hs = merkle_root f (parents f hs)"
proof -
  assume "1 < length hs"
  moreover have "merkle_levels f (parents f hs) \<noteq> []" by (subst merkle_levels_Cons) simp
  ultimately show ?thesis by (simp add: merkle_root_def merkle_levels_more)
qed

lemma map_Hash_string_inject:
  assumes "\<forall>s. length (gh s) = 64" "inj_on gh (set xs \<union> set ys)"
    "map (Hash_string gh) xs = map (Hash_string gh) ys"
  shows "xs = ys"
proof -
  have "map digest (map (Hash_string gh) zs) = map gh zs" for zs
    using assms(1) by (simp add: Hash_string_ok)
  then have "map gh xs = map gh ys" using assms(3) by metis
  then show ?thesis using assms(2) by (rule map_inj_on)
qed

lemma merkle_root_inject:
  "length hs = length ks \<Longrightarrow> hs \<noteq> [] \<Longrightarrow> list_all filled hs \<Longrightarrow> list_all filled ks \<Longrightarrow>
     inj_on gh (set (merkle_inputs gh hs) \<union> set (merkle_inputs gh ks)) \<Longrightarrow>
     merkle_root (join_hashes gh) hs = merkle_root (join_hashes gh) ks \<Longrightarrow>
     \<forall>s. length (gh s) = 64 \<Longrightarrow> hs = ks"
proof (induction gh hs arbitrary: ks rule: merkle_inputs.induct)
  case (1 gh hs)
  show ?case
  proof (cases "length hs \<le> 1")
    case True
    with 1(2,3) obtain a b where "hs = [a]" "ks = [b]"
      by (cases hs; cases ks) auto
    with 1(7) show ?thesis by (simp add: merkle_root_def merkle_levels_single)
  next
    case False
    let ?p = "parents (join_hashes gh)"
    have in_h: "set (merkle_inputs gh hs) = set (pair_strings hs) \<union> set (merkle_inputs gh (?p hs))"
      using False by (simp add: merkle_inputs.simps [of gh hs])
    have in_k: "set (merkle_inputs gh ks) = set (pair_strings ks) \<union> set (merkle_inputs gh (?p ks))"
      using False 1(2) by (simp add: merkle_inputs.simps [of gh ks])
    have "?p hs \<noteq> []" using False by (cases hs rule: pair_strings.cases) auto
    moreover have "inj_on gh (set (merkle_inputs gh (?p hs)) \<union> set (merkle_inputs gh (?p ks)))"
      using 1(6) by (rule inj_on_subset) (auto simp: in_h in_k)
    moreover have "merkle_root (join_hashes gh) (?p hs) = merkle_root (join_hashes gh) (?p ks)"
      using 1(2,7) False by (simp add: merkle_root_parents)
    ultimately have "?p hs = ?p ks"
      using 1(1) [OF False, of "?p ks"] 1(2,8) list_all_filled_parents by (simp add: length_parents)
    moreover have "inj_on gh (set (pair_strings hs) \<union> set (pair_strings ks))"
      using 1(6) by (rule inj_on_subset) (auto simp: in_h in_k)
    ultimately have "pair_strings hs = pair_strings ks"
      using map_Hash_string_inject 1(8) by (simp add: parents_pair_strings)
    with 1 show ?thesis by (intro pair_strings_inject)
  qed
qed


subsection \<open>The leaves a comparison works on\<close>

lemma unique_leaves_tree:
  assumes "tree_of gh ps t" "good_leaves ps"
  shows "\<exists>us. unique_leaves t = Inr us \<and> set us \<subseteq> set ps \<and>
     map key us = unique_by (=) (sort_by digest_less (map key ps))"
proof -
  note t = tree_of_facts [OF assms]
  let ?l = "sort_by key_less (sort_by key_less ps)"
  have f: "all_filled ps" using assms(2) by (simp add: good_leaves_def)
  have f': "all_filled (sort_by key_less ps)" "all_filled ?l" using f by (auto intro: all_filled_subset)
  have "length ps \<le> length (ht_hashes t)" using t(3) by (metis length_sort_by length_take min.absorb_iff2)
  moreover have "std_sort hashSharedPointerLessThanFunctor (sort_by key_less ps) = Inr ?l"
    by (intro std_sort_total total_on_functors f')
  moreover have "unique_copy hashSharedPointerEqualsFunctor ?l = Inr (unique_by (\<lambda>a b. key a = key b) ?l)"
    by (intro unique_copy_total total_on_functors f')
  moreover have "frontE (ht_elements_per_level t) = Inr (length ps)"
    using t(5,6) by (cases "ht_elements_per_level t") (simp_all add: frontE_def)
  ultimately have u: "unique_leaves t = Inr (unique_by (\<lambda>a b. key a = key b) ?l)"
    by (simp add: unique_leaves_def t(3))
  have "map key ?l = sort_by digest_less (map key ps)"
    using valid_keys [OF f] unfolding map_key_sort by (intro dig.sort_by_cong) simp_all
  then show ?thesis
    using u set_unique_by [of "\<lambda>a b. key a = key b" ?l] by (auto simp: map_unique_by)
qed

section \<open>Properties\<close>

text \<open>C11. From a non-empty vector of initialised hashes behind distinct pointers: with at most
  $2^{29}$ leaves \<open>makeHashTree\<close> returns (it neither throws nor indexes out of range nor
  overflows an \<^verbatim>\<open>int\<close>), and the vector it builds is the Merkle tree of the sorted leaves,
  level after level up to the root, with the sizes of the levels recorded; the top hash is the
  Merkle root. With more leaves the computation of the tree size overflows. (The comment in the
  source puts the limit at 65535 files.)\<close>

theorem makeHashTree_merkle:
  assumes "all_filled ps" "distinct (map fst ps)" "ps \<noteq> []"
  shows "if length ps \<le> 2 ^ 29
    then \<exists>t nxt'. makeHashTree gh nxt ps = Inr (t, nxt') \<and>
     (let leaves = map snd (sort_by key_less ps); levels = merkle_levels (join_hashes gh) leaves in
       map snd (ht_hashes t) = concat levels \<and> ht_elements_per_level t = map length levels \<and>
       getTopHash t = merkle_root (join_hashes gh) leaves)
    else makeHashTree gh nxt ps = Inl Undefined_behaviour"
proof (cases "length ps \<le> 2 ^ 29")
  case True
  have g: "good_leaves ps" using assms by (simp add: good_leaves_def)
  from makeHashTree_filled [OF assms True, of gh nxt] obtain t n where
    m: "makeHashTree gh nxt ps = Inr (t, n)" by blast
  then have "tree_of gh ps t" by (auto simp: tree_of_def)
  from tree_of_facts [OF this g] m True show ?thesis by (simp add: Let_def)
next
  case False
  then show ?thesis using makeHashTree_too_large [OF assms] by simp
qed

text \<open>A stand-in for the library's hash function, for concrete inputs: the first 64 bytes of the
  reversed text, padded.\<close>

definition sample_hash :: "string \<Rightarrow> string" where
  "sample_hash s = take 64 (rev s @ replicate 64 CHR ''x'')"

lemma length_sample_hash: "length (sample_hash s) = 64"
  by (simp add: sample_hash_def)

definition sample_leaf :: "nat \<Rightarrow> char \<Rightarrow> sptr" where
  "sample_leaf n c = (n, Hash_bytes (replicate 64 c))"

lemma good_sample_leaves: "good_leaves [sample_leaf 1 a, sample_leaf 2 b]"
  by (simp add: good_leaves_def all_filled_def sample_leaf_def Hash_bytes_ok)

lemma tree_of_exists: "good_leaves ps \<Longrightarrow> length ps \<le> 2 ^ 29 \<Longrightarrow> \<exists>t. tree_of gh ps t"
  using makeHashTree_filled [of ps gh 0] by (auto simp: good_leaves_def tree_of_def)

theorem makeHashTree_merkle_witness:
  "\<exists>t n. makeHashTree sample_hash 3 [sample_leaf 1 CHR ''b'', sample_leaf 2 CHR ''a''] = Inr (t, n)"
proof -
  let ?p = "[sample_leaf 1 CHR ''b'', sample_leaf 2 CHR ''a'']"
  have "all_filled ?p" "distinct (map fst ?p)" "?p \<noteq> []"
    using good_sample_leaves unfolding good_leaves_def by blast+
  moreover have "length ?p \<le> 2 ^ 29" by simp
  ultimately show ?thesis using makeHashTree_merkle [of ?p sample_hash 3] by (metis (no_types, lifting))
qed

text \<open>C12. The top hash does not depend on the order in which the leaves are given: trees built from
  the same multiset of digests compare equal.\<close>

theorem hash_tree_order_independent:
  assumes "good_leaves ps" "good_leaves qs" "tree_of gh ps t" "tree_of gh qs u"
    "mset (map key ps) = mset (map key qs)"
  shows "getTopHash t = getTopHash u \<and> hash_tree_equal t u \<and> checkHashTreeChange t u = Inr False"
proof -
  have "getTopHash t = getTopHash u"
    using sorted_leaves_by_mset [OF _ _ assms(5)] assms(1,2)
      tree_of_facts(4) [OF assms(3,1)] tree_of_facts(4) [OF assms(4,2)] by (simp add: good_leaves_def)
  moreover have "snd (last (ht_hashes t)) = getTopHash t"
    using tree_of_facts(7) [OF assms(3,1)] by (simp add: getTopHash_def)
  ultimately show ?thesis
    using tree_of_facts(7) [OF assms(3,1)]
    by (simp add: hash_tree_equal_def checkHashTreeChange_free_def checkHashTreeChange_def)
qed

theorem hash_tree_order_independent_witness:
  "\<exists>t u. tree_of sample_hash [sample_leaf 1 CHR ''a'', sample_leaf 2 CHR ''b''] t \<and>
     tree_of sample_hash [sample_leaf 1 CHR ''b'', sample_leaf 2 CHR ''a''] u \<and> hash_tree_equal t u"
proof -
  let ?p = "[sample_leaf 1 CHR ''a'', sample_leaf 2 CHR ''b'']"
  let ?q = "[sample_leaf 1 CHR ''b'', sample_leaf 2 CHR ''a'']"
  obtain t u where "tree_of sample_hash ?p t" "tree_of sample_hash ?q u"
    using tree_of_exists [OF good_sample_leaves [of "CHR ''a''" "CHR ''b''"], of sample_hash]
      tree_of_exists [OF good_sample_leaves [of "CHR ''b''" "CHR ''a''"], of sample_hash] by auto
  moreover have "mset (map key ?p) = mset (map key ?q)"
    by (simp add: sample_leaf_def key_def)
  ultimately show ?thesis
    using hash_tree_order_independent [OF good_sample_leaves good_sample_leaves] by blast
qed

text \<open>C13. When the top hashes of two trees differ, \<open>getChangedHashes\<close> returns exactly the leaf
  digests that occur in one tree and not in the other, in increasing order and each once.\<close>

theorem getChangedHashes_symmetric_difference:
  assumes "good_leaves ps" "good_leaves qs" "tree_of gh ps t" "tree_of gh qs u"
    "getString (getTopHash t) \<noteq> getString (getTopHash u)"
  shows "\<exists>diff. getChangedHashes t u old = Inr (True, diff) \<and>
     set (map key diff) = (set (map key qs) - set (map key ps)) \<union> (set (map key ps) - set (map key qs)) \<and>
     sorted_wrt digest_less (map key diff)"
proof -
  obtain l where l: "unique_leaves u = Inr l" "set l \<subseteq> set qs"
    "map key l = unique_by (=) (sort_by digest_less (map key qs))"
    using unique_leaves_tree [OF assms(4,2)] by blast
  obtain r where r: "unique_leaves t = Inr r" "set r \<subseteq> set ps"
    "map key r = unique_by (=) (sort_by digest_less (map key ps))"
    using unique_leaves_tree [OF assms(3,1)] by blast
  have f: "all_filled ps" "all_filled qs" using assms(1,2) by (simp_all add: good_leaves_def)
  then have "all_filled (l @ r)" using l(2) r(2) by (auto simp: all_filled_def list_all_iff)
  then have d: "set_symmetric_difference hashSharedPointerLessThanFunctor l r = Inr (symdiff_by key_less l r)"
    using total_on_functors(1) [of "l @ r"] by (intro symdiff_total) simp
  have k: "map key (symdiff_by key_less l r) = symdiff_by digest_less (map key l) (map key r)"
    unfolding key_less_def by (rule map_symdiff_by)
  have "checkHashTreeChange t u = Inr True"
    using assms(5) tree_of_facts(7) [OF assms(3,1)] by (auto simp: checkHashTreeChange_def getTopHash_def)
  then have "getChangedHashes t u old = Inr (True, symdiff_by key_less l r)"
    by (simp add: getChangedHashes_def l r d)
  moreover have "\<forall>x \<in> set (map key qs) \<union> set (map key ps). is_digest x"
    using valid_keys f by blast
  note dig.symdiff_leaves [OF this]
  ultimately show ?thesis using k l(3) r(3) by metis
qed

theorem getChangedHashes_symmetric_difference_witness:
  "\<exists>t u diff. tree_of sample_hash [sample_leaf 1 CHR ''a''] t \<and> tree_of sample_hash [sample_leaf 2 CHR ''b''] u \<and>
     getChangedHashes t u [] = Inr (True, diff) \<and>
     set (map key diff) = {replicate 64 CHR ''a'', replicate 64 CHR ''b''}"
proof -
  let ?p = "[sample_leaf 1 CHR ''a'']" and ?q = "[sample_leaf 2 CHR ''b'']"
  have g: "good_leaves ?p" "good_leaves ?q"
    by (simp_all add: good_leaves_def all_filled_def sample_leaf_def Hash_bytes_ok)
  obtain t u where tu: "tree_of sample_hash ?p t" "tree_of sample_hash ?q u"
    using tree_of_exists [OF g(1), of sample_hash] tree_of_exists [OF g(2), of sample_hash] by auto
  have "getTopHash t = snd (hd ?p)" "getTopHash u = snd (hd ?q)"
    using tree_of_facts(4) [OF tu(1) g(1)] tree_of_facts(4) [OF tu(2) g(2)]
    by (simp_all add: merkle_root_def merkle_levels_single sort_by_def)
  then have "getString (getTopHash t) \<noteq> getString (getTopHash u)"
    by (simp add: sample_leaf_def getString_inject Hash_bytes_ok replicate_eq_replicate)
  from getChangedHashes_symmetric_difference [OF g tu this, of "[]"] tu show ?thesis
    by (auto simp: sample_leaf_def key_def Hash_bytes_ok replicate_eq_replicate)
qed

text \<open>C14. A change of the leaves is noticed: unless the hash function collides on the strings the two
  trees hash, trees with the same number of leaves and the same top hash have the same leaves.\<close>

theorem hash_tree_change_detected:
  assumes "good_leaves ps" "good_leaves qs" "tree_of gh ps t" "tree_of gh qs u"
    and "length ps = length qs" "\<forall>s. length (gh s) = 64"
    and "inj_on gh (set (merkle_inputs gh (map snd (sort_by key_less ps))) \<union>
                    set (merkle_inputs gh (map snd (sort_by key_less qs))))"
    and "getTopHash t = getTopHash u"
  shows "mset (map key ps) = mset (map key qs)"
proof -
  let ?h = "map snd (sort_by key_less ps)" and ?k = "map snd (sort_by key_less qs)"
  have f: "list_all filled ?h" "list_all filled ?k"
    using assms(1,2) by (auto simp: good_leaves_def all_filled_def list_all_iff)
  have n: "?h \<noteq> []" using assms(1) by (metis good_leaves_def length_0_conv length_map length_sort_by)
  have "merkle_root (join_hashes gh) ?h = merkle_root (join_hashes gh) ?k"
    using assms(8) tree_of_facts(4) [OF assms(3,1)] tree_of_facts(4) [OF assms(4,2)] by simp
  then have "?h = ?k"
    using assms(5) by (intro merkle_root_inject [OF _ n f assms(7) _ assms(6)]) simp_all
  then have "map digest ?h = map digest ?k" by simp
  then have "map key (sort_by key_less ps) = map key (sort_by key_less qs)"
    by (simp add: key_fun comp_def)
  then show ?thesis by (metis mset_map mset_sort_by)
qed


lemma length_two: "length xs = 2 \<Longrightarrow> \<exists>a b. xs = [a, b]"
  by (auto simp: numeral_2_eq_2 length_Suc_conv)

theorem hash_tree_change_detected_witness:
  "\<exists>t u. tree_of sample_hash [sample_leaf 1 CHR ''a'', sample_leaf 2 CHR ''b''] t \<and>
     tree_of sample_hash [sample_leaf 1 CHR ''b'', sample_leaf 2 CHR ''a''] u \<and>
     getTopHash t = getTopHash u \<and>
     mset (map key [sample_leaf 1 CHR ''a'', sample_leaf 2 CHR ''b'']) =
     mset (map key [sample_leaf 1 CHR ''b'', sample_leaf 2 CHR ''a''])"
proof -
  let ?p = "[sample_leaf 1 CHR ''a'', sample_leaf 2 CHR ''b'']"
  let ?q = "[sample_leaf 1 CHR ''b'', sample_leaf 2 CHR ''a'']"
  note g = good_sample_leaves [of "CHR ''a''" "CHR ''b''"] good_sample_leaves [of "CHR ''b''" "CHR ''a''"]
  obtain t u where tu: "tree_of sample_hash ?p t" "tree_of sample_hash ?q u"
    using tree_of_exists [OF g(1), of sample_hash] tree_of_exists [OF g(2), of sample_hash] by auto
  have s: "map snd (sort_by key_less ?p) = map snd (sort_by key_less ?q)"
    using g by (intro sorted_leaves_by_mset) (simp_all add: good_leaves_def sample_leaf_def key_def)
  obtain a b where ab: "map snd (sort_by key_less ?q) = [a, b]"
    using length_two [of "map snd (sort_by key_less ?q)"] by auto
  have "set (merkle_inputs sample_hash [a, b]) = {getString a @ getString b}"
    by (simp add: merkle_inputs.simps [of sample_hash "[a, b]"] merkle_inputs_single)
  then have i: "inj_on sample_hash (set (merkle_inputs sample_hash (map snd (sort_by key_less ?p))) \<union>
      set (merkle_inputs sample_hash (map snd (sort_by key_less ?q))))"
    unfolding s ab by simp
  have top: "getTopHash t = getTopHash u"
    using s tree_of_facts(4) [OF tu(1) g(1)] tree_of_facts(4) [OF tu(2) g(2)] by simp
  have "mset (map key ?p) = mset (map key ?q)"
    by (rule hash_tree_change_detected [OF g tu _ _ i top]) (simp_all add: length_sample_hash)
  with tu top show ?thesis by blast
qed

end
