(* ===== verification/Flock_FSM.thy ===== *)
theory Flock_FSM
  imports Prelude
begin

text \<open>
  The Flock state machine of \<^verbatim>\<open>src/include/flock_fsm.h\<close>. The enumerations
  \<^verbatim>\<open>state_t\<close>, \<^verbatim>\<open>status_t\<close>, \<^verbatim>\<open>event_t\<close> and \<^verbatim>\<open>action_t\<close> are datatypes
  with the enumerators as constructors. The four table functions of the header
  (\<^verbatim>\<open>check_event\<close>, \<^verbatim>\<open>get_action\<close>, \<^verbatim>\<open>get_heartbeat_status\<close>,
  \<^verbatim>\<open>get_new_state\<close>) are chains of comparisons nested two deep: an outer chain on the
  state and, for each state, an inner chain on the pair of event and status. Every inner
  chain is a definition of its own here (named after the function and the state), in the
  order of the source, and the outer chain composes them. The theory holds definitions and
  their evaluation rules only; what they satisfy is in \<open>Flock_FSM_Laws\<close>.
\<close>

section \<open>State machine constants\<close>

datatype state_t =
    NULL_state
  | ready_state
  | announcing_new_file_state
  | announcing_new_file_with_more_state
  | announcing_file_metadata_change_state
  | announcing_file_metadata_change_with_more_state
  | sending_new_file_metadata_state
  | sending_new_file_metadata_with_more_state
  | sending_file_metadata_change_state
  | sending_file_metadata_change_with_more_state
  | sending_new_file_state
  | sending_new_file_with_more_alpha_state
  | sending_new_file_with_more_beta_state
  | acknowledging_new_file_state
  | acknowledging_new_file_with_more_state
  | acknowledging_file_metadata_change_state
  | acknowledging_file_metadata_change_with_more_state
  | promoting_new_file_metadata_state
  | promoting_new_file_metadata_with_more_state
  | receiving_file_metadata_change_state
  | receiving_file_metadata_change_with_more_state
  | sending_fake_file_state
  | sending_fake_file_with_more_alpha_state
  | sending_fake_file_with_more_beta_state
  | broadcasting_all_received_state
  | broadcasting_all_received_with_more_alpha_state
  | broadcasting_all_received_with_more_beta_state
  | broadcasting_all_metadata_received_state
  | syncing_stop_state
  | exit_state

text \<open>
  A C enumeration variable may hold an integer that is no enumerator: the router casts the
  integer it parsed from a message (\<^verbatim>\<open>(fsm::status_t)msg_signal\<close>). Such a value is
  \<open>Other_status\<close>; every chain below treats it as its last \<open>else\<close> does.
\<close>

datatype status_t =
    NULL_status
  | status_100
  | status_110
  | status_111
  | status_112
  | status_113
  | status_114
  | status_115
  | status_116
  | status_117
  | status_120
  | status_121
  | status_122
  | status_124
  | status_125
  | status_126
  | status_130
  | status_131
  | status_132
  | status_134
  | status_135
  | status_136
  | status_140
  | status_141
  | status_142
  | status_145
  | status_146
  | status_147
  | status_150
  | status_155
  | status_156
  | status_160
  | status_161
  | status_162
  | status_164
  | status_165
  | status_166
  | status_170
  | status_171
  | status_172
  | status_173
  | status_174
  | status_175
  | status_177
  | status_178
  | status_200
  | status_210
  | status_300
  | status_301
  | status_304
  | status_320
  | status_324
  | status_410
  | status_500
  | Other_status int

datatype event_t =
    NULL_event
  | new_local_file_event
  | new_local_file_with_more_event
  | local_file_metadata_change_event
  | local_file_metadata_change_with_more_event
  | received_heartbeat_event
  | all_nodes_replied_event
  | new_local_file_reported_twice_event
  | timing_offset_elapsed_event
  | all_nodes_have_file_event
  | all_nodes_have_all_files_event
  | all_nodes_have_all_metadata_changes_with_more_event
  | file_send_tick_event
  | received_fake_file_data_event
  | node_only_sends_heartbeats_event
  | all_nodes_have_file_with_more_event
  | all_metadata_received_event
  | received_file_data_event
  | all_data_received_event
  | interrupt_event

datatype action_t =
    NULL_action
  | send_heartbeat_action
  | add_new_file_to_queue_action
  | send_file_data_action
  | ignore_action
  | store_file_data_action
  | send_fake_file_data_action
  | exit_action

text \<open>The integer behind a status, as \<open>operator<<\<close> prints it, and the cast back.\<close>

fun status_code :: "status_t \<Rightarrow> int" where
  "status_code NULL_status = 0"
| "status_code status_100 = 100"
| "status_code status_110 = 110"
| "status_code status_111 = 111"
| "status_code status_112 = 112"
| "status_code status_113 = 113"
| "status_code status_114 = 114"
| "status_code status_115 = 115"
| "status_code status_116 = 116"
| "status_code status_117 = 117"
| "status_code status_120 = 120"
| "status_code status_121 = 121"
| "status_code status_122 = 122"
| "status_code status_124 = 124"
| "status_code status_125 = 125"
| "status_code status_126 = 126"
| "status_code status_130 = 130"
| "status_code status_131 = 131"
| "status_code status_132 = 132"
| "status_code status_134 = 134"
| "status_code status_135 = 135"
| "status_code status_136 = 136"
| "status_code status_140 = 140"
| "status_code status_141 = 141"
| "status_code status_142 = 142"
| "status_code status_145 = 145"
| "status_code status_146 = 146"
| "status_code status_147 = 147"
| "status_code status_150 = 150"
| "status_code status_155 = 155"
| "status_code status_156 = 156"
| "status_code status_160 = 160"
| "status_code status_161 = 161"
| "status_code status_162 = 162"
| "status_code status_164 = 164"
| "status_code status_165 = 165"
| "status_code status_166 = 166"
| "status_code status_170 = 170"
| "status_code status_171 = 171"
| "status_code status_172 = 172"
| "status_code status_173 = 173"
| "status_code status_174 = 174"
| "status_code status_175 = 175"
| "status_code status_177 = 177"
| "status_code status_178 = 178"
| "status_code status_200 = 200"
| "status_code status_210 = 210"
| "status_code status_300 = 300"
| "status_code status_301 = 301"
| "status_code status_304 = 304"
| "status_code status_320 = 320"
| "status_code status_324 = 324"
| "status_code status_410 = 410"
| "status_code status_500 = 500"
| "status_code (Other_status n) = n"

definition status_of_int :: "int \<Rightarrow> status_t" where
  "status_of_int n =
    (if n = 0 then NULL_status
     else if n = 100 then status_100
     else if n = 110 then status_110
     else if n = 111 then status_111
     else if n = 112 then status_112
     else if n = 113 then status_113
     else if n = 114 then status_114
     else if n = 115 then status_115
     else if n = 116 then status_116
     else if n = 117 then status_117
     else if n = 120 then status_120
     else if n = 121 then status_121
     else if n = 122 then status_122
     else if n = 124 then status_124
     else if n = 125 then status_125
     else if n = 126 then status_126
     else if n = 130 then status_130
     else if n = 131 then status_131
     else if n = 132 then status_132
     else if n = 134 then status_134
     else if n = 135 then status_135
     else if n = 136 then status_136
     else if n = 140 then status_140
     else if n = 141 then status_141
     else if n = 142 then status_142
     else if n = 145 then status_145
     else if n = 146 then status_146
     else if n = 147 then status_147
     else if n = 150 then status_150
     else if n = 155 then status_155
     else if n = 156 then status_156
     else if n = 160 then status_160
     else if n = 161 then status_161
     else if n = 162 then status_162
     else if n = 164 then status_164
     else if n = 165 then status_165
     else if n = 166 then status_166
     else if n = 170 then status_170
     else if n = 171 then status_171
     else if n = 172 then status_172
     else if n = 173 then status_173
     else if n = 174 then status_174
     else if n = 175 then status_175
     else if n = 177 then status_177
     else if n = 178 then status_178
     else if n = 200 then status_200
     else if n = 210 then status_210
     else if n = 300 then status_300
     else if n = 301 then status_301
     else if n = 304 then status_304
     else if n = 320 then status_320
     else if n = 324 then status_324
     else if n = 410 then status_410
     else if n = 500 then status_500
     else Other_status n)"

section \<open>State machine functions\<close>

definition get_event_by_status_code :: "status_t \<Rightarrow> event_t" where
  "get_event_by_status_code status =
    (if status = status_100 then received_heartbeat_event
     else if status = status_110 then received_heartbeat_event
     else if status = status_111 then received_heartbeat_event
     else if status = status_112 then file_send_tick_event
     else if status = status_113 then all_data_received_event
     else if status = status_114 then received_heartbeat_event
     else if status = status_115 then received_heartbeat_event
     else if status = status_116 then received_heartbeat_event
     else if status = status_117 then received_heartbeat_event
     else if status = status_120 then received_heartbeat_event
     else if status = status_121 then received_heartbeat_event
     else if status = status_122 then all_nodes_replied_event
     else if status = status_124 then received_heartbeat_event
     else if status = status_125 then received_heartbeat_event
     else if status = status_126 then all_nodes_replied_event
     else if status = status_130 then received_heartbeat_event
     else if status = status_131 then received_heartbeat_event
     else if status = status_132 then timing_offset_elapsed_event
     else if status = status_134 then received_heartbeat_event
     else if status = status_135 then received_heartbeat_event
     else if status = status_136 then timing_offset_elapsed_event
     else if status = status_140 then received_heartbeat_event
     else if status = status_141 then received_heartbeat_event
     else if status = status_142 then all_nodes_have_file_event
     else if status = status_145 then received_heartbeat_event
     else if status = status_146 then all_nodes_have_file_with_more_event
     else if status = status_147 then received_heartbeat_event
     else if status = status_150 then received_heartbeat_event
     else if status = status_155 then received_heartbeat_event
     else if status = status_156 then timing_offset_elapsed_event
     else if status = status_160 then received_heartbeat_event
     else if status = status_161 then received_heartbeat_event
     else if status = status_162 then all_nodes_replied_event
     else if status = status_164 then received_heartbeat_event
     else if status = status_165 then received_heartbeat_event
     else if status = status_166 then all_nodes_replied_event
     else if status = status_170 then received_heartbeat_event
     else if status = status_171 then received_heartbeat_event
     else if status = status_172 then all_nodes_have_file_event
     else if status = status_173 then all_metadata_received_event
     else if status = status_174 then received_heartbeat_event
     else if status = status_175 then received_heartbeat_event
     else if status = status_177 then all_nodes_have_all_metadata_changes_with_more_event
     else if status = status_178 then all_nodes_have_all_metadata_changes_with_more_event
     else if status = status_200 then received_file_data_event
     else if status = status_210 then received_fake_file_data_event
     else if status = status_300 then new_local_file_event
     else if status = status_301 then new_local_file_reported_twice_event
     else if status = status_304 then new_local_file_with_more_event
     else if status = status_320 then local_file_metadata_change_event
     else if status = status_324 then local_file_metadata_change_with_more_event
     else if status = status_410 then received_heartbeat_event
     else if status = status_500 then interrupt_event
     else NULL_event)"

subsection \<open>\<open>check_event\<close>, one block per state\<close>

definition check_event_ready :: "event_t \<Rightarrow> status_t \<Rightarrow> bool" where
  "check_event_ready event status =
    (if event = new_local_file_event \<and> status = status_300 then True
     else if event = new_local_file_with_more_event \<and> status = status_304 then True
     else if event = local_file_metadata_change_event \<and> status = status_320 then True
     else if event = local_file_metadata_change_with_more_event \<and> status = status_324 then True
     else if event = received_heartbeat_event \<and> status = status_100 then True
     else if event = received_heartbeat_event \<and> status = status_120 then True
     else if event = received_heartbeat_event \<and> status = status_124 then True
     else if event = received_heartbeat_event \<and> status = status_160 then True
     else if event = received_heartbeat_event \<and> status = status_164 then True
     else if event = received_heartbeat_event \<and> status = status_150 then True
     else if event = interrupt_event \<and> status = status_500 then True
     else False)"

definition check_event_announcing_new_file :: "event_t \<Rightarrow> status_t \<Rightarrow> bool" where
  "check_event_announcing_new_file event status =
    (if event = received_heartbeat_event \<and> status = status_121 then True
     else if event = all_nodes_replied_event \<and> status = status_122 then True
     else if event = new_local_file_event \<and> status = status_300 then True
     else if event = new_local_file_reported_twice_event \<and> status = status_301 then True
     else if event = new_local_file_with_more_event \<and> status = status_304 then True
     else if event = local_file_metadata_change_event \<and> status = status_320 then True
     else if event = local_file_metadata_change_with_more_event \<and> status = status_324 then True
     else if event = interrupt_event \<and> status = status_500 then True
     else False)"

definition check_event_announcing_new_file_with_more :: "event_t \<Rightarrow> status_t \<Rightarrow> bool" where
  "check_event_announcing_new_file_with_more event status =
    (if event = received_heartbeat_event \<and> status = status_125 then True
     else if event = all_nodes_replied_event \<and> status = status_126 then True
     else if event = new_local_file_event \<and> status = status_300 then True
     else if event = new_local_file_with_more_event \<and> status = status_304 then True
     else if event = local_file_metadata_change_event \<and> status = status_320 then True
     else if event = local_file_metadata_change_with_more_event \<and> status = status_324 then True
     else if event = interrupt_event \<and> status = status_500 then True
     else False)"

definition check_event_announcing_file_metadata_change :: "event_t \<Rightarrow> status_t \<Rightarrow> bool" where
  "check_event_announcing_file_metadata_change event status =
    (if event = received_heartbeat_event \<and> status = status_161 then True
     else if event = all_nodes_replied_event \<and> status = status_162 then True
     else if event = new_local_file_event \<and> status = status_300 then True
     else if event = new_local_file_with_more_event \<and> status = status_304 then True
     else if event = local_file_metadata_change_event \<and> status = status_320 then True
     else if event = local_file_metadata_change_with_more_event \<and> status = status_324 then True
     else if event = interrupt_event \<and> status = status_500 then True
     else False)"

definition check_event_announcing_file_metadata_change_with_more :: "event_t \<Rightarrow> status_t \<Rightarrow> bool" where
  "check_event_announcing_file_metadata_change_with_more event status =
    (if event = received_heartbeat_event \<and> status = status_165 then True
     else if event = all_nodes_replied_event \<and> status = status_166 then True
     else if event = new_local_file_event \<and> status = status_300 then True
     else if event = new_local_file_with_more_event \<and> status = status_304 then True
     else if event = local_file_metadata_change_event \<and> status = status_320 then True
     else if event = local_file_metadata_change_with_more_event \<and> status = status_324 then True
     else if event = interrupt_event \<and> status = status_500 then True
     else False)"

definition check_event_sending_new_file_metadata :: "event_t \<Rightarrow> status_t \<Rightarrow> bool" where
  "check_event_sending_new_file_metadata event status =
    (if event = received_heartbeat_event \<and> status = status_131 then True
     else if event = timing_offset_elapsed_event \<and> status = status_132 then True
     else if event = new_local_file_event \<and> status = status_300 then True
     else if event = new_local_file_with_more_event \<and> status = status_304 then True
     else if event = local_file_metadata_change_event \<and> status = status_320 then True
     else if event = local_file_metadata_change_with_more_event \<and> status = status_324 then True
     else if event = interrupt_event \<and> status = status_500 then True
     else False)"

definition check_event_sending_new_file_metadata_with_more :: "event_t \<Rightarrow> status_t \<Rightarrow> bool" where
  "check_event_sending_new_file_metadata_with_more event status =
    (if event = received_heartbeat_event \<and> status = status_135 then True
     else if event = timing_offset_elapsed_event \<and> status = status_132 then True
     else if event = new_local_file_event \<and> status = status_300 then True
     else if event = new_local_file_with_more_event \<and> status = status_304 then True
     else if event = local_file_metadata_change_event \<and> status = status_320 then True
     else if event = local_file_metadata_change_with_more_event \<and> status = status_324 then True
     else if event = interrupt_event \<and> status = status_500 then True
     else False)"

definition check_event_sending_file_metadata_change :: "event_t \<Rightarrow> status_t \<Rightarrow> bool" where
  "check_event_sending_file_metadata_change event status =
    (if event = received_heartbeat_event \<and> status = status_171 then True
     else if event = received_heartbeat_event \<and> status = status_141 then True
     else if event = all_nodes_have_file_event \<and> status = status_172 then True
     else if event = new_local_file_event \<and> status = status_300 then True
     else if event = new_local_file_with_more_event \<and> status = status_304 then True
     else if event = local_file_metadata_change_event \<and> status = status_320 then True
     else if event = local_file_metadata_change_with_more_event \<and> status = status_324 then True
     else if event = interrupt_event \<and> status = status_500 then True
     else False)"

definition check_event_sending_file_metadata_change_with_more :: "event_t \<Rightarrow> status_t \<Rightarrow> bool" where
  "check_event_sending_file_metadata_change_with_more event status =
    (if event = received_heartbeat_event \<and> status = status_175 then True
     else if event = received_heartbeat_event \<and> status = status_141 then True
     else if event = all_nodes_have_all_files_event \<and> status = status_172 then True
     else if event = all_nodes_have_all_metadata_changes_with_more_event \<and> status = status_177 then True
     else if event = all_nodes_have_all_metadata_changes_with_more_event \<and> status = status_178 then True
     else if event = new_local_file_event \<and> status = status_300 then True
     else if event = new_local_file_with_more_event \<and> status = status_304 then True
     else if event = local_file_metadata_change_event \<and> status = status_320 then True
     else if event = local_file_metadata_change_with_more_event \<and> status = status_324 then True
     else if event = interrupt_event \<and> status = status_500 then True
     else False)"

definition check_event_sending_new_file :: "event_t \<Rightarrow> status_t \<Rightarrow> bool" where
  "check_event_sending_new_file event status =
    (if event = file_send_tick_event \<and> status = status_112 then True
     else if event = received_heartbeat_event \<and> status = status_111 then True
     else if event = received_heartbeat_event \<and> status = status_140 then True
     else if event = received_fake_file_data_event \<and> status = status_210 then True
     else if event = all_nodes_have_file_event \<and> status = status_142 then True
     else if event = new_local_file_event \<and> status = status_300 then True
     else if event = new_local_file_with_more_event \<and> status = status_304 then True
     else if event = local_file_metadata_change_event \<and> status = status_320 then True
     else if event = local_file_metadata_change_with_more_event \<and> status = status_324 then True
     else if event = received_heartbeat_event \<and> status = status_410 then True
     else if event = node_only_sends_heartbeats_event \<and> status = status_100 then True
     else if event = interrupt_event \<and> status = status_500 then True
     else False)"

definition check_event_sending_new_file_with_more_alpha :: "event_t \<Rightarrow> status_t \<Rightarrow> bool" where
  "check_event_sending_new_file_with_more_alpha event status =
    (if event = file_send_tick_event \<and> status = status_112 then True
     else if event = received_heartbeat_event \<and> status = status_115 then True
     else if event = received_heartbeat_event \<and> status = status_140 then True
     else if event = received_fake_file_data_event \<and> status = status_210 then True
     else if event = all_nodes_have_file_event \<and> status = status_142 then True
     else if event = all_nodes_have_file_with_more_event \<and> status = status_146 then True
     else if event = new_local_file_event \<and> status = status_300 then True
     else if event = new_local_file_with_more_event \<and> status = status_304 then True
     else if event = local_file_metadata_change_event \<and> status = status_320 then True
     else if event = local_file_metadata_change_with_more_event \<and> status = status_324 then True
     else if event = received_heartbeat_event \<and> status = status_410 then True
     else if event = node_only_sends_heartbeats_event \<and> status = status_100 then True
     else if event = interrupt_event \<and> status = status_500 then True
     else False)"

definition check_event_sending_new_file_with_more_beta :: "event_t \<Rightarrow> status_t \<Rightarrow> bool" where
  "check_event_sending_new_file_with_more_beta event status =
    (if event = file_send_tick_event \<and> status = status_112 then True
     else if event = received_heartbeat_event \<and> status = status_115 then True
     else if event = received_heartbeat_event \<and> status = status_140 then True
     else if event = received_fake_file_data_event \<and> status = status_210 then True
     else if event = all_nodes_have_file_event \<and> status = status_142 then True
     else if event = all_nodes_have_file_with_more_event \<and> status = status_146 then True
     else if event = new_local_file_event \<and> status = status_300 then True
     else if event = new_local_file_with_more_event \<and> status = status_304 then True
     else if event = local_file_metadata_change_event \<and> status = status_320 then True
     else if event = local_file_metadata_change_with_more_event \<and> status = status_324 then True
     else if event = received_heartbeat_event \<and> status = status_410 then True
     else if event = node_only_sends_heartbeats_event \<and> status = status_100 then True
     else if event = interrupt_event \<and> status = status_500 then True
     else False)"

definition check_event_acknowledging_new_file :: "event_t \<Rightarrow> status_t \<Rightarrow> bool" where
  "check_event_acknowledging_new_file event status =
    (if event = received_heartbeat_event \<and> status = status_130 then True
     else if event = received_heartbeat_event \<and> status = status_120 then True
     else if event = received_heartbeat_event \<and> status = status_121 then True
     else if event = received_heartbeat_event \<and> status = status_124 then True
     else if event = new_local_file_event \<and> status = status_300 then True
     else if event = new_local_file_with_more_event \<and> status = status_304 then True
     else if event = local_file_metadata_change_event \<and> status = status_320 then True
     else if event = local_file_metadata_change_with_more_event \<and> status = status_324 then True
     else if event = interrupt_event \<and> status = status_500 then True
     else False)"

definition check_event_acknowledging_new_file_with_more :: "event_t \<Rightarrow> status_t \<Rightarrow> bool" where
  "check_event_acknowledging_new_file_with_more event status =
    (if event = received_heartbeat_event \<and> status = status_134 then True
     else if event = received_heartbeat_event \<and> status = status_124 then True
     else if event = received_heartbeat_event \<and> status = status_125 then True
     else if event = new_local_file_event \<and> status = status_300 then True
     else if event = new_local_file_with_more_event \<and> status = status_304 then True
     else if event = local_file_metadata_change_event \<and> status = status_320 then True
     else if event = local_file_metadata_change_with_more_event \<and> status = status_324 then True
     else if event = interrupt_event \<and> status = status_500 then True
     else False)"

definition check_event_acknowledging_file_metadata_change :: "event_t \<Rightarrow> status_t \<Rightarrow> bool" where
  "check_event_acknowledging_file_metadata_change event status =
    (if event = received_heartbeat_event \<and> status = status_170 then True
     else if event = received_heartbeat_event \<and> status = status_160 then True
     else if event = received_heartbeat_event \<and> status = status_161 then True
     else if event = received_heartbeat_event \<and> status = status_164 then True
     else if event = new_local_file_event \<and> status = status_300 then True
     else if event = new_local_file_with_more_event \<and> status = status_304 then True
     else if event = new_local_file_event \<and> status = status_320 then True
     else if event = new_local_file_with_more_event \<and> status = status_324 then True
     else if event = interrupt_event \<and> status = status_500 then True
     else False)"

definition check_event_acknowledging_file_metadata_change_with_more :: "event_t \<Rightarrow> status_t \<Rightarrow> bool" where
  "check_event_acknowledging_file_metadata_change_with_more event status =
    (if event = received_heartbeat_event \<and> status = status_174 then True
     else if event = received_heartbeat_event \<and> status = status_164 then True
     else if event = received_heartbeat_event \<and> status = status_165 then True
     else if event = new_local_file_event \<and> status = status_300 then True
     else if event = new_local_file_with_more_event \<and> status = status_304 then True
     else if event = new_local_file_event \<and> status = status_320 then True
     else if event = new_local_file_with_more_event \<and> status = status_324 then True
     else if event = interrupt_event \<and> status = status_500 then True
     else False)"

definition check_event_promoting_new_file_metadata :: "event_t \<Rightarrow> status_t \<Rightarrow> bool" where
  "check_event_promoting_new_file_metadata event status =
    (if event = received_heartbeat_event \<and> status = status_130 then True
     else if event = received_heartbeat_event \<and> status = status_131 then True
     else if event = received_heartbeat_event \<and> status = status_134 then True
     else if event = timing_offset_elapsed_event \<and> status = status_132 then True
     else if event = new_local_file_event \<and> status = status_300 then True
     else if event = new_local_file_with_more_event \<and> status = status_304 then True
     else if event = new_local_file_event \<and> status = status_320 then True
     else if event = new_local_file_with_more_event \<and> status = status_324 then True
     else if event = interrupt_event \<and> status = status_500 then True
     else False)"

definition check_event_promoting_new_file_metadata_with_more :: "event_t \<Rightarrow> status_t \<Rightarrow> bool" where
  "check_event_promoting_new_file_metadata_with_more event status =
    (if event = received_heartbeat_event \<and> status = status_134 then True
     else if event = received_heartbeat_event \<and> status = status_135 then True
     else if event = timing_offset_elapsed_event \<and> status = status_136 then True
     else if event = new_local_file_event \<and> status = status_300 then True
     else if event = new_local_file_with_more_event \<and> status = status_304 then True
     else if event = new_local_file_event \<and> status = status_320 then True
     else if event = new_local_file_with_more_event \<and> status = status_324 then True
     else if event = interrupt_event \<and> status = status_500 then True
     else False)"

definition check_event_receiving_file_metadata_change :: "event_t \<Rightarrow> status_t \<Rightarrow> bool" where
  "check_event_receiving_file_metadata_change event status =
    (if event = received_heartbeat_event \<and> status = status_170 then True
     else if event = received_heartbeat_event \<and> status = status_171 then True
     else if event = received_heartbeat_event \<and> status = status_175 then True
     else if event = received_heartbeat_event \<and> status = status_141 then True
     else if event = all_metadata_received_event \<and> status = status_173 then True
     else if event = new_local_file_event \<and> status = status_300 then True
     else if event = new_local_file_with_more_event \<and> status = status_304 then True
     else if event = new_local_file_event \<and> status = status_320 then True
     else if event = new_local_file_with_more_event \<and> status = status_324 then True
     else if event = interrupt_event \<and> status = status_500 then True
     else False)"

definition check_event_receiving_file_metadata_change_with_more :: "event_t \<Rightarrow> status_t \<Rightarrow> bool" where
  "check_event_receiving_file_metadata_change_with_more event status =
    (if event = received_heartbeat_event \<and> status = status_174 then True
     else if event = received_heartbeat_event \<and> status = status_175 then True
     else if event = received_heartbeat_event \<and> status = status_141 then True
     else if event = all_metadata_received_event \<and> status = status_173 then True
     else if event = new_local_file_event \<and> status = status_300 then True
     else if event = new_local_file_with_more_event \<and> status = status_304 then True
     else if event = new_local_file_event \<and> status = status_320 then True
     else if event = new_local_file_with_more_event \<and> status = status_324 then True
     else if event = interrupt_event \<and> status = status_500 then True
     else False)"

definition check_event_sending_fake_file :: "event_t \<Rightarrow> status_t \<Rightarrow> bool" where
  "check_event_sending_fake_file event status =
    (if event = file_send_tick_event \<and> status = status_112 then True
     else if event = received_heartbeat_event \<and> status = status_110 then True
     else if event = received_heartbeat_event \<and> status = status_111 then True
     else if event = received_heartbeat_event \<and> status = status_140 then True
     else if event = received_file_data_event \<and> status = status_200 then True
     else if event = all_data_received_event \<and> status = status_113 then True
     else if event = new_local_file_event \<and> status = status_300 then True
     else if event = new_local_file_with_more_event \<and> status = status_304 then True
     else if event = new_local_file_event \<and> status = status_320 then True
     else if event = new_local_file_with_more_event \<and> status = status_324 then True
     else if event = received_heartbeat_event \<and> status = status_410 then True
     else if event = node_only_sends_heartbeats_event \<and> status = status_100 then True
     else if event = interrupt_event \<and> status = status_500 then True
     else False)"

definition check_event_sending_fake_file_with_more_alpha :: "event_t \<Rightarrow> status_t \<Rightarrow> bool" where
  "check_event_sending_fake_file_with_more_alpha event status =
    (if event = file_send_tick_event \<and> status = status_112 then True
     else if event = received_heartbeat_event \<and> status = status_114 then True
     else if event = received_heartbeat_event \<and> status = status_115 then True
     else if event = received_heartbeat_event \<and> status = status_145 then True
     else if event = received_file_data_event \<and> status = status_200 then True
     else if event = all_data_received_event \<and> status = status_113 then True
     else if event = new_local_file_event \<and> status = status_300 then True
     else if event = new_local_file_with_more_event \<and> status = status_304 then True
     else if event = new_local_file_event \<and> status = status_320 then True
     else if event = new_local_file_with_more_event \<and> status = status_324 then True
     else if event = received_heartbeat_event \<and> status = status_410 then True
     else if event = node_only_sends_heartbeats_event \<and> status = status_100 then True
     else if event = interrupt_event \<and> status = status_500 then True
     else False)"

definition check_event_sending_fake_file_with_more_beta :: "event_t \<Rightarrow> status_t \<Rightarrow> bool" where
  "check_event_sending_fake_file_with_more_beta event status =
    (if event = file_send_tick_event \<and> status = status_112 then True
     else if event = received_heartbeat_event \<and> status = status_114 then True
     else if event = received_heartbeat_event \<and> status = status_117 then True
     else if event = received_heartbeat_event \<and> status = status_145 then True
     else if event = received_file_data_event \<and> status = status_200 then True
     else if event = all_data_received_event \<and> status = status_113 then True
     else if event = new_local_file_event \<and> status = status_300 then True
     else if event = new_local_file_with_more_event \<and> status = status_304 then True
     else if event = new_local_file_event \<and> status = status_320 then True
     else if event = new_local_file_with_more_event \<and> status = status_324 then True
     else if event = received_heartbeat_event \<and> status = status_410 then True
     else if event = node_only_sends_heartbeats_event \<and> status = status_100 then True
     else if event = interrupt_event \<and> status = status_500 then True
     else False)"

definition check_event_broadcasting_all_received :: "event_t \<Rightarrow> status_t \<Rightarrow> bool" where
  "check_event_broadcasting_all_received event status =
    (if event = file_send_tick_event \<and> status = status_112 then True
     else if event = received_heartbeat_event \<and> status = status_110 then True
     else if event = received_heartbeat_event \<and> status = status_111 then True
     else if event = received_heartbeat_event \<and> status = status_140 then True
     else if event = received_heartbeat_event \<and> status = status_155 then True
     else if event = new_local_file_event \<and> status = status_300 then True
     else if event = new_local_file_with_more_event \<and> status = status_304 then True
     else if event = new_local_file_event \<and> status = status_320 then True
     else if event = new_local_file_with_more_event \<and> status = status_324 then True
     else if event = node_only_sends_heartbeats_event \<and> status = status_100 then True
     else if event = interrupt_event \<and> status = status_500 then True
     else False)"

definition check_event_broadcasting_all_received_with_more_alpha :: "event_t \<Rightarrow> status_t \<Rightarrow> bool" where
  "check_event_broadcasting_all_received_with_more_alpha event status =
    (if event = file_send_tick_event \<and> status = status_112 then True
     else if event = received_heartbeat_event \<and> status = status_114 then True
     else if event = received_heartbeat_event \<and> status = status_115 then True
     else if event = received_heartbeat_event \<and> status = status_145 then True
     else if event = received_heartbeat_event \<and> status = status_150 then True
     else if event = received_heartbeat_event \<and> status = status_116 then True
     else if event = new_local_file_event \<and> status = status_300 then True
     else if event = new_local_file_with_more_event \<and> status = status_304 then True
     else if event = new_local_file_event \<and> status = status_320 then True
     else if event = new_local_file_with_more_event \<and> status = status_324 then True
     else if event = node_only_sends_heartbeats_event \<and> status = status_100 then True
     else if event = interrupt_event \<and> status = status_500 then True
     else False)"

definition check_event_broadcasting_all_received_with_more_beta :: "event_t \<Rightarrow> status_t \<Rightarrow> bool" where
  "check_event_broadcasting_all_received_with_more_beta event status =
    (if event = file_send_tick_event \<and> status = status_112 then True
     else if event = received_heartbeat_event \<and> status = status_116 then True
     else if event = received_heartbeat_event \<and> status = status_117 then True
     else if event = received_heartbeat_event \<and> status = status_147 then True
     else if event = received_heartbeat_event \<and> status = status_150 then True
     else if event = received_heartbeat_event \<and> status = status_114 then True
     else if event = new_local_file_event \<and> status = status_300 then True
     else if event = new_local_file_with_more_event \<and> status = status_304 then True
     else if event = new_local_file_event \<and> status = status_320 then True
     else if event = new_local_file_with_more_event \<and> status = status_324 then True
     else if event = node_only_sends_heartbeats_event \<and> status = status_100 then True
     else if event = interrupt_event \<and> status = status_500 then True
     else False)"

definition check_event_broadcasting_all_metadata_received :: "event_t \<Rightarrow> status_t \<Rightarrow> bool" where
  "check_event_broadcasting_all_metadata_received event status =
    (if event = received_heartbeat_event \<and> status = status_170 then True
     else if event = received_heartbeat_event \<and> status = status_171 then True
     else if event = received_heartbeat_event \<and> status = status_141 then True
     else if event = received_heartbeat_event \<and> status = status_130 then True
     else if event = received_heartbeat_event \<and> status = status_134 then True
     else if event = received_heartbeat_event \<and> status = status_150 then True
     else if event = new_local_file_event \<and> status = status_300 then True
     else if event = new_local_file_with_more_event \<and> status = status_304 then True
     else if event = new_local_file_event \<and> status = status_320 then True
     else if event = new_local_file_with_more_event \<and> status = status_324 then True
     else if event = node_only_sends_heartbeats_event \<and> status = status_100 then True
     else if event = interrupt_event \<and> status = status_500 then True
     else False)"

definition check_event_syncing_stop :: "event_t \<Rightarrow> status_t \<Rightarrow> bool" where
  "check_event_syncing_stop event status =
    (if event = file_send_tick_event \<and> status = status_112 then True
     else if event = received_heartbeat_event \<and> status = status_150 then True
     else if event = received_heartbeat_event \<and> status = status_155 then True
     else if event = timing_offset_elapsed_event \<and> status = status_156 then True
     else if event = interrupt_event \<and> status = status_500 then True
     else False)"

definition check_event_exit :: "event_t \<Rightarrow> status_t \<Rightarrow> bool" where
  "check_event_exit event status =
    (if event = interrupt_event \<and> status = status_500 then True
     else False)"

definition check_event :: "state_t \<Rightarrow> event_t \<Rightarrow> status_t \<Rightarrow> bool" where
  "check_event state event status =
    (if state = ready_state then check_event_ready event status
     else if state = announcing_new_file_state then check_event_announcing_new_file event status
     else if state = announcing_new_file_with_more_state then check_event_announcing_new_file_with_more event status
     else if state = announcing_file_metadata_change_state then check_event_announcing_file_metadata_change event status
     else if state = announcing_file_metadata_change_with_more_state then check_event_announcing_file_metadata_change_with_more event status
     else if state = sending_new_file_metadata_state then check_event_sending_new_file_metadata event status
     else if state = sending_new_file_metadata_with_more_state then check_event_sending_new_file_metadata_with_more event status
     else if state = sending_file_metadata_change_state then check_event_sending_file_metadata_change event status
     else if state = sending_file_metadata_change_with_more_state then check_event_sending_file_metadata_change_with_more event status
     else if state = sending_new_file_state then check_event_sending_new_file event status
     else if state = sending_new_file_with_more_alpha_state then check_event_sending_new_file_with_more_alpha event status
     else if state = sending_new_file_with_more_beta_state then check_event_sending_new_file_with_more_beta event status
     else if state = acknowledging_new_file_state then check_event_acknowledging_new_file event status
     else if state = acknowledging_new_file_with_more_state then check_event_acknowledging_new_file_with_more event status
     else if state = acknowledging_file_metadata_change_state then check_event_acknowledging_file_metadata_change event status
     else if state = acknowledging_file_metadata_change_with_more_state then check_event_acknowledging_file_metadata_change_with_more event status
     else if state = promoting_new_file_metadata_state then check_event_promoting_new_file_metadata event status
     else if state = promoting_new_file_metadata_with_more_state then check_event_promoting_new_file_metadata_with_more event status
     else if state = receiving_file_metadata_change_state then check_event_receiving_file_metadata_change event status
     else if state = receiving_file_metadata_change_with_more_state then check_event_receiving_file_metadata_change_with_more event status
     else if state = sending_fake_file_state then check_event_sending_fake_file event status
     else if state = sending_fake_file_with_more_alpha_state then check_event_sending_fake_file_with_more_alpha event status
     else if state = sending_fake_file_with_more_beta_state then check_event_sending_fake_file_with_more_beta event status
     else if state = broadcasting_all_received_state then check_event_broadcasting_all_received event status
     else if state = broadcasting_all_received_with_more_alpha_state then check_event_broadcasting_all_received_with_more_alpha event status
     else if state = broadcasting_all_received_with_more_beta_state then check_event_broadcasting_all_received_with_more_beta event status
     else if state = broadcasting_all_metadata_received_state then check_event_broadcasting_all_metadata_received event status
     else if state = syncing_stop_state then check_event_syncing_stop event status
     else if state = exit_state then check_event_exit event status
     else False)"

subsection \<open>\<open>get_action\<close>, one block per state\<close>

definition get_action_ready :: "event_t \<Rightarrow> status_t \<Rightarrow> action_t" where
  "get_action_ready event status =
    (if event = new_local_file_event \<and> status = status_300 then send_heartbeat_action
     else if event = new_local_file_with_more_event \<and> status = status_304 then send_heartbeat_action
     else if event = local_file_metadata_change_event \<and> status = status_320 then send_heartbeat_action
     else if event = local_file_metadata_change_with_more_event \<and> status = status_324 then send_heartbeat_action
     else if event = received_heartbeat_event \<and> status = status_100 then send_heartbeat_action
     else if event = received_heartbeat_event \<and> status = status_120 then send_heartbeat_action
     else if event = received_heartbeat_event \<and> status = status_124 then send_heartbeat_action
     else if event = received_heartbeat_event \<and> status = status_160 then send_heartbeat_action
     else if event = received_heartbeat_event \<and> status = status_164 then send_heartbeat_action
     else if event = received_heartbeat_event \<and> status = status_150 then send_heartbeat_action
     else if event = interrupt_event \<and> status = status_500 then exit_action
     else NULL_action)"

definition get_action_announcing_new_file :: "event_t \<Rightarrow> status_t \<Rightarrow> action_t" where
  "get_action_announcing_new_file event status =
    (if event = received_heartbeat_event \<and> status = status_121 then send_heartbeat_action
     else if event = all_nodes_replied_event \<and> status = status_122 then send_heartbeat_action
     else if event = new_local_file_event \<and> status = status_300 then send_heartbeat_action
     else if event = new_local_file_reported_twice_event \<and> status = status_301 then send_heartbeat_action
     else if event = new_local_file_with_more_event \<and> status = status_304 then send_heartbeat_action
     else if event = local_file_metadata_change_event \<and> status = status_320 then send_heartbeat_action
     else if event = local_file_metadata_change_with_more_event \<and> status = status_324 then send_heartbeat_action
     else if event = interrupt_event \<and> status = status_500 then exit_action
     else NULL_action)"

definition get_action_announcing_new_file_with_more :: "event_t \<Rightarrow> status_t \<Rightarrow> action_t" where
  "get_action_announcing_new_file_with_more event status =
    (if event = received_heartbeat_event \<and> status = status_125 then send_heartbeat_action
     else if event = all_nodes_replied_event \<and> status = status_126 then send_heartbeat_action
     else if event = new_local_file_event \<and> status = status_300 then send_heartbeat_action
     else if event = new_local_file_with_more_event \<and> status = status_304 then send_heartbeat_action
     else if event = local_file_metadata_change_event \<and> status = status_320 then send_heartbeat_action
     else if event = local_file_metadata_change_with_more_event \<and> status = status_324 then send_heartbeat_action
     else if event = interrupt_event \<and> status = status_500 then exit_action
     else NULL_action)"

definition get_action_announcing_file_metadata_change :: "event_t \<Rightarrow> status_t \<Rightarrow> action_t" where
  "get_action_announcing_file_metadata_change event status =
    (if event = received_heartbeat_event \<and> status = status_161 then send_heartbeat_action
     else if event = all_nodes_replied_event \<and> status = status_162 then send_heartbeat_action
     else if event = new_local_file_event \<and> status = status_300 then send_heartbeat_action
     else if event = new_local_file_with_more_event \<and> status = status_304 then send_heartbeat_action
     else if event = local_file_metadata_change_event \<and> status = status_320 then send_heartbeat_action
     else if event = local_file_metadata_change_with_more_event \<and> status = status_324 then send_heartbeat_action
     else if event = interrupt_event \<and> status = status_500 then exit_action
     else NULL_action)"

definition get_action_announcing_file_metadata_change_with_more :: "event_t \<Rightarrow> status_t \<Rightarrow> action_t" where
  "get_action_announcing_file_metadata_change_with_more event status =
    (if event = received_heartbeat_event \<and> status = status_165 then send_heartbeat_action
     else if event = all_nodes_replied_event \<and> status = status_166 then send_heartbeat_action
     else if event = new_local_file_event \<and> status = status_300 then send_heartbeat_action
     else if event = new_local_file_with_more_event \<and> status = status_304 then send_heartbeat_action
     else if event = local_file_metadata_change_event \<and> status = status_320 then send_heartbeat_action
     else if event = local_file_metadata_change_with_more_event \<and> status = status_324 then send_heartbeat_action
     else if event = interrupt_event \<and> status = status_500 then exit_action
     else NULL_action)"

definition get_action_sending_new_file_metadata :: "event_t \<Rightarrow> status_t \<Rightarrow> action_t" where
  "get_action_sending_new_file_metadata event status =
    (if event = received_heartbeat_event \<and> status = status_131 then send_heartbeat_action
     else if event = timing_offset_elapsed_event \<and> status = status_132 then send_heartbeat_action
     else if event = new_local_file_event \<and> status = status_300 then add_new_file_to_queue_action
     else if event = new_local_file_with_more_event \<and> status = status_304 then add_new_file_to_queue_action
     else if event = local_file_metadata_change_event \<and> status = status_320 then add_new_file_to_queue_action
     else if event = local_file_metadata_change_with_more_event \<and> status = status_324 then add_new_file_to_queue_action
     else if event = interrupt_event \<and> status = status_500 then exit_action
     else NULL_action)"

definition get_action_sending_new_file_metadata_with_more :: "event_t \<Rightarrow> status_t \<Rightarrow> action_t" where
  "get_action_sending_new_file_metadata_with_more event status =
    (if event = received_heartbeat_event \<and> status = status_135 then send_heartbeat_action
     else if event = timing_offset_elapsed_event \<and> status = status_132 then send_heartbeat_action
     else if event = new_local_file_event \<and> status = status_300 then send_heartbeat_action
     else if event = new_local_file_with_more_event \<and> status = status_304 then send_heartbeat_action
     else if event = local_file_metadata_change_event \<and> status = status_320 then add_new_file_to_queue_action
     else if event = local_file_metadata_change_with_more_event \<and> status = status_324 then add_new_file_to_queue_action
     else if event = interrupt_event \<and> status = status_500 then exit_action
     else NULL_action)"

definition get_action_sending_file_metadata_change :: "event_t \<Rightarrow> status_t \<Rightarrow> action_t" where
  "get_action_sending_file_metadata_change event status =
    (if event = received_heartbeat_event \<and> status = status_171 then send_heartbeat_action
     else if event = received_heartbeat_event \<and> status = status_141 then send_heartbeat_action
     else if event = all_nodes_have_file_event \<and> status = status_172 then send_heartbeat_action
     else if event = new_local_file_event \<and> status = status_300 then add_new_file_to_queue_action
     else if event = new_local_file_with_more_event \<and> status = status_304 then add_new_file_to_queue_action
     else if event = local_file_metadata_change_event \<and> status = status_320 then add_new_file_to_queue_action
     else if event = local_file_metadata_change_with_more_event \<and> status = status_324 then add_new_file_to_queue_action
     else if event = interrupt_event \<and> status = status_500 then exit_action
     else NULL_action)"

definition get_action_sending_file_metadata_change_with_more :: "event_t \<Rightarrow> status_t \<Rightarrow> action_t" where
  "get_action_sending_file_metadata_change_with_more event status =
    (if event = received_heartbeat_event \<and> status = status_175 then send_heartbeat_action
     else if event = received_heartbeat_event \<and> status = status_141 then send_heartbeat_action
     else if event = all_nodes_have_all_files_event \<and> status = status_172 then send_heartbeat_action
     else if event = all_nodes_have_all_metadata_changes_with_more_event \<and> status = status_177 then send_heartbeat_action
     else if event = all_nodes_have_all_metadata_changes_with_more_event \<and> status = status_178 then send_heartbeat_action
     else if event = new_local_file_event \<and> status = status_300 then send_heartbeat_action
     else if event = new_local_file_with_more_event \<and> status = status_304 then send_heartbeat_action
     else if event = local_file_metadata_change_event \<and> status = status_320 then send_heartbeat_action
     else if event = local_file_metadata_change_with_more_event \<and> status = status_324 then send_heartbeat_action
     else if event = interrupt_event \<and> status = status_500 then exit_action
     else NULL_action)"

definition get_action_sending_new_file :: "event_t \<Rightarrow> status_t \<Rightarrow> action_t" where
  "get_action_sending_new_file event status =
    (if event = file_send_tick_event \<and> status = status_112 then send_file_data_action
     else if event = received_heartbeat_event \<and> status = status_111 then send_heartbeat_action
     else if event = received_heartbeat_event \<and> status = status_140 then send_heartbeat_action
     else if event = received_fake_file_data_event \<and> status = status_210 then ignore_action
     else if event = all_nodes_have_file_event \<and> status = status_142 then send_heartbeat_action
     else if event = new_local_file_event \<and> status = status_300 then add_new_file_to_queue_action
     else if event = new_local_file_with_more_event \<and> status = status_304 then add_new_file_to_queue_action
     else if event = local_file_metadata_change_event \<and> status = status_320 then add_new_file_to_queue_action
     else if event = local_file_metadata_change_with_more_event \<and> status = status_324 then add_new_file_to_queue_action
     else if event = received_heartbeat_event \<and> status = status_410 then send_heartbeat_action
     else if event = node_only_sends_heartbeats_event \<and> status = status_100 then send_heartbeat_action
     else if event = interrupt_event \<and> status = status_500 then exit_action
     else NULL_action)"

definition get_action_sending_new_file_with_more_alpha :: "event_t \<Rightarrow> status_t \<Rightarrow> action_t" where
  "get_action_sending_new_file_with_more_alpha event status =
    (if event = file_send_tick_event \<and> status = status_112 then send_file_data_action
     else if event = received_heartbeat_event \<and> status = status_115 then send_heartbeat_action
     else if event = received_heartbeat_event \<and> status = status_140 then send_heartbeat_action
     else if event = received_fake_file_data_event \<and> status = status_210 then ignore_action
     else if event = all_nodes_have_file_event \<and> status = status_142 then send_heartbeat_action
     else if event = all_nodes_have_file_with_more_event \<and> status = status_146 then send_heartbeat_action
     else if event = new_local_file_event \<and> status = status_300 then add_new_file_to_queue_action
     else if event = new_local_file_with_more_event \<and> status = status_304 then add_new_file_to_queue_action
     else if event = local_file_metadata_change_event \<and> status = status_320 then add_new_file_to_queue_action
     else if event = local_file_metadata_change_with_more_event \<and> status = status_324 then add_new_file_to_queue_action
     else if event = received_heartbeat_event \<and> status = status_410 then send_heartbeat_action
     else if event = node_only_sends_heartbeats_event \<and> status = status_100 then send_heartbeat_action
     else if event = interrupt_event \<and> status = status_500 then exit_action
     else NULL_action)"

definition get_action_sending_new_file_with_more_beta :: "event_t \<Rightarrow> status_t \<Rightarrow> action_t" where
  "get_action_sending_new_file_with_more_beta event status =
    (if event = file_send_tick_event \<and> status = status_112 then send_file_data_action
     else if event = received_heartbeat_event \<and> status = status_115 then send_heartbeat_action
     else if event = received_heartbeat_event \<and> status = status_140 then send_heartbeat_action
     else if event = received_fake_file_data_event \<and> status = status_210 then ignore_action
     else if event = all_nodes_have_file_event \<and> status = status_142 then send_heartbeat_action
     else if event = all_nodes_have_file_with_more_event \<and> status = status_146 then send_heartbeat_action
     else if event = new_local_file_event \<and> status = status_300 then add_new_file_to_queue_action
     else if event = new_local_file_with_more_event \<and> status = status_304 then add_new_file_to_queue_action
     else if event = local_file_metadata_change_event \<and> status = status_320 then add_new_file_to_queue_action
     else if event = local_file_metadata_change_with_more_event \<and> status = status_324 then add_new_file_to_queue_action
     else if event = received_heartbeat_event \<and> status = status_410 then send_heartbeat_action
     else if event = node_only_sends_heartbeats_event \<and> status = status_100 then send_heartbeat_action
     else if event = interrupt_event \<and> status = status_500 then exit_action
     else NULL_action)"

definition get_action_acknowledging_new_file :: "event_t \<Rightarrow> status_t \<Rightarrow> action_t" where
  "get_action_acknowledging_new_file event status =
    (if event = received_heartbeat_event \<and> status = status_130 then send_heartbeat_action
     else if event = received_heartbeat_event \<and> status = status_120 then send_heartbeat_action
     else if event = received_heartbeat_event \<and> status = status_121 then send_heartbeat_action
     else if event = received_heartbeat_event \<and> status = status_124 then send_heartbeat_action
     else if event = new_local_file_event \<and> status = status_300 then add_new_file_to_queue_action
     else if event = new_local_file_with_more_event \<and> status = status_304 then add_new_file_to_queue_action
     else if event = local_file_metadata_change_event \<and> status = status_320 then add_new_file_to_queue_action
     else if event = local_file_metadata_change_with_more_event \<and> status = status_324 then add_new_file_to_queue_action
     else if event = interrupt_event \<and> status = status_500 then exit_action
     else NULL_action)"

definition get_action_acknowledging_new_file_with_more :: "event_t \<Rightarrow> status_t \<Rightarrow> action_t" where
  "get_action_acknowledging_new_file_with_more event status =
    (if event = received_heartbeat_event \<and> status = status_134 then send_heartbeat_action
     else if event = received_heartbeat_event \<and> status = status_124 then send_heartbeat_action
     else if event = received_heartbeat_event \<and> status = status_125 then send_heartbeat_action
     else if event = new_local_file_event \<and> status = status_300 then add_new_file_to_queue_action
     else if event = new_local_file_with_more_event \<and> status = status_304 then add_new_file_to_queue_action
     else if event = local_file_metadata_change_event \<and> status = status_320 then add_new_file_to_queue_action
     else if event = local_file_metadata_change_with_more_event \<and> status = status_324 then add_new_file_to_queue_action
     else if event = interrupt_event \<and> status = status_500 then exit_action
     else NULL_action)"

definition get_action_acknowledging_file_metadata_change :: "event_t \<Rightarrow> status_t \<Rightarrow> action_t" where
  "get_action_acknowledging_file_metadata_change event status =
    (if event = received_heartbeat_event \<and> status = status_170 then send_heartbeat_action
     else if event = received_heartbeat_event \<and> status = status_160 then send_heartbeat_action
     else if event = received_heartbeat_event \<and> status = status_161 then send_heartbeat_action
     else if event = received_heartbeat_event \<and> status = status_164 then send_heartbeat_action
     else if event = new_local_file_event \<and> status = status_300 then add_new_file_to_queue_action
     else if event = new_local_file_with_more_event \<and> status = status_304 then add_new_file_to_queue_action
     else if event = new_local_file_event \<and> status = status_320 then add_new_file_to_queue_action
     else if event = new_local_file_with_more_event \<and> status = status_324 then add_new_file_to_queue_action
     else if event = interrupt_event \<and> status = status_500 then exit_action
     else NULL_action)"

definition get_action_acknowledging_file_metadata_change_with_more :: "event_t \<Rightarrow> status_t \<Rightarrow> action_t" where
  "get_action_acknowledging_file_metadata_change_with_more event status =
    (if event = received_heartbeat_event \<and> status = status_174 then send_heartbeat_action
     else if event = received_heartbeat_event \<and> status = status_164 then send_heartbeat_action
     else if event = received_heartbeat_event \<and> status = status_165 then send_heartbeat_action
     else if event = new_local_file_event \<and> status = status_300 then add_new_file_to_queue_action
     else if event = new_local_file_with_more_event \<and> status = status_304 then add_new_file_to_queue_action
     else if event = new_local_file_event \<and> status = status_320 then add_new_file_to_queue_action
     else if event = new_local_file_with_more_event \<and> status = status_324 then add_new_file_to_queue_action
     else if event = interrupt_event \<and> status = status_500 then exit_action
     else NULL_action)"

definition get_action_promoting_new_file_metadata :: "event_t \<Rightarrow> status_t \<Rightarrow> action_t" where
  "get_action_promoting_new_file_metadata event status =
    (if event = received_heartbeat_event \<and> status = status_130 then send_heartbeat_action
     else if event = received_heartbeat_event \<and> status = status_131 then send_heartbeat_action
     else if event = received_heartbeat_event \<and> status = status_134 then send_heartbeat_action
     else if event = timing_offset_elapsed_event \<and> status = status_132 then send_heartbeat_action
     else if event = new_local_file_event \<and> status = status_300 then add_new_file_to_queue_action
     else if event = new_local_file_with_more_event \<and> status = status_304 then add_new_file_to_queue_action
     else if event = new_local_file_event \<and> status = status_320 then add_new_file_to_queue_action
     else if event = new_local_file_with_more_event \<and> status = status_324 then add_new_file_to_queue_action
     else if event = interrupt_event \<and> status = status_500 then exit_action
     else NULL_action)"

definition get_action_promoting_new_file_metadata_with_more :: "event_t \<Rightarrow> status_t \<Rightarrow> action_t" where
  "get_action_promoting_new_file_metadata_with_more event status =
    (if event = received_heartbeat_event \<and> status = status_134 then send_heartbeat_action
     else if event = received_heartbeat_event \<and> status = status_135 then send_heartbeat_action
     else if event = timing_offset_elapsed_event \<and> status = status_136 then send_heartbeat_action
     else if event = new_local_file_event \<and> status = status_300 then add_new_file_to_queue_action
     else if event = new_local_file_with_more_event \<and> status = status_304 then add_new_file_to_queue_action
     else if event = new_local_file_event \<and> status = status_320 then add_new_file_to_queue_action
     else if event = new_local_file_with_more_event \<and> status = status_324 then add_new_file_to_queue_action
     else if event = interrupt_event \<and> status = status_500 then exit_action
     else NULL_action)"

definition get_action_receiving_file_metadata_change :: "event_t \<Rightarrow> status_t \<Rightarrow> action_t" where
  "get_action_receiving_file_metadata_change event status =
    (if event = received_heartbeat_event \<and> status = status_170 then send_heartbeat_action
     else if event = received_heartbeat_event \<and> status = status_171 then send_heartbeat_action
     else if event = received_heartbeat_event \<and> status = status_175 then send_heartbeat_action
     else if event = received_heartbeat_event \<and> status = status_141 then send_heartbeat_action
     else if event = all_metadata_received_event \<and> status = status_173 then send_heartbeat_action
     else if event = new_local_file_event \<and> status = status_300 then add_new_file_to_queue_action
     else if event = new_local_file_with_more_event \<and> status = status_304 then add_new_file_to_queue_action
     else if event = new_local_file_event \<and> status = status_320 then add_new_file_to_queue_action
     else if event = new_local_file_with_more_event \<and> status = status_324 then add_new_file_to_queue_action
     else if event = interrupt_event \<and> status = status_500 then exit_action
     else NULL_action)"

definition get_action_receiving_file_metadata_change_with_more :: "event_t \<Rightarrow> status_t \<Rightarrow> action_t" where
  "get_action_receiving_file_metadata_change_with_more event status =
    (if event = received_heartbeat_event \<and> status = status_174 then send_heartbeat_action
     else if event = received_heartbeat_event \<and> status = status_175 then send_heartbeat_action
     else if event = received_heartbeat_event \<and> status = status_141 then send_heartbeat_action
     else if event = all_metadata_received_event \<and> status = status_173 then send_heartbeat_action
     else if event = new_local_file_event \<and> status = status_300 then add_new_file_to_queue_action
     else if event = new_local_file_with_more_event \<and> status = status_304 then add_new_file_to_queue_action
     else if event = new_local_file_event \<and> status = status_320 then add_new_file_to_queue_action
     else if event = new_local_file_with_more_event \<and> status = status_324 then add_new_file_to_queue_action
     else if event = interrupt_event \<and> status = status_500 then exit_action
     else NULL_action)"

definition get_action_sending_fake_file :: "event_t \<Rightarrow> status_t \<Rightarrow> action_t" where
  "get_action_sending_fake_file event status =
    (if event = file_send_tick_event \<and> status = status_112 then send_file_data_action
     else if event = received_heartbeat_event \<and> status = status_110 then send_heartbeat_action
     else if event = received_heartbeat_event \<and> status = status_111 then send_heartbeat_action
     else if event = received_heartbeat_event \<and> status = status_140 then send_heartbeat_action
     else if event = received_file_data_event \<and> status = status_200 then store_file_data_action
     else if event = all_data_received_event \<and> status = status_113 then send_heartbeat_action
     else if event = new_local_file_event \<and> status = status_300 then add_new_file_to_queue_action
     else if event = new_local_file_with_more_event \<and> status = status_304 then add_new_file_to_queue_action
     else if event = new_local_file_event \<and> status = status_320 then add_new_file_to_queue_action
     else if event = new_local_file_with_more_event \<and> status = status_324 then add_new_file_to_queue_action
     else if event = received_heartbeat_event \<and> status = status_410 then send_heartbeat_action
     else if event = node_only_sends_heartbeats_event \<and> status = status_100 then send_heartbeat_action
     else if event = interrupt_event \<and> status = status_500 then exit_action
     else NULL_action)"

definition get_action_sending_fake_file_with_more_alpha :: "event_t \<Rightarrow> status_t \<Rightarrow> action_t" where
  "get_action_sending_fake_file_with_more_alpha event status =
    (if event = file_send_tick_event \<and> status = status_112 then send_file_data_action
     else if event = received_heartbeat_event \<and> status = status_114 then send_heartbeat_action
     else if event = received_heartbeat_event \<and> status = status_115 then send_heartbeat_action
     else if event = received_heartbeat_event \<and> status = status_145 then send_heartbeat_action
     else if event = received_file_data_event \<and> status = status_200 then store_file_data_action
     else if event = all_data_received_event \<and> status = status_113 then send_heartbeat_action
     else if event = new_local_file_event \<and> status = status_300 then add_new_file_to_queue_action
     else if event = new_local_file_with_more_event \<and> status = status_304 then add_new_file_to_queue_action
     else if event = new_local_file_event \<and> status = status_320 then add_new_file_to_queue_action
     else if event = new_local_file_with_more_event \<and> status = status_324 then add_new_file_to_queue_action
     else if event = received_heartbeat_event \<and> status = status_410 then send_heartbeat_action
     else if event = node_only_sends_heartbeats_event \<and> status = status_100 then send_heartbeat_action
     else if event = interrupt_event \<and> status = status_500 then exit_action
     else NULL_action)"

definition get_action_sending_fake_file_with_more_beta :: "event_t \<Rightarrow> status_t \<Rightarrow> action_t" where
  "get_action_sending_fake_file_with_more_beta event status =
    (if event = file_send_tick_event \<and> status = status_112 then send_file_data_action
     else if event = received_heartbeat_event \<and> status = status_114 then send_heartbeat_action
     else if event = received_heartbeat_event \<and> status = status_117 then send_heartbeat_action
     else if event = received_heartbeat_event \<and> status = status_145 then send_heartbeat_action
     else if event = received_file_data_event \<and> status = status_200 then store_file_data_action
     else if event = all_data_received_event \<and> status = status_113 then send_heartbeat_action
     else if event = new_local_file_event \<and> status = status_300 then add_new_file_to_queue_action
     else if event = new_local_file_with_more_event \<and> status = status_304 then add_new_file_to_queue_action
     else if event = new_local_file_event \<and> status = status_320 then add_new_file_to_queue_action
     else if event = new_local_file_with_more_event \<and> status = status_324 then add_new_file_to_queue_action
     else if event = received_heartbeat_event \<and> status = status_410 then send_heartbeat_action
     else if event = node_only_sends_heartbeats_event \<and> status = status_100 then send_heartbeat_action
     else if event = interrupt_event \<and> status = status_500 then exit_action
     else NULL_action)"

definition get_action_broadcasting_all_received :: "event_t \<Rightarrow> status_t \<Rightarrow> action_t" where
  "get_action_broadcasting_all_received event status =
    (if event = file_send_tick_event \<and> status = status_112 then send_fake_file_data_action
     else if event = received_heartbeat_event \<and> status = status_110 then send_heartbeat_action
     else if event = received_heartbeat_event \<and> status = status_111 then send_heartbeat_action
     else if event = received_heartbeat_event \<and> status = status_140 then send_heartbeat_action
     else if event = received_heartbeat_event \<and> status = status_155 then send_heartbeat_action
     else if event = new_local_file_event \<and> status = status_300 then add_new_file_to_queue_action
     else if event = new_local_file_with_more_event \<and> status = status_304 then add_new_file_to_queue_action
     else if event = new_local_file_event \<and> status = status_320 then add_new_file_to_queue_action
     else if event = new_local_file_with_more_event \<and> status = status_324 then add_new_file_to_queue_action
     else if event = node_only_sends_heartbeats_event \<and> status = status_100 then send_heartbeat_action
     else if event = interrupt_event \<and> status = status_500 then exit_action
     else NULL_action)"

definition get_action_broadcasting_all_received_with_more_alpha :: "event_t \<Rightarrow> status_t \<Rightarrow> action_t" where
  "get_action_broadcasting_all_received_with_more_alpha event status =
    (if event = file_send_tick_event \<and> status = status_112 then send_fake_file_data_action
     else if event = received_heartbeat_event \<and> status = status_114 then send_heartbeat_action
     else if event = received_heartbeat_event \<and> status = status_115 then send_heartbeat_action
     else if event = received_heartbeat_event \<and> status = status_145 then send_heartbeat_action
     else if event = received_heartbeat_event \<and> status = status_150 then send_heartbeat_action
     else if event = received_heartbeat_event \<and> status = status_116 then send_heartbeat_action
     else if event = new_local_file_event \<and> status = status_300 then add_new_file_to_queue_action
     else if event = new_local_file_with_more_event \<and> status = status_304 then add_new_file_to_queue_action
     else if event = new_local_file_event \<and> status = status_320 then add_new_file_to_queue_action
     else if event = new_local_file_with_more_event \<and> status = status_324 then add_new_file_to_queue_action
     else if event = node_only_sends_heartbeats_event \<and> status = status_100 then send_heartbeat_action
     else if event = interrupt_event \<and> status = status_500 then exit_action
     else NULL_action)"

definition get_action_broadcasting_all_received_with_more_beta :: "event_t \<Rightarrow> status_t \<Rightarrow> action_t" where
  "get_action_broadcasting_all_received_with_more_beta event status =
    (if event = file_send_tick_event \<and> status = status_112 then send_fake_file_data_action
     else if event = received_heartbeat_event \<and> status = status_116 then send_heartbeat_action
     else if event = received_heartbeat_event \<and> status = status_117 then send_heartbeat_action
     else if event = received_heartbeat_event \<and> status = status_147 then send_heartbeat_action
     else if event = received_heartbeat_event \<and> status = status_150 then send_heartbeat_action
     else if event = received_heartbeat_event \<and> status = status_114 then send_heartbeat_action
     else if event = new_local_file_event \<and> status = status_300 then add_new_file_to_queue_action
     else if event = new_local_file_with_more_event \<and> status = status_304 then add_new_file_to_queue_action
     else if event = new_local_file_event \<and> status = status_320 then add_new_file_to_queue_action
     else if event = new_local_file_with_more_event \<and> status = status_324 then add_new_file_to_queue_action
     else if event = node_only_sends_heartbeats_event \<and> status = status_100 then send_heartbeat_action
     else if event = interrupt_event \<and> status = status_500 then exit_action
     else NULL_action)"

definition get_action_broadcasting_all_metadata_received :: "event_t \<Rightarrow> status_t \<Rightarrow> action_t" where
  "get_action_broadcasting_all_metadata_received event status =
    (if event = received_heartbeat_event \<and> status = status_170 then send_heartbeat_action
     else if event = received_heartbeat_event \<and> status = status_171 then send_heartbeat_action
     else if event = received_heartbeat_event \<and> status = status_141 then send_heartbeat_action
     else if event = received_heartbeat_event \<and> status = status_130 then send_heartbeat_action
     else if event = received_heartbeat_event \<and> status = status_134 then send_heartbeat_action
     else if event = received_heartbeat_event \<and> status = status_150 then send_heartbeat_action
     else if event = new_local_file_event \<and> status = status_300 then add_new_file_to_queue_action
     else if event = new_local_file_with_more_event \<and> status = status_304 then add_new_file_to_queue_action
     else if event = new_local_file_event \<and> status = status_320 then add_new_file_to_queue_action
     else if event = new_local_file_with_more_event \<and> status = status_324 then add_new_file_to_queue_action
     else if event = node_only_sends_heartbeats_event \<and> status = status_100 then send_heartbeat_action
     else if event = interrupt_event \<and> status = status_500 then exit_action
     else NULL_action)"

definition get_action_syncing_stop :: "event_t \<Rightarrow> status_t \<Rightarrow> action_t" where
  "get_action_syncing_stop event status =
    (if event = file_send_tick_event \<and> status = status_112 then send_fake_file_data_action
     else if event = received_heartbeat_event \<and> status = status_150 then send_heartbeat_action
     else if event = received_heartbeat_event \<and> status = status_155 then send_heartbeat_action
     else if event = timing_offset_elapsed_event \<and> status = status_156 then send_heartbeat_action
     else if event = interrupt_event \<and> status = status_500 then exit_action
     else NULL_action)"

definition get_action_exit :: "event_t \<Rightarrow> status_t \<Rightarrow> action_t" where
  "get_action_exit event status =
    (if event = interrupt_event \<and> status = status_500 then exit_action
     else NULL_action)"

definition get_action :: "state_t \<Rightarrow> event_t \<Rightarrow> status_t \<Rightarrow> action_t" where
  "get_action state event status =
    (if state = ready_state then get_action_ready event status
     else if state = announcing_new_file_state then get_action_announcing_new_file event status
     else if state = announcing_new_file_with_more_state then get_action_announcing_new_file_with_more event status
     else if state = announcing_file_metadata_change_state then get_action_announcing_file_metadata_change event status
     else if state = announcing_file_metadata_change_with_more_state then get_action_announcing_file_metadata_change_with_more event status
     else if state = sending_new_file_metadata_state then get_action_sending_new_file_metadata event status
     else if state = sending_new_file_metadata_with_more_state then get_action_sending_new_file_metadata_with_more event status
     else if state = sending_file_metadata_change_state then get_action_sending_file_metadata_change event status
     else if state = sending_file_metadata_change_with_more_state then get_action_sending_file_metadata_change_with_more event status
     else if state = sending_new_file_state then get_action_sending_new_file event status
     else if state = sending_new_file_with_more_alpha_state then get_action_sending_new_file_with_more_alpha event status
     else if state = sending_new_file_with_more_beta_state then get_action_sending_new_file_with_more_beta event status
     else if state = acknowledging_new_file_state then get_action_acknowledging_new_file event status
     else if state = acknowledging_new_file_with_more_state then get_action_acknowledging_new_file_with_more event status
     else if state = acknowledging_file_metadata_change_state then get_action_acknowledging_file_metadata_change event status
     else if state = acknowledging_file_metadata_change_with_more_state then get_action_acknowledging_file_metadata_change_with_more event status
     else if state = promoting_new_file_metadata_state then get_action_promoting_new_file_metadata event status
     else if state = promoting_new_file_metadata_with_more_state then get_action_promoting_new_file_metadata_with_more event status
     else if state = receiving_file_metadata_change_state then get_action_receiving_file_metadata_change event status
     else if state = receiving_file_metadata_change_with_more_state then get_action_receiving_file_metadata_change_with_more event status
     else if state = sending_fake_file_state then get_action_sending_fake_file event status
     else if state = sending_fake_file_with_more_alpha_state then get_action_sending_fake_file_with_more_alpha event status
     else if state = sending_fake_file_with_more_beta_state then get_action_sending_fake_file_with_more_beta event status
     else if state = broadcasting_all_received_state then get_action_broadcasting_all_received event status
     else if state = broadcasting_all_received_with_more_alpha_state then get_action_broadcasting_all_received_with_more_alpha event status
     else if state = broadcasting_all_received_with_more_beta_state then get_action_broadcasting_all_received_with_more_beta event status
     else if state = broadcasting_all_metadata_received_state then get_action_broadcasting_all_metadata_received event status
     else if state = syncing_stop_state then get_action_syncing_stop event status
     else if state = exit_state then get_action_exit event status
     else NULL_action)"

subsection \<open>\<open>get_heartbeat_status\<close>, one block per state\<close>

definition get_heartbeat_status_ready :: "event_t \<Rightarrow> status_t \<Rightarrow> status_t" where
  "get_heartbeat_status_ready event received_status =
    (if event = new_local_file_event \<and> received_status = status_300 then status_120
     else if event = new_local_file_with_more_event \<and> received_status = status_304 then status_124
     else if event = local_file_metadata_change_event \<and> received_status = status_320 then status_160
     else if event = local_file_metadata_change_with_more_event \<and> received_status = status_324 then status_164
     else if event = received_heartbeat_event \<and> received_status = status_100 then status_100
     else if event = received_heartbeat_event \<and> received_status = status_120 then status_121
     else if event = received_heartbeat_event \<and> received_status = status_124 then status_125
     else if event = received_heartbeat_event \<and> received_status = status_160 then status_161
     else if event = received_heartbeat_event \<and> received_status = status_164 then status_165
     else if event = received_heartbeat_event \<and> received_status = status_150 then status_100
     else if event = interrupt_event \<and> received_status = status_500 then status_500
     else NULL_status)"

definition get_heartbeat_status_announcing_new_file :: "event_t \<Rightarrow> status_t \<Rightarrow> status_t" where
  "get_heartbeat_status_announcing_new_file event received_status =
    (if event = received_heartbeat_event \<and> received_status = status_121 then status_120
     else if event = all_nodes_replied_event \<and> received_status = status_122 then status_130
     else if event = new_local_file_event \<and> received_status = status_300 then status_124
     else if event = new_local_file_reported_twice_event \<and> received_status = status_301 then status_120
     else if event = new_local_file_with_more_event \<and> received_status = status_304 then status_124
     else if event = local_file_metadata_change_event \<and> received_status = status_320 then status_164
     else if event = local_file_metadata_change_with_more_event \<and> received_status = status_324 then status_164
     else if event = interrupt_event \<and> received_status = status_500 then status_500
     else NULL_status)"

definition get_heartbeat_status_announcing_new_file_with_more :: "event_t \<Rightarrow> status_t \<Rightarrow> status_t" where
  "get_heartbeat_status_announcing_new_file_with_more event received_status =
    (if event = received_heartbeat_event \<and> received_status = status_125 then status_124
     else if event = all_nodes_replied_event \<and> received_status = status_126 then status_134
     else if event = new_local_file_event \<and> received_status = status_300 then status_124
     else if event = new_local_file_with_more_event \<and> received_status = status_304 then status_124
     else if event = local_file_metadata_change_event \<and> received_status = status_320 then status_164
     else if event = local_file_metadata_change_with_more_event \<and> received_status = status_324 then status_164
     else if event = interrupt_event \<and> received_status = status_500 then status_500
     else NULL_status)"

definition get_heartbeat_status_announcing_file_metadata_change :: "event_t \<Rightarrow> status_t \<Rightarrow> status_t" where
  "get_heartbeat_status_announcing_file_metadata_change event received_status =
    (if event = received_heartbeat_event \<and> received_status = status_161 then status_160
     else if event = all_nodes_replied_event \<and> received_status = status_162 then status_170
     else if event = new_local_file_event \<and> received_status = status_300 then status_164
     else if event = new_local_file_with_more_event \<and> received_status = status_304 then status_164
     else if event = local_file_metadata_change_event \<and> received_status = status_320 then status_164
     else if event = local_file_metadata_change_with_more_event \<and> received_status = status_324 then status_164
     else if event = interrupt_event \<and> received_status = status_500 then status_500
     else NULL_status)"

definition get_heartbeat_status_announcing_file_metadata_change_with_more :: "event_t \<Rightarrow> status_t \<Rightarrow> status_t" where
  "get_heartbeat_status_announcing_file_metadata_change_with_more event received_status =
    (if event = received_heartbeat_event \<and> received_status = status_165 then status_164
     else if event = all_nodes_replied_event \<and> received_status = status_166 then status_174
     else if event = new_local_file_event \<and> received_status = status_300 then status_164
     else if event = new_local_file_with_more_event \<and> received_status = status_304 then status_164
     else if event = local_file_metadata_change_event \<and> received_status = status_320 then status_164
     else if event = local_file_metadata_change_with_more_event \<and> received_status = status_324 then status_164
     else if event = interrupt_event \<and> received_status = status_500 then status_500
     else NULL_status)"

definition get_heartbeat_status_sending_new_file_metadata :: "event_t \<Rightarrow> status_t \<Rightarrow> status_t" where
  "get_heartbeat_status_sending_new_file_metadata event received_status =
    (if event = received_heartbeat_event \<and> received_status = status_131 then status_130
     else if event = timing_offset_elapsed_event \<and> received_status = status_132 then status_110
     else if event = new_local_file_event \<and> received_status = status_300 then status_130
     else if event = new_local_file_with_more_event \<and> received_status = status_304 then status_130
     else if event = local_file_metadata_change_event \<and> received_status = status_320 then status_130
     else if event = local_file_metadata_change_with_more_event \<and> received_status = status_324 then status_130
     else if event = interrupt_event \<and> received_status = status_500 then status_500
     else NULL_status)"

definition get_heartbeat_status_sending_new_file_metadata_with_more :: "event_t \<Rightarrow> status_t \<Rightarrow> status_t" where
  "get_heartbeat_status_sending_new_file_metadata_with_more event received_status =
    (if event = received_heartbeat_event \<and> received_status = status_135 then status_134
     else if event = timing_offset_elapsed_event \<and> received_status = status_132 then status_114
     else if event = new_local_file_event \<and> received_status = status_300 then status_134
     else if event = new_local_file_with_more_event \<and> received_status = status_304 then status_134
     else if event = local_file_metadata_change_event \<and> received_status = status_320 then status_134
     else if event = local_file_metadata_change_with_more_event \<and> received_status = status_324 then status_134
     else if event = interrupt_event \<and> received_status = status_500 then status_500
     else NULL_status)"

definition get_heartbeat_status_sending_file_metadata_change :: "event_t \<Rightarrow> status_t \<Rightarrow> status_t" where
  "get_heartbeat_status_sending_file_metadata_change event received_status =
    (if event = received_heartbeat_event \<and> received_status = status_171 then status_170
     else if event = received_heartbeat_event \<and> received_status = status_141 then status_170
     else if event = all_nodes_have_file_event \<and> received_status = status_172 then status_150
     else if event = new_local_file_event \<and> received_status = status_300 then status_170
     else if event = new_local_file_with_more_event \<and> received_status = status_304 then status_170
     else if event = local_file_metadata_change_event \<and> received_status = status_320 then status_170
     else if event = local_file_metadata_change_with_more_event \<and> received_status = status_324 then status_170
     else if event = interrupt_event \<and> received_status = status_500 then status_500
     else NULL_status)"

definition get_heartbeat_status_sending_file_metadata_change_with_more :: "event_t \<Rightarrow> status_t \<Rightarrow> status_t" where
  "get_heartbeat_status_sending_file_metadata_change_with_more event received_status =
    (if event = received_heartbeat_event \<and> received_status = status_175 then status_174
     else if event = received_heartbeat_event \<and> received_status = status_141 then status_174
     else if event = all_nodes_have_all_files_event \<and> received_status = status_172 then status_150
     else if event = all_nodes_have_all_metadata_changes_with_more_event \<and> received_status = status_177 then status_130
     else if event = all_nodes_have_all_metadata_changes_with_more_event \<and> received_status = status_178 then status_134
     else if event = new_local_file_event \<and> received_status = status_300 then status_174
     else if event = new_local_file_with_more_event \<and> received_status = status_304 then status_174
     else if event = local_file_metadata_change_event \<and> received_status = status_320 then status_174
     else if event = local_file_metadata_change_with_more_event \<and> received_status = status_324 then status_174
     else if event = interrupt_event \<and> received_status = status_500 then status_500
     else NULL_status)"

definition get_heartbeat_status_sending_new_file :: "event_t \<Rightarrow> status_t \<Rightarrow> status_t" where
  "get_heartbeat_status_sending_new_file event received_status =
    (if event = file_send_tick_event \<and> received_status = status_112 then status_200
     else if event = received_heartbeat_event \<and> received_status = status_111 then status_110
     else if event = received_heartbeat_event \<and> received_status = status_140 then status_110
     else if event = received_fake_file_data_event \<and> received_status = status_210 then status_110
     else if event = all_nodes_have_file_event \<and> received_status = status_142 then status_155
     else if event = new_local_file_event \<and> received_status = status_300 then status_110
     else if event = new_local_file_with_more_event \<and> received_status = status_304 then status_110
     else if event = local_file_metadata_change_event \<and> received_status = status_320 then status_110
     else if event = local_file_metadata_change_with_more_event \<and> received_status = status_324 then status_110
     else if event = received_heartbeat_event \<and> received_status = status_410 then status_410
     else if event = node_only_sends_heartbeats_event \<and> received_status = status_100 then status_410
     else if event = interrupt_event \<and> received_status = status_500 then status_500
     else NULL_status)"

definition get_heartbeat_status_sending_new_file_with_more_alpha :: "event_t \<Rightarrow> status_t \<Rightarrow> status_t" where
  "get_heartbeat_status_sending_new_file_with_more_alpha event received_status =
    (if event = file_send_tick_event \<and> received_status = status_112 then status_200
     else if event = received_heartbeat_event \<and> received_status = status_115 then status_114
     else if event = received_heartbeat_event \<and> received_status = status_140 then status_114
     else if event = received_fake_file_data_event \<and> received_status = status_210 then status_114
     else if event = all_nodes_have_file_event \<and> received_status = status_142 then status_110
     else if event = all_nodes_have_file_with_more_event \<and> received_status = status_146 then status_116
     else if event = new_local_file_event \<and> received_status = status_300 then status_114
     else if event = new_local_file_with_more_event \<and> received_status = status_304 then status_114
     else if event = local_file_metadata_change_event \<and> received_status = status_320 then status_114
     else if event = local_file_metadata_change_with_more_event \<and> received_status = status_324 then status_114
     else if event = received_heartbeat_event \<and> received_status = status_410 then status_410
     else if event = node_only_sends_heartbeats_event \<and> received_status = status_100 then status_410
     else if event = interrupt_event \<and> received_status = status_500 then status_500
     else NULL_status)"

definition get_heartbeat_status_sending_new_file_with_more_beta :: "event_t \<Rightarrow> status_t \<Rightarrow> status_t" where
  "get_heartbeat_status_sending_new_file_with_more_beta event received_status =
    (if event = file_send_tick_event \<and> received_status = status_112 then status_200
     else if event = received_heartbeat_event \<and> received_status = status_115 then status_116
     else if event = received_heartbeat_event \<and> received_status = status_140 then status_116
     else if event = received_fake_file_data_event \<and> received_status = status_210 then status_116
     else if event = all_nodes_have_file_event \<and> received_status = status_142 then status_110
     else if event = all_nodes_have_file_with_more_event \<and> received_status = status_146 then status_114
     else if event = new_local_file_event \<and> received_status = status_300 then status_116
     else if event = new_local_file_with_more_event \<and> received_status = status_304 then status_116
     else if event = local_file_metadata_change_event \<and> received_status = status_320 then status_116
     else if event = local_file_metadata_change_with_more_event \<and> received_status = status_324 then status_116
     else if event = received_heartbeat_event \<and> received_status = status_410 then status_410
     else if event = node_only_sends_heartbeats_event \<and> received_status = status_100 then status_410
     else if event = interrupt_event \<and> received_status = status_500 then status_500
     else NULL_status)"

definition get_heartbeat_status_acknowledging_new_file :: "event_t \<Rightarrow> status_t \<Rightarrow> status_t" where
  "get_heartbeat_status_acknowledging_new_file event received_status =
    (if event = received_heartbeat_event \<and> received_status = status_130 then status_131
     else if event = received_heartbeat_event \<and> received_status = status_120 then status_121
     else if event = received_heartbeat_event \<and> received_status = status_121 then status_121
     else if event = received_heartbeat_event \<and> received_status = status_124 then status_125
     else if event = new_local_file_event \<and> received_status = status_300 then status_121
     else if event = new_local_file_with_more_event \<and> received_status = status_304 then status_121
     else if event = local_file_metadata_change_event \<and> received_status = status_320 then status_121
     else if event = local_file_metadata_change_with_more_event \<and> received_status = status_324 then status_121
     else if event = interrupt_event \<and> received_status = status_500 then status_500
     else NULL_status)"

definition get_heartbeat_status_acknowledging_new_file_with_more :: "event_t \<Rightarrow> status_t \<Rightarrow> status_t" where
  "get_heartbeat_status_acknowledging_new_file_with_more event received_status =
    (if event = received_heartbeat_event \<and> received_status = status_134 then status_131
     else if event = received_heartbeat_event \<and> received_status = status_124 then status_125
     else if event = received_heartbeat_event \<and> received_status = status_125 then status_125
     else if event = new_local_file_event \<and> received_status = status_300 then status_125
     else if event = new_local_file_with_more_event \<and> received_status = status_304 then status_125
     else if event = local_file_metadata_change_event \<and> received_status = status_320 then status_125
     else if event = local_file_metadata_change_with_more_event \<and> received_status = status_324 then status_125
     else if event = interrupt_event \<and> received_status = status_500 then status_500
     else NULL_status)"

definition get_heartbeat_status_acknowledging_file_metadata_change :: "event_t \<Rightarrow> status_t \<Rightarrow> status_t" where
  "get_heartbeat_status_acknowledging_file_metadata_change event received_status =
    (if event = received_heartbeat_event \<and> received_status = status_170 then status_171
     else if event = received_heartbeat_event \<and> received_status = status_160 then status_161
     else if event = received_heartbeat_event \<and> received_status = status_161 then status_161
     else if event = received_heartbeat_event \<and> received_status = status_164 then status_165
     else if event = new_local_file_event \<and> received_status = status_300 then status_161
     else if event = new_local_file_with_more_event \<and> received_status = status_304 then status_161
     else if event = new_local_file_event \<and> received_status = status_320 then status_161
     else if event = new_local_file_with_more_event \<and> received_status = status_324 then status_161
     else if event = interrupt_event \<and> received_status = status_500 then status_500
     else NULL_status)"

definition get_heartbeat_status_acknowledging_file_metadata_change_with_more :: "event_t \<Rightarrow> status_t \<Rightarrow> status_t" where
  "get_heartbeat_status_acknowledging_file_metadata_change_with_more event received_status =
    (if event = received_heartbeat_event \<and> received_status = status_174 then status_175
     else if event = received_heartbeat_event \<and> received_status = status_164 then status_165
     else if event = received_heartbeat_event \<and> received_status = status_165 then status_165
     else if event = new_local_file_event \<and> received_status = status_300 then status_165
     else if event = new_local_file_with_more_event \<and> received_status = status_304 then status_165
     else if event = new_local_file_event \<and> received_status = status_320 then status_165
     else if event = new_local_file_with_more_event \<and> received_status = status_324 then status_165
     else if event = interrupt_event \<and> received_status = status_500 then status_500
     else NULL_status)"

definition get_heartbeat_status_promoting_new_file_metadata :: "event_t \<Rightarrow> status_t \<Rightarrow> status_t" where
  "get_heartbeat_status_promoting_new_file_metadata event received_status =
    (if event = received_heartbeat_event \<and> received_status = status_130 then status_131
     else if event = received_heartbeat_event \<and> received_status = status_131 then status_131
     else if event = received_heartbeat_event \<and> received_status = status_134 then status_135
     else if event = timing_offset_elapsed_event \<and> received_status = status_132 then status_111
     else if event = new_local_file_event \<and> received_status = status_300 then status_131
     else if event = new_local_file_with_more_event \<and> received_status = status_304 then status_131
     else if event = new_local_file_event \<and> received_status = status_320 then status_131
     else if event = new_local_file_with_more_event \<and> received_status = status_324 then status_131
     else if event = interrupt_event \<and> received_status = status_500 then status_500
     else NULL_status)"

definition get_heartbeat_status_promoting_new_file_metadata_with_more :: "event_t \<Rightarrow> status_t \<Rightarrow> status_t" where
  "get_heartbeat_status_promoting_new_file_metadata_with_more event received_status =
    (if event = received_heartbeat_event \<and> received_status = status_134 then status_135
     else if event = received_heartbeat_event \<and> received_status = status_135 then status_135
     else if event = timing_offset_elapsed_event \<and> received_status = status_136 then status_115
     else if event = new_local_file_event \<and> received_status = status_300 then status_135
     else if event = new_local_file_with_more_event \<and> received_status = status_304 then status_135
     else if event = new_local_file_event \<and> received_status = status_320 then status_135
     else if event = new_local_file_with_more_event \<and> received_status = status_324 then status_135
     else if event = interrupt_event \<and> received_status = status_500 then status_500
     else NULL_status)"

definition get_heartbeat_status_receiving_file_metadata_change :: "event_t \<Rightarrow> status_t \<Rightarrow> status_t" where
  "get_heartbeat_status_receiving_file_metadata_change event received_status =
    (if event = received_heartbeat_event \<and> received_status = status_170 then status_171
     else if event = received_heartbeat_event \<and> received_status = status_171 then status_171
     else if event = received_heartbeat_event \<and> received_status = status_175 then status_171
     else if event = received_heartbeat_event \<and> received_status = status_141 then status_171
     else if event = all_metadata_received_event \<and> received_status = status_173 then status_141
     else if event = new_local_file_event \<and> received_status = status_300 then status_171
     else if event = new_local_file_with_more_event \<and> received_status = status_304 then status_171
     else if event = new_local_file_event \<and> received_status = status_320 then status_171
     else if event = new_local_file_with_more_event \<and> received_status = status_324 then status_171
     else if event = interrupt_event \<and> received_status = status_500 then status_500
     else NULL_status)"

definition get_heartbeat_status_receiving_file_metadata_change_with_more :: "event_t \<Rightarrow> status_t \<Rightarrow> status_t" where
  "get_heartbeat_status_receiving_file_metadata_change_with_more event received_status =
    (if event = received_heartbeat_event \<and> received_status = status_174 then status_175
     else if event = received_heartbeat_event \<and> received_status = status_175 then status_175
     else if event = received_heartbeat_event \<and> received_status = status_141 then status_175
     else if event = all_metadata_received_event \<and> received_status = status_173 then status_141
     else if event = new_local_file_event \<and> received_status = status_300 then status_175
     else if event = new_local_file_with_more_event \<and> received_status = status_304 then status_175
     else if event = new_local_file_event \<and> received_status = status_320 then status_175
     else if event = new_local_file_with_more_event \<and> received_status = status_324 then status_175
     else if event = interrupt_event \<and> received_status = status_500 then status_500
     else NULL_status)"

definition get_heartbeat_status_sending_fake_file :: "event_t \<Rightarrow> status_t \<Rightarrow> status_t" where
  "get_heartbeat_status_sending_fake_file event received_status =
    (if event = file_send_tick_event \<and> received_status = status_112 then status_210
     else if event = received_heartbeat_event \<and> received_status = status_110 then status_111
     else if event = received_heartbeat_event \<and> received_status = status_111 then status_111
     else if event = received_heartbeat_event \<and> received_status = status_140 then status_111
     else if event = received_file_data_event \<and> received_status = status_200 then status_111
     else if event = all_data_received_event \<and> received_status = status_113 then status_140
     else if event = new_local_file_event \<and> received_status = status_300 then status_111
     else if event = new_local_file_with_more_event \<and> received_status = status_304 then status_111
     else if event = new_local_file_event \<and> received_status = status_320 then status_111
     else if event = new_local_file_with_more_event \<and> received_status = status_324 then status_111
     else if event = received_heartbeat_event \<and> received_status = status_410 then status_410
     else if event = node_only_sends_heartbeats_event \<and> received_status = status_100 then status_410
     else if event = interrupt_event \<and> received_status = status_500 then status_500
     else NULL_status)"

definition get_heartbeat_status_sending_fake_file_with_more_alpha :: "event_t \<Rightarrow> status_t \<Rightarrow> status_t" where
  "get_heartbeat_status_sending_fake_file_with_more_alpha event received_status =
    (if event = file_send_tick_event \<and> received_status = status_112 then status_210
     else if event = received_heartbeat_event \<and> received_status = status_114 then status_115
     else if event = received_heartbeat_event \<and> received_status = status_115 then status_115
     else if event = received_heartbeat_event \<and> received_status = status_145 then status_115
     else if event = received_file_data_event \<and> received_status = status_200 then status_115
     else if event = all_data_received_event \<and> received_status = status_113 then status_145
     else if event = new_local_file_event \<and> received_status = status_300 then status_115
     else if event = new_local_file_with_more_event \<and> received_status = status_304 then status_115
     else if event = new_local_file_event \<and> received_status = status_320 then status_115
     else if event = new_local_file_with_more_event \<and> received_status = status_324 then status_115
     else if event = received_heartbeat_event \<and> received_status = status_410 then status_410
     else if event = node_only_sends_heartbeats_event \<and> received_status = status_100 then status_410
     else if event = interrupt_event \<and> received_status = status_500 then status_500
     else NULL_status)"

definition get_heartbeat_status_sending_fake_file_with_more_beta :: "event_t \<Rightarrow> status_t \<Rightarrow> status_t" where
  "get_heartbeat_status_sending_fake_file_with_more_beta event received_status =
    (if event = file_send_tick_event \<and> received_status = status_112 then status_210
     else if event = received_heartbeat_event \<and> received_status = status_114 then status_117
     else if event = received_heartbeat_event \<and> received_status = status_117 then status_117
     else if event = received_heartbeat_event \<and> received_status = status_145 then status_117
     else if event = received_file_data_event \<and> received_status = status_200 then status_117
     else if event = all_data_received_event \<and> received_status = status_113 then status_147
     else if event = new_local_file_event \<and> received_status = status_300 then status_117
     else if event = new_local_file_with_more_event \<and> received_status = status_304 then status_117
     else if event = new_local_file_event \<and> received_status = status_320 then status_117
     else if event = new_local_file_with_more_event \<and> received_status = status_324 then status_117
     else if event = received_heartbeat_event \<and> received_status = status_410 then status_410
     else if event = node_only_sends_heartbeats_event \<and> received_status = status_100 then status_410
     else if event = interrupt_event \<and> received_status = status_500 then status_500
     else NULL_status)"

definition get_heartbeat_status_broadcasting_all_received :: "event_t \<Rightarrow> status_t \<Rightarrow> status_t" where
  "get_heartbeat_status_broadcasting_all_received event received_status =
    (if event = file_send_tick_event \<and> received_status = status_112 then status_210
     else if event = received_heartbeat_event \<and> received_status = status_110 then status_140
     else if event = received_heartbeat_event \<and> received_status = status_111 then status_140
     else if event = received_heartbeat_event \<and> received_status = status_140 then status_140
     else if event = received_heartbeat_event \<and> received_status = status_155 then status_155
     else if event = new_local_file_event \<and> received_status = status_300 then status_140
     else if event = new_local_file_with_more_event \<and> received_status = status_304 then status_140
     else if event = new_local_file_event \<and> received_status = status_320 then status_140
     else if event = new_local_file_with_more_event \<and> received_status = status_324 then status_140
     else if event = node_only_sends_heartbeats_event \<and> received_status = status_100 then status_410
     else if event = interrupt_event \<and> received_status = status_500 then status_500
     else NULL_status)"

definition get_heartbeat_status_broadcasting_all_received_with_more_alpha :: "event_t \<Rightarrow> status_t \<Rightarrow> status_t" where
  "get_heartbeat_status_broadcasting_all_received_with_more_alpha event received_status =
    (if event = file_send_tick_event \<and> received_status = status_112 then status_210
     else if event = received_heartbeat_event \<and> received_status = status_114 then status_145
     else if event = received_heartbeat_event \<and> received_status = status_115 then status_145
     else if event = received_heartbeat_event \<and> received_status = status_145 then status_145
     else if event = received_heartbeat_event \<and> received_status = status_150 then status_111
     else if event = received_heartbeat_event \<and> received_status = status_116 then status_117
     else if event = new_local_file_event \<and> received_status = status_300 then status_145
     else if event = new_local_file_with_more_event \<and> received_status = status_304 then status_145
     else if event = new_local_file_event \<and> received_status = status_320 then status_145
     else if event = new_local_file_with_more_event \<and> received_status = status_324 then status_145
     else if event = node_only_sends_heartbeats_event \<and> received_status = status_100 then status_410
     else if event = interrupt_event \<and> received_status = status_500 then status_500
     else NULL_status)"

definition get_heartbeat_status_broadcasting_all_received_with_more_beta :: "event_t \<Rightarrow> status_t \<Rightarrow> status_t" where
  "get_heartbeat_status_broadcasting_all_received_with_more_beta event received_status =
    (if event = file_send_tick_event \<and> received_status = status_112 then status_210
     else if event = received_heartbeat_event \<and> received_status = status_116 then status_147
     else if event = received_heartbeat_event \<and> received_status = status_117 then status_147
     else if event = received_heartbeat_event \<and> received_status = status_147 then status_147
     else if event = received_heartbeat_event \<and> received_status = status_150 then status_111
     else if event = received_heartbeat_event \<and> received_status = status_114 then status_115
     else if event = new_local_file_event \<and> received_status = status_300 then status_147
     else if event = new_local_file_with_more_event \<and> received_status = status_304 then status_147
     else if event = new_local_file_event \<and> received_status = status_320 then status_147
     else if event = new_local_file_with_more_event \<and> received_status = status_324 then status_147
     else if event = node_only_sends_heartbeats_event \<and> received_status = status_100 then status_410
     else if event = interrupt_event \<and> received_status = status_500 then status_500
     else NULL_status)"

definition get_heartbeat_status_broadcasting_all_metadata_received :: "event_t \<Rightarrow> status_t \<Rightarrow> status_t" where
  "get_heartbeat_status_broadcasting_all_metadata_received event received_status =
    (if event = received_heartbeat_event \<and> received_status = status_170 then status_141
     else if event = received_heartbeat_event \<and> received_status = status_171 then status_141
     else if event = received_heartbeat_event \<and> received_status = status_141 then status_141
     else if event = received_heartbeat_event \<and> received_status = status_130 then status_131
     else if event = received_heartbeat_event \<and> received_status = status_134 then status_135
     else if event = received_heartbeat_event \<and> received_status = status_150 then status_150
     else if event = new_local_file_event \<and> received_status = status_300 then status_141
     else if event = new_local_file_with_more_event \<and> received_status = status_304 then status_141
     else if event = new_local_file_event \<and> received_status = status_320 then status_141
     else if event = new_local_file_with_more_event \<and> received_status = status_324 then status_141
     else if event = node_only_sends_heartbeats_event \<and> received_status = status_100 then status_410
     else if event = interrupt_event \<and> received_status = status_500 then status_500
     else NULL_status)"

definition get_heartbeat_status_syncing_stop :: "event_t \<Rightarrow> status_t \<Rightarrow> status_t" where
  "get_heartbeat_status_syncing_stop event received_status =
    (if event = file_send_tick_event \<and> received_status = status_112 then status_210
     else if event = received_heartbeat_event \<and> received_status = status_150 then status_155
     else if event = received_heartbeat_event \<and> received_status = status_155 then status_155
     else if event = timing_offset_elapsed_event \<and> received_status = status_156 then status_100
     else if event = interrupt_event \<and> received_status = status_500 then status_500
     else NULL_status)"

definition get_heartbeat_status_exit :: "event_t \<Rightarrow> status_t \<Rightarrow> status_t" where
  "get_heartbeat_status_exit event received_status =
    (if event = interrupt_event \<and> received_status = status_500 then status_500
     else NULL_status)"

definition get_heartbeat_status :: "state_t \<Rightarrow> event_t \<Rightarrow> status_t \<Rightarrow> status_t" where
  "get_heartbeat_status state event received_status =
    (if state = ready_state then get_heartbeat_status_ready event received_status
     else if state = announcing_new_file_state then get_heartbeat_status_announcing_new_file event received_status
     else if state = announcing_new_file_with_more_state then get_heartbeat_status_announcing_new_file_with_more event received_status
     else if state = announcing_file_metadata_change_state then get_heartbeat_status_announcing_file_metadata_change event received_status
     else if state = announcing_file_metadata_change_with_more_state then get_heartbeat_status_announcing_file_metadata_change_with_more event received_status
     else if state = sending_new_file_metadata_state then get_heartbeat_status_sending_new_file_metadata event received_status
     else if state = sending_new_file_metadata_with_more_state then get_heartbeat_status_sending_new_file_metadata_with_more event received_status
     else if state = sending_file_metadata_change_state then get_heartbeat_status_sending_file_metadata_change event received_status
     else if state = sending_file_metadata_change_with_more_state then get_heartbeat_status_sending_file_metadata_change_with_more event received_status
     else if state = sending_new_file_state then get_heartbeat_status_sending_new_file event received_status
     else if state = sending_new_file_with_more_alpha_state then get_heartbeat_status_sending_new_file_with_more_alpha event received_status
     else if state = sending_new_file_with_more_beta_state then get_heartbeat_status_sending_new_file_with_more_beta event received_status
     else if state = acknowledging_new_file_state then get_heartbeat_status_acknowledging_new_file event received_status
     else if state = acknowledging_new_file_with_more_state then get_heartbeat_status_acknowledging_new_file_with_more event received_status
     else if state = acknowledging_file_metadata_change_state then get_heartbeat_status_acknowledging_file_metadata_change event received_status
     else if state = acknowledging_file_metadata_change_with_more_state then get_heartbeat_status_acknowledging_file_metadata_change_with_more event received_status
     else if state = promoting_new_file_metadata_state then get_heartbeat_status_promoting_new_file_metadata event received_status
     else if state = promoting_new_file_metadata_with_more_state then get_heartbeat_status_promoting_new_file_metadata_with_more event received_status
     else if state = receiving_file_metadata_change_state then get_heartbeat_status_receiving_file_metadata_change event received_status
     else if state = receiving_file_metadata_change_with_more_state then get_heartbeat_status_receiving_file_metadata_change_with_more event received_status
     else if state = sending_fake_file_state then get_heartbeat_status_sending_fake_file event received_status
     else if state = sending_fake_file_with_more_alpha_state then get_heartbeat_status_sending_fake_file_with_more_alpha event received_status
     else if state = sending_fake_file_with_more_beta_state then get_heartbeat_status_sending_fake_file_with_more_beta event received_status
     else if state = broadcasting_all_received_state then get_heartbeat_status_broadcasting_all_received event received_status
     else if state = broadcasting_all_received_with_more_alpha_state then get_heartbeat_status_broadcasting_all_received_with_more_alpha event received_status
     else if state = broadcasting_all_received_with_more_beta_state then get_heartbeat_status_broadcasting_all_received_with_more_beta event received_status
     else if state = broadcasting_all_metadata_received_state then get_heartbeat_status_broadcasting_all_metadata_received event received_status
     else if state = syncing_stop_state then get_heartbeat_status_syncing_stop event received_status
     else if state = exit_state then get_heartbeat_status_exit event received_status
     else NULL_status)"

subsection \<open>\<open>get_new_state\<close>, one block per state\<close>

definition get_new_state_ready :: "event_t \<Rightarrow> status_t \<Rightarrow> state_t" where
  "get_new_state_ready event received_status =
    (if event = new_local_file_event \<and> received_status = status_300 then announcing_new_file_state
     else if event = new_local_file_with_more_event \<and> received_status = status_304 then announcing_new_file_with_more_state
     else if event = local_file_metadata_change_event \<and> received_status = status_320 then announcing_file_metadata_change_state
     else if event = local_file_metadata_change_with_more_event \<and> received_status = status_324 then announcing_file_metadata_change_with_more_state
     else if event = received_heartbeat_event \<and> received_status = status_100 then ready_state
     else if event = received_heartbeat_event \<and> received_status = status_120 then acknowledging_new_file_state
     else if event = received_heartbeat_event \<and> received_status = status_124 then acknowledging_new_file_with_more_state
     else if event = received_heartbeat_event \<and> received_status = status_160 then acknowledging_file_metadata_change_state
     else if event = received_heartbeat_event \<and> received_status = status_164 then acknowledging_file_metadata_change_with_more_state
     else if event = received_heartbeat_event \<and> received_status = status_150 then ready_state
     else if event = interrupt_event \<and> received_status = status_500 then exit_state
     else NULL_state)"

definition get_new_state_announcing_new_file :: "event_t \<Rightarrow> status_t \<Rightarrow> state_t" where
  "get_new_state_announcing_new_file event received_status =
    (if event = received_heartbeat_event \<and> received_status = status_121 then announcing_new_file_state
     else if event = all_nodes_replied_event \<and> received_status = status_122 then sending_new_file_metadata_state
     else if event = new_local_file_event \<and> received_status = status_300 then announcing_new_file_with_more_state
     else if event = new_local_file_reported_twice_event \<and> received_status = status_301 then announcing_new_file_state
     else if event = new_local_file_with_more_event \<and> received_status = status_304 then announcing_new_file_with_more_state
     else if event = local_file_metadata_change_event \<and> received_status = status_320 then announcing_file_metadata_change_with_more_state
     else if event = local_file_metadata_change_with_more_event \<and> received_status = status_324 then announcing_file_metadata_change_with_more_state
     else if event = interrupt_event \<and> received_status = status_500 then exit_state
     else NULL_state)"

definition get_new_state_announcing_new_file_with_more :: "event_t \<Rightarrow> status_t \<Rightarrow> state_t" where
  "get_new_state_announcing_new_file_with_more event received_status =
    (if event = received_heartbeat_event \<and> received_status = status_125 then announcing_new_file_with_more_state
     else if event = all_nodes_replied_event \<and> received_status = status_126 then sending_new_file_metadata_with_more_state
     else if event = new_local_file_event \<and> received_status = status_300 then announcing_new_file_with_more_state
     else if event = new_local_file_with_more_event \<and> received_status = status_304 then announcing_new_file_with_more_state
     else if event = local_file_metadata_change_event \<and> received_status = status_320 then announcing_file_metadata_change_with_more_state
     else if event = local_file_metadata_change_with_more_event \<and> received_status = status_324 then announcing_file_metadata_change_with_more_state
     else if event = interrupt_event \<and> received_status = status_500 then exit_state
     else NULL_state)"

definition get_new_state_announcing_file_metadata_change :: "event_t \<Rightarrow> status_t \<Rightarrow> state_t" where
  "get_new_state_announcing_file_metadata_change event received_status =
    (if event = received_heartbeat_event \<and> received_status = status_161 then announcing_file_metadata_change_state
     else if event = all_nodes_replied_event \<and> received_status = status_162 then sending_file_metadata_change_state
     else if event = new_local_file_event \<and> received_status = status_300 then announcing_file_metadata_change_with_more_state
     else if event = new_local_file_with_more_event \<and> received_status = status_304 then announcing_file_metadata_change_with_more_state
     else if event = local_file_metadata_change_event \<and> received_status = status_320 then announcing_file_metadata_change_with_more_state
     else if event = local_file_metadata_change_with_more_event \<and> received_status = status_324 then announcing_file_metadata_change_with_more_state
     else if event = interrupt_event \<and> received_status = status_500 then exit_state
     else NULL_state)"

definition get_new_state_announcing_file_metadata_change_with_more :: "event_t \<Rightarrow> status_t \<Rightarrow> state_t" where
  "get_new_state_announcing_file_metadata_change_with_more event received_status =
    (if event = received_heartbeat_event \<and> received_status = status_165 then announcing_file_metadata_change_with_more_state
     else if event = all_nodes_replied_event \<and> received_status = status_166 then sending_file_metadata_change_with_more_state
     else if event = new_local_file_event \<and> received_status = status_300 then announcing_file_metadata_change_with_more_state
     else if event = new_local_file_with_more_event \<and> received_status = status_304 then announcing_file_metadata_change_with_more_state
     else if event = local_file_metadata_change_event \<and> received_status = status_320 then announcing_file_metadata_change_with_more_state
     else if event = local_file_metadata_change_with_more_event \<and> received_status = status_324 then announcing_file_metadata_change_with_more_state
     else if event = interrupt_event \<and> received_status = status_500 then exit_state
     else NULL_state)"

definition get_new_state_sending_new_file_metadata :: "event_t \<Rightarrow> status_t \<Rightarrow> state_t" where
  "get_new_state_sending_new_file_metadata event received_status =
    (if event = received_heartbeat_event \<and> received_status = status_131 then sending_new_file_metadata_state
     else if event = timing_offset_elapsed_event \<and> received_status = status_132 then sending_new_file_state
     else if event = new_local_file_event \<and> received_status = status_300 then sending_new_file_metadata_state
     else if event = new_local_file_with_more_event \<and> received_status = status_304 then sending_new_file_metadata_state
     else if event = local_file_metadata_change_event \<and> received_status = status_320 then sending_new_file_metadata_state
     else if event = local_file_metadata_change_with_more_event \<and> received_status = status_324 then sending_new_file_metadata_state
     else if event = interrupt_event \<and> received_status = status_500 then exit_state
     else NULL_state)"

definition get_new_state_sending_new_file_metadata_with_more :: "event_t \<Rightarrow> status_t \<Rightarrow> state_t" where
  "get_new_state_sending_new_file_metadata_with_more event received_status =
    (if event = received_heartbeat_event \<and> received_status = status_135 then sending_new_file_metadata_with_more_state
     else if event = timing_offset_elapsed_event \<and> received_status = status_132 then sending_new_file_with_more_alpha_state
     else if event = new_local_file_event \<and> received_status = status_300 then sending_new_file_metadata_with_more_state
     else if event = new_local_file_with_more_event \<and> received_status = status_304 then sending_new_file_metadata_with_more_state
     else if event = local_file_metadata_change_event \<and> received_status = status_320 then sending_new_file_metadata_with_more_state
     else if event = local_file_metadata_change_with_more_event \<and> received_status = status_324 then sending_new_file_metadata_with_more_state
     else if event = interrupt_event \<and> received_status = status_500 then exit_state
     else NULL_state)"

definition get_new_state_sending_file_metadata_change :: "event_t \<Rightarrow> status_t \<Rightarrow> state_t" where
  "get_new_state_sending_file_metadata_change event received_status =
    (if event = received_heartbeat_event \<and> received_status = status_171 then sending_file_metadata_change_state
     else if event = received_heartbeat_event \<and> received_status = status_141 then sending_file_metadata_change_state
     else if event = all_nodes_have_file_event \<and> received_status = status_172 then ready_state
     else if event = new_local_file_event \<and> received_status = status_300 then sending_file_metadata_change_state
     else if event = new_local_file_with_more_event \<and> received_status = status_304 then sending_file_metadata_change_state
     else if event = local_file_metadata_change_event \<and> received_status = status_320 then sending_file_metadata_change_state
     else if event = local_file_metadata_change_with_more_event \<and> received_status = status_324 then sending_file_metadata_change_state
     else if event = interrupt_event \<and> received_status = status_500 then exit_state
     else NULL_state)"

definition get_new_state_sending_file_metadata_change_with_more :: "event_t \<Rightarrow> status_t \<Rightarrow> state_t" where
  "get_new_state_sending_file_metadata_change_with_more event received_status =
    (if event = received_heartbeat_event \<and> received_status = status_175 then sending_file_metadata_change_with_more_state
     else if event = received_heartbeat_event \<and> received_status = status_141 then sending_file_metadata_change_with_more_state
     else if event = all_nodes_have_all_files_event \<and> received_status = status_172 then ready_state
     else if event = all_nodes_have_all_metadata_changes_with_more_event \<and> received_status = status_177 then sending_new_file_metadata_state
     else if event = all_nodes_have_all_metadata_changes_with_more_event \<and> received_status = status_178 then sending_new_file_metadata_with_more_state
     else if event = new_local_file_event \<and> received_status = status_300 then sending_file_metadata_change_with_more_state
     else if event = new_local_file_with_more_event \<and> received_status = status_304 then sending_file_metadata_change_with_more_state
     else if event = local_file_metadata_change_event \<and> received_status = status_320 then sending_file_metadata_change_with_more_state
     else if event = local_file_metadata_change_with_more_event \<and> received_status = status_324 then sending_file_metadata_change_with_more_state
     else if event = interrupt_event \<and> received_status = status_500 then exit_state
     else NULL_state)"

definition get_new_state_sending_new_file :: "event_t \<Rightarrow> status_t \<Rightarrow> state_t" where
  "get_new_state_sending_new_file event received_status =
    (if event = file_send_tick_event \<and> received_status = status_112 then sending_new_file_state
     else if event = received_heartbeat_event \<and> received_status = status_111 then sending_new_file_state
     else if event = received_heartbeat_event \<and> received_status = status_140 then sending_new_file_state
     else if event = received_fake_file_data_event \<and> received_status = status_210 then sending_new_file_state
     else if event = all_nodes_have_file_event \<and> received_status = status_142 then syncing_stop_state
     else if event = new_local_file_event \<and> received_status = status_300 then sending_new_file_state
     else if event = new_local_file_with_more_event \<and> received_status = status_304 then sending_new_file_state
     else if event = local_file_metadata_change_event \<and> received_status = status_320 then sending_new_file_state
     else if event = local_file_metadata_change_with_more_event \<and> received_status = status_324 then sending_new_file_state
     else if event = received_heartbeat_event \<and> received_status = status_410 then ready_state
     else if event = node_only_sends_heartbeats_event \<and> received_status = status_100 then ready_state
     else if event = interrupt_event \<and> received_status = status_500 then exit_state
     else NULL_state)"

definition get_new_state_sending_new_file_with_more_alpha :: "event_t \<Rightarrow> status_t \<Rightarrow> state_t" where
  "get_new_state_sending_new_file_with_more_alpha event received_status =
    (if event = file_send_tick_event \<and> received_status = status_112 then sending_new_file_with_more_alpha_state
     else if event = received_heartbeat_event \<and> received_status = status_115 then sending_new_file_with_more_alpha_state
     else if event = received_heartbeat_event \<and> received_status = status_140 then sending_new_file_with_more_alpha_state
     else if event = received_fake_file_data_event \<and> received_status = status_210 then sending_new_file_with_more_alpha_state
     else if event = all_nodes_have_file_event \<and> received_status = status_142 then sending_new_file_state
     else if event = all_nodes_have_file_with_more_event \<and> received_status = status_146 then sending_new_file_with_more_beta_state
     else if event = new_local_file_event \<and> received_status = status_300 then sending_new_file_with_more_alpha_state
     else if event = new_local_file_with_more_event \<and> received_status = status_304 then sending_new_file_with_more_alpha_state
     else if event = local_file_metadata_change_event \<and> received_status = status_320 then sending_new_file_with_more_alpha_state
     else if event = local_file_metadata_change_with_more_event \<and> received_status = status_324 then sending_new_file_with_more_alpha_state
     else if event = received_heartbeat_event \<and> received_status = status_410 then ready_state
     else if event = node_only_sends_heartbeats_event \<and> received_status = status_100 then ready_state
     else if event = interrupt_event \<and> received_status = status_500 then exit_state
     else NULL_state)"

definition get_new_state_sending_new_file_with_more_beta :: "event_t \<Rightarrow> status_t \<Rightarrow> state_t" where
  "get_new_state_sending_new_file_with_more_beta event received_status =
    (if event = file_send_tick_event \<and> received_status = status_112 then sending_new_file_with_more_beta_state
     else if event = received_heartbeat_event \<and> received_status = status_115 then sending_new_file_with_more_beta_state
     else if event = received_heartbeat_event \<and> received_status = status_140 then sending_new_file_with_more_beta_state
     else if event = received_fake_file_data_event \<and> received_status = status_210 then sending_new_file_with_more_beta_state
     else if event = all_nodes_have_file_event \<and> received_status = status_142 then sending_new_file_state
     else if event = all_nodes_have_file_with_more_event \<and> received_status = status_146 then sending_new_file_with_more_alpha_state
     else if event = new_local_file_event \<and> received_status = status_300 then sending_new_file_with_more_beta_state
     else if event = new_local_file_with_more_event \<and> received_status = status_304 then sending_new_file_with_more_beta_state
     else if event = local_file_metadata_change_event \<and> received_status = status_320 then sending_new_file_with_more_beta_state
     else if event = local_file_metadata_change_with_more_event \<and> received_status = status_324 then sending_new_file_with_more_beta_state
     else if event = received_heartbeat_event \<and> received_status = status_410 then ready_state
     else if event = node_only_sends_heartbeats_event \<and> received_status = status_100 then ready_state
     else if event = interrupt_event \<and> received_status = status_500 then exit_state
     else NULL_state)"

definition get_new_state_acknowledging_new_file :: "event_t \<Rightarrow> status_t \<Rightarrow> state_t" where
  "get_new_state_acknowledging_new_file event received_status =
    (if event = received_heartbeat_event \<and> received_status = status_130 then promoting_new_file_metadata_state
     else if event = received_heartbeat_event \<and> received_status = status_120 then acknowledging_new_file_state
     else if event = received_heartbeat_event \<and> received_status = status_121 then acknowledging_new_file_state
     else if event = received_heartbeat_event \<and> received_status = status_124 then acknowledging_new_file_with_more_state
     else if event = new_local_file_event \<and> received_status = status_300 then acknowledging_new_file_state
     else if event = new_local_file_with_more_event \<and> received_status = status_304 then acknowledging_new_file_state
     else if event = local_file_metadata_change_event \<and> received_status = status_320 then acknowledging_new_file_state
     else if event = local_file_metadata_change_with_more_event \<and> received_status = status_324 then acknowledging_new_file_state
     else if event = interrupt_event \<and> received_status = status_500 then exit_state
     else NULL_state)"

definition get_new_state_acknowledging_new_file_with_more :: "event_t \<Rightarrow> status_t \<Rightarrow> state_t" where
  "get_new_state_acknowledging_new_file_with_more event received_status =
    (if event = received_heartbeat_event \<and> received_status = status_134 then promoting_new_file_metadata_with_more_state
     else if event = received_heartbeat_event \<and> received_status = status_124 then acknowledging_new_file_with_more_state
     else if event = received_heartbeat_event \<and> received_status = status_125 then acknowledging_new_file_with_more_state
     else if event = new_local_file_event \<and> received_status = status_300 then acknowledging_new_file_with_more_state
     else if event = new_local_file_with_more_event \<and> received_status = status_304 then acknowledging_new_file_with_more_state
     else if event = local_file_metadata_change_event \<and> received_status = status_320 then acknowledging_new_file_with_more_state
     else if event = local_file_metadata_change_with_more_event \<and> received_status = status_324 then acknowledging_new_file_with_more_state
     else if event = interrupt_event \<and> received_status = status_500 then exit_state
     else NULL_state)"

definition get_new_state_acknowledging_file_metadata_change :: "event_t \<Rightarrow> status_t \<Rightarrow> state_t" where
  "get_new_state_acknowledging_file_metadata_change event received_status =
    (if event = received_heartbeat_event \<and> received_status = status_170 then receiving_file_metadata_change_state
     else if event = received_heartbeat_event \<and> received_status = status_160 then acknowledging_file_metadata_change_state
     else if event = received_heartbeat_event \<and> received_status = status_161 then acknowledging_file_metadata_change_state
     else if event = received_heartbeat_event \<and> received_status = status_164 then acknowledging_file_metadata_change_with_more_state
     else if event = new_local_file_event \<and> received_status = status_300 then acknowledging_file_metadata_change_state
     else if event = new_local_file_with_more_event \<and> received_status = status_304 then acknowledging_file_metadata_change_state
     else if event = new_local_file_event \<and> received_status = status_320 then acknowledging_file_metadata_change_state
     else if event = new_local_file_with_more_event \<and> received_status = status_324 then acknowledging_file_metadata_change_state
     else if event = interrupt_event \<and> received_status = status_500 then exit_state
     else NULL_state)"

definition get_new_state_acknowledging_file_metadata_change_with_more :: "event_t \<Rightarrow> status_t \<Rightarrow> state_t" where
  "get_new_state_acknowledging_file_metadata_change_with_more event received_status =
    (if event = received_heartbeat_event \<and> received_status = status_174 then receiving_file_metadata_change_with_more_state
     else if event = received_heartbeat_event \<and> received_status = status_164 then acknowledging_file_metadata_change_with_more_state
     else if event = received_heartbeat_event \<and> received_status = status_165 then acknowledging_file_metadata_change_with_more_state
     else if event = new_local_file_event \<and> received_status = status_300 then acknowledging_file_metadata_change_with_more_state
     else if event = new_local_file_with_more_event \<and> received_status = status_304 then acknowledging_file_metadata_change_with_more_state
     else if event = new_local_file_event \<and> received_status = status_320 then acknowledging_file_metadata_change_with_more_state
     else if event = new_local_file_with_more_event \<and> received_status = status_324 then acknowledging_file_metadata_change_with_more_state
     else if event = interrupt_event \<and> received_status = status_500 then exit_state
     else NULL_state)"

definition get_new_state_promoting_new_file_metadata :: "event_t \<Rightarrow> status_t \<Rightarrow> state_t" where
  "get_new_state_promoting_new_file_metadata event received_status =
    (if event = received_heartbeat_event \<and> received_status = status_130 then promoting_new_file_metadata_state
     else if event = received_heartbeat_event \<and> received_status = status_131 then promoting_new_file_metadata_state
     else if event = received_heartbeat_event \<and> received_status = status_134 then promoting_new_file_metadata_with_more_state
     else if event = timing_offset_elapsed_event \<and> received_status = status_132 then sending_fake_file_state
     else if event = new_local_file_event \<and> received_status = status_300 then promoting_new_file_metadata_state
     else if event = new_local_file_with_more_event \<and> received_status = status_304 then promoting_new_file_metadata_state
     else if event = new_local_file_event \<and> received_status = status_320 then promoting_new_file_metadata_state
     else if event = new_local_file_with_more_event \<and> received_status = status_324 then promoting_new_file_metadata_state
     else if event = interrupt_event \<and> received_status = status_500 then exit_state
     else NULL_state)"

definition get_new_state_promoting_new_file_metadata_with_more :: "event_t \<Rightarrow> status_t \<Rightarrow> state_t" where
  "get_new_state_promoting_new_file_metadata_with_more event received_status =
    (if event = received_heartbeat_event \<and> received_status = status_134 then promoting_new_file_metadata_with_more_state
     else if event = received_heartbeat_event \<and> received_status = status_135 then promoting_new_file_metadata_with_more_state
     else if event = timing_offset_elapsed_event \<and> received_status = status_136 then sending_fake_file_with_more_alpha_state
     else if event = new_local_file_event \<and> received_status = status_300 then promoting_new_file_metadata_with_more_state
     else if event = new_local_file_with_more_event \<and> received_status = status_304 then promoting_new_file_metadata_with_more_state
     else if event = new_local_file_event \<and> received_status = status_320 then promoting_new_file_metadata_with_more_state
     else if event = new_local_file_with_more_event \<and> received_status = status_324 then promoting_new_file_metadata_with_more_state
     else if event = interrupt_event \<and> received_status = status_500 then exit_state
     else NULL_state)"

definition get_new_state_receiving_file_metadata_change :: "event_t \<Rightarrow> status_t \<Rightarrow> state_t" where
  "get_new_state_receiving_file_metadata_change event received_status =
    (if event = received_heartbeat_event \<and> received_status = status_170 then receiving_file_metadata_change_state
     else if event = received_heartbeat_event \<and> received_status = status_171 then receiving_file_metadata_change_state
     else if event = received_heartbeat_event \<and> received_status = status_175 then receiving_file_metadata_change_with_more_state
     else if event = received_heartbeat_event \<and> received_status = status_141 then receiving_file_metadata_change_state
     else if event = all_metadata_received_event \<and> received_status = status_173 then broadcasting_all_metadata_received_state
     else if event = new_local_file_event \<and> received_status = status_300 then receiving_file_metadata_change_state
     else if event = new_local_file_with_more_event \<and> received_status = status_304 then receiving_file_metadata_change_state
     else if event = new_local_file_event \<and> received_status = status_320 then receiving_file_metadata_change_state
     else if event = new_local_file_with_more_event \<and> received_status = status_324 then receiving_file_metadata_change_state
     else if event = interrupt_event \<and> received_status = status_500 then exit_state
     else NULL_state)"

definition get_new_state_receiving_file_metadata_change_with_more :: "event_t \<Rightarrow> status_t \<Rightarrow> state_t" where
  "get_new_state_receiving_file_metadata_change_with_more event received_status =
    (if event = received_heartbeat_event \<and> received_status = status_174 then receiving_file_metadata_change_with_more_state
     else if event = received_heartbeat_event \<and> received_status = status_175 then receiving_file_metadata_change_with_more_state
     else if event = received_heartbeat_event \<and> received_status = status_141 then receiving_file_metadata_change_with_more_state
     else if event = all_metadata_received_event \<and> received_status = status_173 then broadcasting_all_metadata_received_state
     else if event = new_local_file_event \<and> received_status = status_300 then receiving_file_metadata_change_with_more_state
     else if event = new_local_file_with_more_event \<and> received_status = status_304 then receiving_file_metadata_change_with_more_state
     else if event = new_local_file_event \<and> received_status = status_320 then receiving_file_metadata_change_with_more_state
     else if event = new_local_file_with_more_event \<and> received_status = status_324 then receiving_file_metadata_change_with_more_state
     else if event = interrupt_event \<and> received_status = status_500 then exit_state
     else NULL_state)"

definition get_new_state_sending_fake_file :: "event_t \<Rightarrow> status_t \<Rightarrow> state_t" where
  "get_new_state_sending_fake_file event received_status =
    (if event = file_send_tick_event \<and> received_status = status_112 then sending_fake_file_state
     else if event = received_heartbeat_event \<and> received_status = status_110 then sending_fake_file_state
     else if event = received_heartbeat_event \<and> received_status = status_111 then sending_fake_file_state
     else if event = received_heartbeat_event \<and> received_status = status_140 then sending_fake_file_state
     else if event = received_file_data_event \<and> received_status = status_200 then sending_fake_file_state
     else if event = all_data_received_event \<and> received_status = status_113 then broadcasting_all_received_state
     else if event = new_local_file_event \<and> received_status = status_300 then sending_fake_file_state
     else if event = new_local_file_with_more_event \<and> received_status = status_304 then sending_fake_file_state
     else if event = new_local_file_event \<and> received_status = status_320 then sending_fake_file_state
     else if event = new_local_file_with_more_event \<and> received_status = status_324 then sending_fake_file_state
     else if event = received_heartbeat_event \<and> received_status = status_410 then ready_state
     else if event = node_only_sends_heartbeats_event \<and> received_status = status_100 then ready_state
     else if event = interrupt_event \<and> received_status = status_500 then exit_state
     else NULL_state)"

definition get_new_state_sending_fake_file_with_more_alpha :: "event_t \<Rightarrow> status_t \<Rightarrow> state_t" where
  "get_new_state_sending_fake_file_with_more_alpha event received_status =
    (if event = file_send_tick_event \<and> received_status = status_112 then sending_fake_file_with_more_alpha_state
     else if event = received_heartbeat_event \<and> received_status = status_114 then sending_fake_file_with_more_alpha_state
     else if event = received_heartbeat_event \<and> received_status = status_115 then sending_fake_file_with_more_alpha_state
     else if event = received_heartbeat_event \<and> received_status = status_145 then sending_fake_file_with_more_alpha_state
     else if event = received_file_data_event \<and> received_status = status_200 then sending_fake_file_with_more_alpha_state
     else if event = all_data_received_event \<and> received_status = status_113 then broadcasting_all_received_with_more_alpha_state
     else if event = new_local_file_event \<and> received_status = status_300 then sending_fake_file_with_more_alpha_state
     else if event = new_local_file_with_more_event \<and> received_status = status_304 then sending_fake_file_with_more_alpha_state
     else if event = new_local_file_event \<and> received_status = status_320 then sending_fake_file_with_more_alpha_state
     else if event = new_local_file_with_more_event \<and> received_status = status_324 then sending_fake_file_with_more_alpha_state
     else if event = received_heartbeat_event \<and> received_status = status_410 then ready_state
     else if event = node_only_sends_heartbeats_event \<and> received_status = status_100 then ready_state
     else if event = interrupt_event \<and> received_status = status_500 then exit_state
     else NULL_state)"

definition get_new_state_sending_fake_file_with_more_beta :: "event_t \<Rightarrow> status_t \<Rightarrow> state_t" where
  "get_new_state_sending_fake_file_with_more_beta event received_status =
    (if event = file_send_tick_event \<and> received_status = status_112 then sending_fake_file_with_more_beta_state
     else if event = received_heartbeat_event \<and> received_status = status_114 then sending_fake_file_with_more_beta_state
     else if event = received_heartbeat_event \<and> received_status = status_117 then sending_fake_file_with_more_beta_state
     else if event = received_heartbeat_event \<and> received_status = status_145 then sending_fake_file_with_more_beta_state
     else if event = received_file_data_event \<and> received_status = status_200 then sending_fake_file_with_more_beta_state
     else if event = all_data_received_event \<and> received_status = status_113 then broadcasting_all_received_with_more_beta_state
     else if event = new_local_file_event \<and> received_status = status_300 then sending_fake_file_with_more_beta_state
     else if event = new_local_file_with_more_event \<and> received_status = status_304 then sending_fake_file_with_more_beta_state
     else if event = new_local_file_event \<and> received_status = status_320 then sending_fake_file_with_more_beta_state
     else if event = new_local_file_with_more_event \<and> received_status = status_324 then sending_fake_file_with_more_beta_state
     else if event = received_heartbeat_event \<and> received_status = status_410 then ready_state
     else if event = node_only_sends_heartbeats_event \<and> received_status = status_100 then ready_state
     else if event = interrupt_event \<and> received_status = status_500 then exit_state
     else NULL_state)"

definition get_new_state_broadcasting_all_received :: "event_t \<Rightarrow> status_t \<Rightarrow> state_t" where
  "get_new_state_broadcasting_all_received event received_status =
    (if event = file_send_tick_event \<and> received_status = status_112 then broadcasting_all_received_state
     else if event = received_heartbeat_event \<and> received_status = status_110 then broadcasting_all_received_state
     else if event = received_heartbeat_event \<and> received_status = status_111 then broadcasting_all_received_state
     else if event = received_heartbeat_event \<and> received_status = status_140 then broadcasting_all_received_state
     else if event = received_heartbeat_event \<and> received_status = status_155 then syncing_stop_state
     else if event = new_local_file_event \<and> received_status = status_300 then broadcasting_all_received_state
     else if event = new_local_file_with_more_event \<and> received_status = status_304 then broadcasting_all_received_state
     else if event = new_local_file_event \<and> received_status = status_320 then broadcasting_all_received_state
     else if event = new_local_file_with_more_event \<and> received_status = status_324 then broadcasting_all_received_state
     else if event = node_only_sends_heartbeats_event \<and> received_status = status_100 then ready_state
     else if event = interrupt_event \<and> received_status = status_500 then exit_state
     else NULL_state)"

definition get_new_state_broadcasting_all_received_with_more_alpha :: "event_t \<Rightarrow> status_t \<Rightarrow> state_t" where
  "get_new_state_broadcasting_all_received_with_more_alpha event received_status =
    (if event = file_send_tick_event \<and> received_status = status_112 then broadcasting_all_received_with_more_alpha_state
     else if event = received_heartbeat_event \<and> received_status = status_114 then broadcasting_all_received_with_more_alpha_state
     else if event = received_heartbeat_event \<and> received_status = status_115 then broadcasting_all_received_with_more_alpha_state
     else if event = received_heartbeat_event \<and> received_status = status_145 then broadcasting_all_received_with_more_alpha_state
     else if event = received_heartbeat_event \<and> received_status = status_150 then sending_fake_file_state
     else if event = received_heartbeat_event \<and> received_status = status_116 then sending_fake_file_with_more_beta_state
     else if event = new_local_file_event \<and> received_status = status_300 then broadcasting_all_received_with_more_alpha_state
     else if event = new_local_file_with_more_event \<and> received_status = status_304 then broadcasting_all_received_with_more_alpha_state
     else if event = new_local_file_event \<and> received_status = status_320 then broadcasting_all_received_with_more_alpha_state
     else if event = new_local_file_with_more_event \<and> received_status = status_324 then broadcasting_all_received_with_more_alpha_state
     else if event = node_only_sends_heartbeats_event \<and> received_status = status_100 then ready_state
     else if event = interrupt_event \<and> received_status = status_500 then exit_state
     else NULL_state)"

definition get_new_state_broadcasting_all_received_with_more_beta :: "event_t \<Rightarrow> status_t \<Rightarrow> state_t" where
  "get_new_state_broadcasting_all_received_with_more_beta event received_status =
    (if event = file_send_tick_event \<and> received_status = status_112 then broadcasting_all_received_with_more_beta_state
     else if event = received_heartbeat_event \<and> received_status = status_116 then broadcasting_all_received_with_more_beta_state
     else if event = received_heartbeat_event \<and> received_status = status_117 then broadcasting_all_received_with_more_beta_state
     else if event = received_heartbeat_event \<and> received_status = status_147 then broadcasting_all_received_with_more_beta_state
     else if event = received_heartbeat_event \<and> received_status = status_150 then sending_fake_file_state
     else if event = received_heartbeat_event \<and> received_status = status_114 then sending_fake_file_with_more_alpha_state
     else if event = new_local_file_event \<and> received_status = status_300 then broadcasting_all_received_with_more_beta_state
     else if event = new_local_file_with_more_event \<and> received_status = status_304 then broadcasting_all_received_with_more_beta_state
     else if event = new_local_file_event \<and> received_status = status_320 then broadcasting_all_received_with_more_beta_state
     else if event = new_local_file_with_more_event \<and> received_status = status_324 then broadcasting_all_received_with_more_beta_state
     else if event = node_only_sends_heartbeats_event \<and> received_status = status_100 then ready_state
     else if event = interrupt_event \<and> received_status = status_500 then exit_state
     else NULL_state)"

definition get_new_state_broadcasting_all_metadata_received :: "event_t \<Rightarrow> status_t \<Rightarrow> state_t" where
  "get_new_state_broadcasting_all_metadata_received event received_status =
    (if event = received_heartbeat_event \<and> received_status = status_170 then broadcasting_all_metadata_received_state
     else if event = received_heartbeat_event \<and> received_status = status_171 then broadcasting_all_metadata_received_state
     else if event = received_heartbeat_event \<and> received_status = status_141 then broadcasting_all_metadata_received_state
     else if event = received_heartbeat_event \<and> received_status = status_130 then promoting_new_file_metadata_state
     else if event = received_heartbeat_event \<and> received_status = status_134 then promoting_new_file_metadata_with_more_state
     else if event = received_heartbeat_event \<and> received_status = status_150 then ready_state
     else if event = new_local_file_event \<and> received_status = status_300 then broadcasting_all_metadata_received_state
     else if event = new_local_file_with_more_event \<and> received_status = status_304 then broadcasting_all_metadata_received_state
     else if event = new_local_file_event \<and> received_status = status_320 then broadcasting_all_metadata_received_state
     else if event = new_local_file_with_more_event \<and> received_status = status_324 then broadcasting_all_metadata_received_state
     else if event = node_only_sends_heartbeats_event \<and> received_status = status_100 then ready_state
     else if event = interrupt_event \<and> received_status = status_500 then exit_state
     else NULL_state)"

definition get_new_state_syncing_stop :: "event_t \<Rightarrow> status_t \<Rightarrow> state_t" where
  "get_new_state_syncing_stop event received_status =
    (if event = file_send_tick_event \<and> received_status = status_112 then syncing_stop_state
     else if event = received_heartbeat_event \<and> received_status = status_150 then syncing_stop_state
     else if event = received_heartbeat_event \<and> received_status = status_155 then syncing_stop_state
     else if event = timing_offset_elapsed_event \<and> received_status = status_156 then ready_state
     else if event = interrupt_event \<and> received_status = status_500 then exit_state
     else NULL_state)"

definition get_new_state_exit :: "event_t \<Rightarrow> status_t \<Rightarrow> state_t" where
  "get_new_state_exit event received_status =
    (if event = interrupt_event \<and> received_status = status_500 then exit_state
     else NULL_state)"

definition get_new_state :: "state_t \<Rightarrow> event_t \<Rightarrow> status_t \<Rightarrow> state_t" where
  "get_new_state state event received_status =
    (if state = ready_state then get_new_state_ready event received_status
     else if state = announcing_new_file_state then get_new_state_announcing_new_file event received_status
     else if state = announcing_new_file_with_more_state then get_new_state_announcing_new_file_with_more event received_status
     else if state = announcing_file_metadata_change_state then get_new_state_announcing_file_metadata_change event received_status
     else if state = announcing_file_metadata_change_with_more_state then get_new_state_announcing_file_metadata_change_with_more event received_status
     else if state = sending_new_file_metadata_state then get_new_state_sending_new_file_metadata event received_status
     else if state = sending_new_file_metadata_with_more_state then get_new_state_sending_new_file_metadata_with_more event received_status
     else if state = sending_file_metadata_change_state then get_new_state_sending_file_metadata_change event received_status
     else if state = sending_file_metadata_change_with_more_state then get_new_state_sending_file_metadata_change_with_more event received_status
     else if state = sending_new_file_state then get_new_state_sending_new_file event received_status
     else if state = sending_new_file_with_more_alpha_state then get_new_state_sending_new_file_with_more_alpha event received_status
     else if state = sending_new_file_with_more_beta_state then get_new_state_sending_new_file_with_more_beta event received_status
     else if state = acknowledging_new_file_state then get_new_state_acknowledging_new_file event received_status
     else if state = acknowledging_new_file_with_more_state then get_new_state_acknowledging_new_file_with_more event received_status
     else if state = acknowledging_file_metadata_change_state then get_new_state_acknowledging_file_metadata_change event received_status
     else if state = acknowledging_file_metadata_change_with_more_state then get_new_state_acknowledging_file_metadata_change_with_more event received_status
     else if state = promoting_new_file_metadata_state then get_new_state_promoting_new_file_metadata event received_status
     else if state = promoting_new_file_metadata_with_more_state then get_new_state_promoting_new_file_metadata_with_more event received_status
     else if state = receiving_file_metadata_change_state then get_new_state_receiving_file_metadata_change event received_status
     else if state = receiving_file_metadata_change_with_more_state then get_new_state_receiving_file_metadata_change_with_more event received_status
     else if state = sending_fake_file_state then get_new_state_sending_fake_file event received_status
     else if state = sending_fake_file_with_more_alpha_state then get_new_state_sending_fake_file_with_more_alpha event received_status
     else if state = sending_fake_file_with_more_beta_state then get_new_state_sending_fake_file_with_more_beta event received_status
     else if state = broadcasting_all_received_state then get_new_state_broadcasting_all_received event received_status
     else if state = broadcasting_all_received_with_more_alpha_state then get_new_state_broadcasting_all_received_with_more_alpha event received_status
     else if state = broadcasting_all_received_with_more_beta_state then get_new_state_broadcasting_all_received_with_more_beta event received_status
     else if state = broadcasting_all_metadata_received_state then get_new_state_broadcasting_all_metadata_received event received_status
     else if state = syncing_stop_state then get_new_state_syncing_stop event received_status
     else if state = exit_state then get_new_state_exit event received_status
     else NULL_state)"

section \<open>Evaluation rules\<close>

lemma check_event_simps [fsm_simps]:
  "check_event ready_state e r = check_event_ready e r"
  "check_event announcing_new_file_state e r = check_event_announcing_new_file e r"
  "check_event announcing_new_file_with_more_state e r = check_event_announcing_new_file_with_more e r"
  "check_event announcing_file_metadata_change_state e r = check_event_announcing_file_metadata_change e r"
  "check_event announcing_file_metadata_change_with_more_state e r = check_event_announcing_file_metadata_change_with_more e r"
  "check_event sending_new_file_metadata_state e r = check_event_sending_new_file_metadata e r"
  "check_event sending_new_file_metadata_with_more_state e r = check_event_sending_new_file_metadata_with_more e r"
  "check_event sending_file_metadata_change_state e r = check_event_sending_file_metadata_change e r"
  "check_event sending_file_metadata_change_with_more_state e r = check_event_sending_file_metadata_change_with_more e r"
  "check_event sending_new_file_state e r = check_event_sending_new_file e r"
  "check_event sending_new_file_with_more_alpha_state e r = check_event_sending_new_file_with_more_alpha e r"
  "check_event sending_new_file_with_more_beta_state e r = check_event_sending_new_file_with_more_beta e r"
  "check_event acknowledging_new_file_state e r = check_event_acknowledging_new_file e r"
  "check_event acknowledging_new_file_with_more_state e r = check_event_acknowledging_new_file_with_more e r"
  "check_event acknowledging_file_metadata_change_state e r = check_event_acknowledging_file_metadata_change e r"
  "check_event acknowledging_file_metadata_change_with_more_state e r = check_event_acknowledging_file_metadata_change_with_more e r"
  "check_event promoting_new_file_metadata_state e r = check_event_promoting_new_file_metadata e r"
  "check_event promoting_new_file_metadata_with_more_state e r = check_event_promoting_new_file_metadata_with_more e r"
  "check_event receiving_file_metadata_change_state e r = check_event_receiving_file_metadata_change e r"
  "check_event receiving_file_metadata_change_with_more_state e r = check_event_receiving_file_metadata_change_with_more e r"
  "check_event sending_fake_file_state e r = check_event_sending_fake_file e r"
  "check_event sending_fake_file_with_more_alpha_state e r = check_event_sending_fake_file_with_more_alpha e r"
  "check_event sending_fake_file_with_more_beta_state e r = check_event_sending_fake_file_with_more_beta e r"
  "check_event broadcasting_all_received_state e r = check_event_broadcasting_all_received e r"
  "check_event broadcasting_all_received_with_more_alpha_state e r = check_event_broadcasting_all_received_with_more_alpha e r"
  "check_event broadcasting_all_received_with_more_beta_state e r = check_event_broadcasting_all_received_with_more_beta e r"
  "check_event broadcasting_all_metadata_received_state e r = check_event_broadcasting_all_metadata_received e r"
  "check_event syncing_stop_state e r = check_event_syncing_stop e r"
  "check_event exit_state e r = check_event_exit e r"
  "check_event NULL_state e r = False"
  by (simp_all add: check_event_def)

lemmas check_event_rows [fsm_rows] =
  check_event_ready_def
  check_event_announcing_new_file_def
  check_event_announcing_new_file_with_more_def
  check_event_announcing_file_metadata_change_def
  check_event_announcing_file_metadata_change_with_more_def
  check_event_sending_new_file_metadata_def
  check_event_sending_new_file_metadata_with_more_def
  check_event_sending_file_metadata_change_def
  check_event_sending_file_metadata_change_with_more_def
  check_event_sending_new_file_def
  check_event_sending_new_file_with_more_alpha_def
  check_event_sending_new_file_with_more_beta_def
  check_event_acknowledging_new_file_def
  check_event_acknowledging_new_file_with_more_def
  check_event_acknowledging_file_metadata_change_def
  check_event_acknowledging_file_metadata_change_with_more_def
  check_event_promoting_new_file_metadata_def
  check_event_promoting_new_file_metadata_with_more_def
  check_event_receiving_file_metadata_change_def
  check_event_receiving_file_metadata_change_with_more_def
  check_event_sending_fake_file_def
  check_event_sending_fake_file_with_more_alpha_def
  check_event_sending_fake_file_with_more_beta_def
  check_event_broadcasting_all_received_def
  check_event_broadcasting_all_received_with_more_alpha_def
  check_event_broadcasting_all_received_with_more_beta_def
  check_event_broadcasting_all_metadata_received_def
  check_event_syncing_stop_def
  check_event_exit_def

lemma get_action_simps [fsm_simps]:
  "get_action ready_state e r = get_action_ready e r"
  "get_action announcing_new_file_state e r = get_action_announcing_new_file e r"
  "get_action announcing_new_file_with_more_state e r = get_action_announcing_new_file_with_more e r"
  "get_action announcing_file_metadata_change_state e r = get_action_announcing_file_metadata_change e r"
  "get_action announcing_file_metadata_change_with_more_state e r = get_action_announcing_file_metadata_change_with_more e r"
  "get_action sending_new_file_metadata_state e r = get_action_sending_new_file_metadata e r"
  "get_action sending_new_file_metadata_with_more_state e r = get_action_sending_new_file_metadata_with_more e r"
  "get_action sending_file_metadata_change_state e r = get_action_sending_file_metadata_change e r"
  "get_action sending_file_metadata_change_with_more_state e r = get_action_sending_file_metadata_change_with_more e r"
  "get_action sending_new_file_state e r = get_action_sending_new_file e r"
  "get_action sending_new_file_with_more_alpha_state e r = get_action_sending_new_file_with_more_alpha e r"
  "get_action sending_new_file_with_more_beta_state e r = get_action_sending_new_file_with_more_beta e r"
  "get_action acknowledging_new_file_state e r = get_action_acknowledging_new_file e r"
  "get_action acknowledging_new_file_with_more_state e r = get_action_acknowledging_new_file_with_more e r"
  "get_action acknowledging_file_metadata_change_state e r = get_action_acknowledging_file_metadata_change e r"
  "get_action acknowledging_file_metadata_change_with_more_state e r = get_action_acknowledging_file_metadata_change_with_more e r"
  "get_action promoting_new_file_metadata_state e r = get_action_promoting_new_file_metadata e r"
  "get_action promoting_new_file_metadata_with_more_state e r = get_action_promoting_new_file_metadata_with_more e r"
  "get_action receiving_file_metadata_change_state e r = get_action_receiving_file_metadata_change e r"
  "get_action receiving_file_metadata_change_with_more_state e r = get_action_receiving_file_metadata_change_with_more e r"
  "get_action sending_fake_file_state e r = get_action_sending_fake_file e r"
  "get_action sending_fake_file_with_more_alpha_state e r = get_action_sending_fake_file_with_more_alpha e r"
  "get_action sending_fake_file_with_more_beta_state e r = get_action_sending_fake_file_with_more_beta e r"
  "get_action broadcasting_all_received_state e r = get_action_broadcasting_all_received e r"
  "get_action broadcasting_all_received_with_more_alpha_state e r = get_action_broadcasting_all_received_with_more_alpha e r"
  "get_action broadcasting_all_received_with_more_beta_state e r = get_action_broadcasting_all_received_with_more_beta e r"
  "get_action broadcasting_all_metadata_received_state e r = get_action_broadcasting_all_metadata_received e r"
  "get_action syncing_stop_state e r = get_action_syncing_stop e r"
  "get_action exit_state e r = get_action_exit e r"
  "get_action NULL_state e r = NULL_action"
  by (simp_all add: get_action_def)

lemmas get_action_rows [fsm_rows] =
  get_action_ready_def
  get_action_announcing_new_file_def
  get_action_announcing_new_file_with_more_def
  get_action_announcing_file_metadata_change_def
  get_action_announcing_file_metadata_change_with_more_def
  get_action_sending_new_file_metadata_def
  get_action_sending_new_file_metadata_with_more_def
  get_action_sending_file_metadata_change_def
  get_action_sending_file_metadata_change_with_more_def
  get_action_sending_new_file_def
  get_action_sending_new_file_with_more_alpha_def
  get_action_sending_new_file_with_more_beta_def
  get_action_acknowledging_new_file_def
  get_action_acknowledging_new_file_with_more_def
  get_action_acknowledging_file_metadata_change_def
  get_action_acknowledging_file_metadata_change_with_more_def
  get_action_promoting_new_file_metadata_def
  get_action_promoting_new_file_metadata_with_more_def
  get_action_receiving_file_metadata_change_def
  get_action_receiving_file_metadata_change_with_more_def
  get_action_sending_fake_file_def
  get_action_sending_fake_file_with_more_alpha_def
  get_action_sending_fake_file_with_more_beta_def
  get_action_broadcasting_all_received_def
  get_action_broadcasting_all_received_with_more_alpha_def
  get_action_broadcasting_all_received_with_more_beta_def
  get_action_broadcasting_all_metadata_received_def
  get_action_syncing_stop_def
  get_action_exit_def

lemma get_heartbeat_status_simps [fsm_simps]:
  "get_heartbeat_status ready_state e r = get_heartbeat_status_ready e r"
  "get_heartbeat_status announcing_new_file_state e r = get_heartbeat_status_announcing_new_file e r"
  "get_heartbeat_status announcing_new_file_with_more_state e r = get_heartbeat_status_announcing_new_file_with_more e r"
  "get_heartbeat_status announcing_file_metadata_change_state e r = get_heartbeat_status_announcing_file_metadata_change e r"
  "get_heartbeat_status announcing_file_metadata_change_with_more_state e r = get_heartbeat_status_announcing_file_metadata_change_with_more e r"
  "get_heartbeat_status sending_new_file_metadata_state e r = get_heartbeat_status_sending_new_file_metadata e r"
  "get_heartbeat_status sending_new_file_metadata_with_more_state e r = get_heartbeat_status_sending_new_file_metadata_with_more e r"
  "get_heartbeat_status sending_file_metadata_change_state e r = get_heartbeat_status_sending_file_metadata_change e r"
  "get_heartbeat_status sending_file_metadata_change_with_more_state e r = get_heartbeat_status_sending_file_metadata_change_with_more e r"
  "get_heartbeat_status sending_new_file_state e r = get_heartbeat_status_sending_new_file e r"
  "get_heartbeat_status sending_new_file_with_more_alpha_state e r = get_heartbeat_status_sending_new_file_with_more_alpha e r"
  "get_heartbeat_status sending_new_file_with_more_beta_state e r = get_heartbeat_status_sending_new_file_with_more_beta e r"
  "get_heartbeat_status acknowledging_new_file_state e r = get_heartbeat_status_acknowledging_new_file e r"
  "get_heartbeat_status acknowledging_new_file_with_more_state e r = get_heartbeat_status_acknowledging_new_file_with_more e r"
  "get_heartbeat_status acknowledging_file_metadata_change_state e r = get_heartbeat_status_acknowledging_file_metadata_change e r"
  "get_heartbeat_status acknowledging_file_metadata_change_with_more_state e r = get_heartbeat_status_acknowledging_file_metadata_change_with_more e r"
  "get_heartbeat_status promoting_new_file_metadata_state e r = get_heartbeat_status_promoting_new_file_metadata e r"
  "get_heartbeat_status promoting_new_file_metadata_with_more_state e r = get_heartbeat_status_promoting_new_file_metadata_with_more e r"
  "get_heartbeat_status receiving_file_metadata_change_state e r = get_heartbeat_status_receiving_file_metadata_change e r"
  "get_heartbeat_status receiving_file_metadata_change_with_more_state e r = get_heartbeat_status_receiving_file_metadata_change_with_more e r"
  "get_heartbeat_status sending_fake_file_state e r = get_heartbeat_status_sending_fake_file e r"
  "get_heartbeat_status sending_fake_file_with_more_alpha_state e r = get_heartbeat_status_sending_fake_file_with_more_alpha e r"
  "get_heartbeat_status sending_fake_file_with_more_beta_state e r = get_heartbeat_status_sending_fake_file_with_more_beta e r"
  "get_heartbeat_status broadcasting_all_received_state e r = get_heartbeat_status_broadcasting_all_received e r"
  "get_heartbeat_status broadcasting_all_received_with_more_alpha_state e r = get_heartbeat_status_broadcasting_all_received_with_more_alpha e r"
  "get_heartbeat_status broadcasting_all_received_with_more_beta_state e r = get_heartbeat_status_broadcasting_all_received_with_more_beta e r"
  "get_heartbeat_status broadcasting_all_metadata_received_state e r = get_heartbeat_status_broadcasting_all_metadata_received e r"
  "get_heartbeat_status syncing_stop_state e r = get_heartbeat_status_syncing_stop e r"
  "get_heartbeat_status exit_state e r = get_heartbeat_status_exit e r"
  "get_heartbeat_status NULL_state e r = NULL_status"
  by (simp_all add: get_heartbeat_status_def)

lemmas get_heartbeat_status_rows [fsm_rows] =
  get_heartbeat_status_ready_def
  get_heartbeat_status_announcing_new_file_def
  get_heartbeat_status_announcing_new_file_with_more_def
  get_heartbeat_status_announcing_file_metadata_change_def
  get_heartbeat_status_announcing_file_metadata_change_with_more_def
  get_heartbeat_status_sending_new_file_metadata_def
  get_heartbeat_status_sending_new_file_metadata_with_more_def
  get_heartbeat_status_sending_file_metadata_change_def
  get_heartbeat_status_sending_file_metadata_change_with_more_def
  get_heartbeat_status_sending_new_file_def
  get_heartbeat_status_sending_new_file_with_more_alpha_def
  get_heartbeat_status_sending_new_file_with_more_beta_def
  get_heartbeat_status_acknowledging_new_file_def
  get_heartbeat_status_acknowledging_new_file_with_more_def
  get_heartbeat_status_acknowledging_file_metadata_change_def
  get_heartbeat_status_acknowledging_file_metadata_change_with_more_def
  get_heartbeat_status_promoting_new_file_metadata_def
  get_heartbeat_status_promoting_new_file_metadata_with_more_def
  get_heartbeat_status_receiving_file_metadata_change_def
  get_heartbeat_status_receiving_file_metadata_change_with_more_def
  get_heartbeat_status_sending_fake_file_def
  get_heartbeat_status_sending_fake_file_with_more_alpha_def
  get_heartbeat_status_sending_fake_file_with_more_beta_def
  get_heartbeat_status_broadcasting_all_received_def
  get_heartbeat_status_broadcasting_all_received_with_more_alpha_def
  get_heartbeat_status_broadcasting_all_received_with_more_beta_def
  get_heartbeat_status_broadcasting_all_metadata_received_def
  get_heartbeat_status_syncing_stop_def
  get_heartbeat_status_exit_def

lemma get_new_state_simps [fsm_simps]:
  "get_new_state ready_state e r = get_new_state_ready e r"
  "get_new_state announcing_new_file_state e r = get_new_state_announcing_new_file e r"
  "get_new_state announcing_new_file_with_more_state e r = get_new_state_announcing_new_file_with_more e r"
  "get_new_state announcing_file_metadata_change_state e r = get_new_state_announcing_file_metadata_change e r"
  "get_new_state announcing_file_metadata_change_with_more_state e r = get_new_state_announcing_file_metadata_change_with_more e r"
  "get_new_state sending_new_file_metadata_state e r = get_new_state_sending_new_file_metadata e r"
  "get_new_state sending_new_file_metadata_with_more_state e r = get_new_state_sending_new_file_metadata_with_more e r"
  "get_new_state sending_file_metadata_change_state e r = get_new_state_sending_file_metadata_change e r"
  "get_new_state sending_file_metadata_change_with_more_state e r = get_new_state_sending_file_metadata_change_with_more e r"
  "get_new_state sending_new_file_state e r = get_new_state_sending_new_file e r"
  "get_new_state sending_new_file_with_more_alpha_state e r = get_new_state_sending_new_file_with_more_alpha e r"
  "get_new_state sending_new_file_with_more_beta_state e r = get_new_state_sending_new_file_with_more_beta e r"
  "get_new_state acknowledging_new_file_state e r = get_new_state_acknowledging_new_file e r"
  "get_new_state acknowledging_new_file_with_more_state e r = get_new_state_acknowledging_new_file_with_more e r"
  "get_new_state acknowledging_file_metadata_change_state e r = get_new_state_acknowledging_file_metadata_change e r"
  "get_new_state acknowledging_file_metadata_change_with_more_state e r = get_new_state_acknowledging_file_metadata_change_with_more e r"
  "get_new_state promoting_new_file_metadata_state e r = get_new_state_promoting_new_file_metadata e r"
  "get_new_state promoting_new_file_metadata_with_more_state e r = get_new_state_promoting_new_file_metadata_with_more e r"
  "get_new_state receiving_file_metadata_change_state e r = get_new_state_receiving_file_metadata_change e r"
  "get_new_state receiving_file_metadata_change_with_more_state e r = get_new_state_receiving_file_metadata_change_with_more e r"
  "get_new_state sending_fake_file_state e r = get_new_state_sending_fake_file e r"
  "get_new_state sending_fake_file_with_more_alpha_state e r = get_new_state_sending_fake_file_with_more_alpha e r"
  "get_new_state sending_fake_file_with_more_beta_state e r = get_new_state_sending_fake_file_with_more_beta e r"
  "get_new_state broadcasting_all_received_state e r = get_new_state_broadcasting_all_received e r"
  "get_new_state broadcasting_all_received_with_more_alpha_state e r = get_new_state_broadcasting_all_received_with_more_alpha e r"
  "get_new_state broadcasting_all_received_with_more_beta_state e r = get_new_state_broadcasting_all_received_with_more_beta e r"
  "get_new_state broadcasting_all_metadata_received_state e r = get_new_state_broadcasting_all_metadata_received e r"
  "get_new_state syncing_stop_state e r = get_new_state_syncing_stop e r"
  "get_new_state exit_state e r = get_new_state_exit e r"
  "get_new_state NULL_state e r = NULL_state"
  by (simp_all add: get_new_state_def)

lemmas get_new_state_rows [fsm_rows] =
  get_new_state_ready_def
  get_new_state_announcing_new_file_def
  get_new_state_announcing_new_file_with_more_def
  get_new_state_announcing_file_metadata_change_def
  get_new_state_announcing_file_metadata_change_with_more_def
  get_new_state_sending_new_file_metadata_def
  get_new_state_sending_new_file_metadata_with_more_def
  get_new_state_sending_file_metadata_change_def
  get_new_state_sending_file_metadata_change_with_more_def
  get_new_state_sending_new_file_def
  get_new_state_sending_new_file_with_more_alpha_def
  get_new_state_sending_new_file_with_more_beta_def
  get_new_state_acknowledging_new_file_def
  get_new_state_acknowledging_new_file_with_more_def
  get_new_state_acknowledging_file_metadata_change_def
  get_new_state_acknowledging_file_metadata_change_with_more_def
  get_new_state_promoting_new_file_metadata_def
  get_new_state_promoting_new_file_metadata_with_more_def
  get_new_state_receiving_file_metadata_change_def
  get_new_state_receiving_file_metadata_change_with_more_def
  get_new_state_sending_fake_file_def
  get_new_state_sending_fake_file_with_more_alpha_def
  get_new_state_sending_fake_file_with_more_beta_def
  get_new_state_broadcasting_all_received_def
  get_new_state_broadcasting_all_received_with_more_alpha_def
  get_new_state_broadcasting_all_received_with_more_beta_def
  get_new_state_broadcasting_all_metadata_received_def
  get_new_state_syncing_stop_def
  get_new_state_exit_def

end
