(* ===== verification/Flock_FSM_Laws.thy ===== *)
theory Flock_FSM_Laws
  imports Flock_FSM
begin

text \<open>
  What the tables of \<open>Flock_FSM\<close> satisfy. The interface the router relies on is the locale
  \<open>flock_tables\<close>: the four tables accept the same rows and the null state accepts none; its
  lemmas carry these laws over to runs of the machine. The abstract protocol is the relation
  \<open>role_step\<close> on the roles a node plays (idle, sender, receiver, stopping, exited), and
  every accepted row is one of its steps. The machine driven by statuses, the way
  \<^verbatim>\<open>Boxoffice::processEvent\<close> drives it, is \<open>fsm_step\<close>.
\<close>

section \<open>The machine driven by statuses\<close>

definition accepts :: "state_t \<Rightarrow> status_t \<Rightarrow> bool" where
  "accepts s r = check_event s (get_event_by_status_code r) r"

definition fsm_step :: "state_t \<Rightarrow> status_t \<Rightarrow> state_t" where
  "fsm_step s r =
    (if accepts s r then get_new_state s (get_event_by_status_code r) r else s)"

fun fsm_run :: "state_t \<Rightarrow> status_t list \<Rightarrow> state_t" where
  "fsm_run s [] = s"
| "fsm_run s (r # rs) = fsm_run (fsm_step s r) rs"

inductive fsm_reach :: "state_t \<Rightarrow> bool" where
  fsm_reach_start: "fsm_reach ready_state"
| fsm_reach_step: "fsm_reach s \<Longrightarrow> accepts s r \<Longrightarrow> fsm_reach (fsm_step s r)"

text \<open>Statuses that lead from \<open>ready_state\<close> to each state, and from each state back to
  \<open>ready_state\<close> without the abort status 410.\<close>
fun entry_path :: "state_t \<Rightarrow> status_t list" where
  "entry_path ready_state = []"
| "entry_path acknowledging_new_file_state = [status_120]"
| "entry_path acknowledging_new_file_with_more_state = [status_124]"
| "entry_path acknowledging_file_metadata_change_state = [status_160]"
| "entry_path acknowledging_file_metadata_change_with_more_state = [status_164]"
| "entry_path announcing_new_file_state = [status_300]"
| "entry_path announcing_new_file_with_more_state = [status_304]"
| "entry_path announcing_file_metadata_change_state = [status_320]"
| "entry_path announcing_file_metadata_change_with_more_state = [status_324]"
| "entry_path exit_state = [status_500]"
| "entry_path promoting_new_file_metadata_state = [status_120, status_130]"
| "entry_path promoting_new_file_metadata_with_more_state = [status_124, status_134]"
| "entry_path receiving_file_metadata_change_state = [status_160, status_170]"
| "entry_path receiving_file_metadata_change_with_more_state = [status_164, status_174]"
| "entry_path sending_new_file_metadata_state = [status_300, status_122]"
| "entry_path sending_new_file_metadata_with_more_state = [status_304, status_126]"
| "entry_path sending_file_metadata_change_state = [status_320, status_162]"
| "entry_path sending_file_metadata_change_with_more_state = [status_324, status_166]"
| "entry_path sending_fake_file_state = [status_120, status_130, status_132]"
| "entry_path sending_fake_file_with_more_alpha_state = [status_124, status_134, status_136]"
| "entry_path broadcasting_all_metadata_received_state = [status_160, status_170, status_173]"
| "entry_path sending_new_file_state = [status_300, status_122, status_132]"
| "entry_path sending_new_file_with_more_alpha_state = [status_304, status_126, status_132]"
| "entry_path broadcasting_all_received_state = [status_120, status_130, status_132, status_113]"
| "entry_path broadcasting_all_received_with_more_alpha_state = [status_124, status_134, status_136, status_113]"
| "entry_path syncing_stop_state = [status_300, status_122, status_132, status_142]"
| "entry_path sending_new_file_with_more_beta_state = [status_304, status_126, status_132, status_146]"
| "entry_path sending_fake_file_with_more_beta_state = [status_124, status_134, status_136, status_113, status_116]"
| "entry_path broadcasting_all_received_with_more_beta_state = [status_124, status_134, status_136, status_113, status_116, status_113]"
| "entry_path _ = []"

fun completion_path :: "state_t \<Rightarrow> status_t list" where
  "completion_path ready_state = []"
| "completion_path announcing_new_file_state = [status_122, status_132, status_142, status_156]"
| "completion_path announcing_new_file_with_more_state = [status_126, status_132, status_142, status_142, status_156]"
| "completion_path announcing_file_metadata_change_state = [status_162, status_172]"
| "completion_path announcing_file_metadata_change_with_more_state = [status_166, status_177, status_132, status_142, status_156]"
| "completion_path sending_new_file_metadata_state = [status_132, status_142, status_156]"
| "completion_path sending_new_file_metadata_with_more_state = [status_132, status_142, status_142, status_156]"
| "completion_path sending_file_metadata_change_state = [status_172]"
| "completion_path sending_file_metadata_change_with_more_state = [status_177, status_132, status_142, status_156]"
| "completion_path sending_new_file_state = [status_142, status_156]"
| "completion_path sending_new_file_with_more_alpha_state = [status_142, status_142, status_156]"
| "completion_path sending_new_file_with_more_beta_state = [status_142, status_142, status_156]"
| "completion_path acknowledging_new_file_state = [status_130, status_132, status_113, status_155, status_156]"
| "completion_path acknowledging_new_file_with_more_state = [status_134, status_136, status_113, status_150, status_113, status_155, status_156]"
| "completion_path acknowledging_file_metadata_change_state = [status_170, status_173, status_150]"
| "completion_path acknowledging_file_metadata_change_with_more_state = [status_174, status_173, status_150]"
| "completion_path promoting_new_file_metadata_state = [status_132, status_113, status_155, status_156]"
| "completion_path promoting_new_file_metadata_with_more_state = [status_136, status_113, status_150, status_113, status_155, status_156]"
| "completion_path receiving_file_metadata_change_state = [status_173, status_150]"
| "completion_path receiving_file_metadata_change_with_more_state = [status_173, status_150]"
| "completion_path sending_fake_file_state = [status_113, status_155, status_156]"
| "completion_path sending_fake_file_with_more_alpha_state = [status_113, status_150, status_113, status_155, status_156]"
| "completion_path sending_fake_file_with_more_beta_state = [status_113, status_150, status_113, status_155, status_156]"
| "completion_path broadcasting_all_received_state = [status_155, status_156]"
| "completion_path broadcasting_all_received_with_more_alpha_state = [status_150, status_113, status_155, status_156]"
| "completion_path broadcasting_all_received_with_more_beta_state = [status_150, status_113, status_155, status_156]"
| "completion_path broadcasting_all_metadata_received_state = [status_150]"
| "completion_path syncing_stop_state = [status_156]"
| "completion_path _ = []"

section \<open>The roles of a node\<close>

datatype role = Idle | Sender | Receiver | Stopping | Exited | Invalid

fun role_of :: "state_t \<Rightarrow> role" where
  "role_of NULL_state = Invalid"
| "role_of ready_state = Idle"
| "role_of announcing_new_file_state = Sender"
| "role_of announcing_new_file_with_more_state = Sender"
| "role_of announcing_file_metadata_change_state = Sender"
| "role_of announcing_file_metadata_change_with_more_state = Sender"
| "role_of sending_new_file_metadata_state = Sender"
| "role_of sending_new_file_metadata_with_more_state = Sender"
| "role_of sending_file_metadata_change_state = Sender"
| "role_of sending_file_metadata_change_with_more_state = Sender"
| "role_of sending_new_file_state = Sender"
| "role_of sending_new_file_with_more_alpha_state = Sender"
| "role_of sending_new_file_with_more_beta_state = Sender"
| "role_of syncing_stop_state = Stopping"
| "role_of exit_state = Exited"
| "role_of _ = Receiver"

definition local_event :: "event_t \<Rightarrow> bool" where
  "local_event e \<longleftrightarrow> e \<in> {new_local_file_event, new_local_file_with_more_event,
     local_file_metadata_change_event, local_file_metadata_change_with_more_event}"

inductive role_step :: "role \<Rightarrow> event_t \<Rightarrow> role \<Rightarrow> bool" where
  stay: "a \<noteq> Invalid \<Longrightarrow> role_step a e a"
| announce: "local_event e \<Longrightarrow> role_step Idle e Sender"
| follow: "role_step Idle received_heartbeat_event Receiver"
| sent: "e \<in> {received_heartbeat_event, all_nodes_have_file_event, all_nodes_have_all_files_event,
      node_only_sends_heartbeats_event} \<Longrightarrow> role_step Sender e Idle"
| received: "e \<in> {received_heartbeat_event, node_only_sends_heartbeats_event} \<Longrightarrow>
    role_step Receiver e Idle"
| stop_sender: "role_step Sender all_nodes_have_file_event Stopping"
| stop_receiver: "role_step Receiver received_heartbeat_event Stopping"
| resume: "role_step Stopping timing_offset_elapsed_event Idle"
| interrupt: "a \<noteq> Invalid \<Longrightarrow> role_step a interrupt_event Exited"

inductive_simps role_step_from_simps:
  "role_step Sender e b" "role_step Receiver e b" "role_step Stopping e b"
  "role_step Idle e b" "role_step Exited e b" "role_step Invalid e b"

section \<open>Laws of the tables\<close>

lemma check_event_iff_state:
  "check_event s e r \<longleftrightarrow> get_new_state s e r \<noteq> NULL_state"
  by (cases s) (simp_all add: fsm_simps fsm_rows)

lemma check_event_iff_action:
  "check_event s e r \<longleftrightarrow> get_action s e r \<noteq> NULL_action"
  by (cases s) (simp_all add: fsm_simps fsm_rows)

lemma check_event_iff_heartbeat:
  "check_event s e r \<longleftrightarrow> get_heartbeat_status s e r \<noteq> NULL_status"
  by (cases s) (simp_all add: fsm_simps fsm_rows)

lemma get_new_state_exit_iff:
  "get_new_state s e r = exit_state \<longleftrightarrow>
     s \<noteq> NULL_state \<and> e = interrupt_event \<and> r = status_500"
  by (cases s) (simp_all add: fsm_simps fsm_rows)

lemma get_action_exit_iff:
  "get_action s e r = exit_action \<longleftrightarrow>
     s \<noteq> NULL_state \<and> e = interrupt_event \<and> r = status_500"
  by (cases s) (simp_all add: fsm_simps fsm_rows)

lemma check_event_interrupt:
  "check_event s interrupt_event r \<longleftrightarrow> s \<noteq> NULL_state \<and> r = status_500"
  by (cases s) (simp_all add: fsm_simps fsm_rows)

lemma status_code_of_int [simp]: "status_code (status_of_int n) = n"
  by (simp add: status_of_int_def)

lemma status_of_int_code:
  "(\<And>n. s \<noteq> Other_status n) \<Longrightarrow> status_of_int (status_code s) = s"
  by (cases s) (simp_all add: status_of_int_def)

lemma get_new_state_role_step:
  "get_new_state s e r = NULL_state \<or> role_step (role_of s) e (role_of (get_new_state s e r))"
  by (cases s) (simp_all add: fsm_simps fsm_rows local_event_def role_step_from_simps)

section \<open>The interface of the tables\<close>

locale flock_tables =
  fixes check :: "'s \<Rightarrow> 'e \<Rightarrow> 'r \<Rightarrow> bool"
    and new_state :: "'s \<Rightarrow> 'e \<Rightarrow> 'r \<Rightarrow> 's"
    and null :: 's
    and event_of :: "'r \<Rightarrow> 'e"
  assumes check_new_state: "check s e r \<longleftrightarrow> new_state s e r \<noteq> null"
    and check_null: "\<not> check null e r"
begin

lemma accepted_not_null: "check s e r \<Longrightarrow> new_state s e r \<noteq> null"
  by (simp add: check_new_state)

lemma accepted_from_not_null: "check s e r \<Longrightarrow> s \<noteq> null"
  using check_null by blast

lemma step_not_null:
  "s \<noteq> null \<Longrightarrow> (if check s e r then new_state s e r else s) \<noteq> null"
  by (simp add: accepted_not_null)

lemma run_not_null:
  "s \<noteq> null \<Longrightarrow>
     foldl (\<lambda>s r. if check s (event_of r) r then new_state s (event_of r) r else s) s rs \<noteq> null"
proof (induction rs arbitrary: s)
  case Nil
  then show ?case by simp
next
  case (Cons r rs)
  from Cons.IH [OF step_not_null [OF Cons.prems]] show ?case by simp
qed

end

interpretation fsm: flock_tables check_event get_new_state NULL_state get_event_by_status_code
  by unfold_locales (rule check_event_iff_state, simp add: fsm_simps)

lemma fsm_run_foldl:
  "fsm_run s rs = foldl (\<lambda>s r. if check_event s (get_event_by_status_code r) r
     then get_new_state s (get_event_by_status_code r) r else s) s rs"
  by (induction rs arbitrary: s) (simp_all add: fsm_step_def accepts_def)

lemma fsm_step_not_null [simp]: "s \<noteq> NULL_state \<Longrightarrow> fsm_step s r \<noteq> NULL_state"
  unfolding fsm_step_def accepts_def by (rule fsm.step_not_null)

lemma fsm_run_append: "fsm_run s (xs @ ys) = fsm_run (fsm_run s xs) ys"
  by (induction xs arbitrary: s) simp_all

lemma fsm_reach_fsm_run: "fsm_reach s \<Longrightarrow> fsm_reach (fsm_run s rs)"
proof (induction rs arbitrary: s)
  case Nil
  then show ?case by simp
next
  case (Cons r rs)
  have "fsm_reach (fsm_step s r)"
    using Cons.prems fsm_reach_step [of s r] by (cases "accepts s r") (simp_all add: fsm_step_def)
  then show ?case by (simp add: Cons.IH)
qed

lemmas fsm_step_eval = fsm_step_def accepts_def get_event_by_status_code_def fsm_simps fsm_rows

section \<open>Properties\<close>

text \<open>C5. The four tables agree: an event with a status is accepted in a state exactly when the
  action table, the heartbeat table and the state table have an entry for it.\<close>

theorem tables_agree:
  "(check_event s e r \<longleftrightarrow> get_action s e r \<noteq> NULL_action) \<and>
   (check_event s e r \<longleftrightarrow> get_heartbeat_status s e r \<noteq> NULL_status) \<and>
   (check_event s e r \<longleftrightarrow> get_new_state s e r \<noteq> NULL_state)"
  using check_event_iff_action check_event_iff_heartbeat check_event_iff_state by blast

text \<open>C6. Every accepted row is a step of the abstract protocol of roles: a node becomes a sender
  only from idle on a local file event, a receiver only from idle on a heartbeat, and no row
  leads from sender to receiver or back.\<close>

theorem check_event_role_step:
  "check_event s e r \<Longrightarrow> role_step (role_of s) e (role_of (get_new_state s e r))"
  using get_new_state_role_step [of s e r] by (simp add: check_event_iff_state)

theorem check_event_role_step_witness:
  "role_step Idle new_local_file_event Sender"
  using check_event_role_step [of ready_state new_local_file_event status_300]
  by (simp add: fsm_simps fsm_rows)

text \<open>C7. The exit state is entered by the interrupt with status 500 and by nothing else, from every
  state of the machine, and the exit action is attached to exactly that row.\<close>

theorem exit_only_by_interrupt:
  "(get_new_state s e r = exit_state \<longleftrightarrow> s \<noteq> NULL_state \<and> e = interrupt_event \<and> r = status_500) \<and>
   (get_action s e r = exit_action \<longleftrightarrow> s \<noteq> NULL_state \<and> e = interrupt_event \<and> r = status_500)"
  by (simp add: get_new_state_exit_iff get_action_exit_iff)

text \<open>C8. No session gets stuck in the tables: from every state but the exit state, a sequence of
  statuses that needs neither the abort 410 nor the interrupt 500 leads back to \<open>ready_state\<close>.\<close>

theorem session_can_complete:
  "s \<noteq> NULL_state \<Longrightarrow> s \<noteq> exit_state \<Longrightarrow>
     fsm_run s (completion_path s) = ready_state \<and>
     set (completion_path s) \<inter> {status_410, status_500} = {}"
  by (cases s) (simp_all add: fsm_step_eval)

theorem session_can_complete_witness:
  "fsm_run sending_fake_file_with_more_alpha_state
     (completion_path sending_fake_file_with_more_alpha_state) = ready_state"
  using session_can_complete [of sending_fake_file_with_more_alpha_state] by simp

text \<open>C9. Exactly the states other than the null state are reached from \<open>ready_state\<close> by statuses the
  tables accept: the null state is never entered and no other state is dead.\<close>

theorem fsm_reach_iff: "fsm_reach s \<longleftrightarrow> s \<noteq> NULL_state"
proof
  assume "fsm_reach s"
  then show "s \<noteq> NULL_state" by induction simp_all
next
  assume "s \<noteq> NULL_state"
  then have "fsm_run ready_state (entry_path s) = s"
    by (cases s) (simp_all add: fsm_step_eval)
  then show "fsm_reach s"
    using fsm_reach_fsm_run [OF fsm_reach_start, of "entry_path s"] by simp
qed

end
