(* ===== verification/File.thy ===== *)
theory File
  imports Hash
begin

text \<open>
  The class \<^verbatim>\<open>File\<close> (\<^verbatim>\<open>include/file.hpp\<close>, \<^verbatim>\<open>src/file.cpp\<close>): the metadata of a file of
  a box, its wire format, and reading and writing its data in packages. The operating system's
  files as \<^verbatim>\<open>boost::filesystem\<close> and \<^verbatim>\<open>std::fstream\<close> reach them are a parameter: a state of
  type \<open>'fs\<close> and a record of operations on it, each given the C string of a path. An
  operation that throws returns the error only; what it changed before is not kept.
\<close>

section \<open>The file system\<close>

text \<open>\<open>fs_content\<close> is what a stream opened for reading and writing sees, \<open>None\<close> when it
  cannot be opened; \<open>fs_put\<close> replaces it. \<open>fs_create_empty\<close> is the constructor of an output
  stream, which creates or truncates and does not report failure.\<close>

record 'fs fs_api =
  fs_exists :: "'fs \<Rightarrow> string \<Rightarrow> bool result"
  fs_parent_path :: "string \<Rightarrow> string"
  fs_create_empty :: "'fs \<Rightarrow> string \<Rightarrow> 'fs"
  fs_create_directory :: "'fs \<Rightarrow> string \<Rightarrow> 'fs result"
  fs_remove :: "'fs \<Rightarrow> string \<Rightarrow> 'fs result"
  fs_last_write_time :: "'fs \<Rightarrow> string \<Rightarrow> int result"
  fs_set_last_write_time :: "'fs \<Rightarrow> string \<Rightarrow> int \<Rightarrow> 'fs result"
  fs_status :: "'fs \<Rightarrow> string \<Rightarrow> (u16 \<times> u8) result"
  fs_file_size :: "'fs \<Rightarrow> string \<Rightarrow> u64 result"
  fs_permissions :: "'fs \<Rightarrow> string \<Rightarrow> u16 \<Rightarrow> 'fs result"
  fs_resize_file :: "'fs \<Rightarrow> string \<Rightarrow> u64 \<Rightarrow> 'fs result"
  fs_content :: "'fs \<Rightarrow> string \<Rightarrow> string option"
  fs_put :: "'fs \<Rightarrow> string \<Rightarrow> string \<Rightarrow> 'fs"

definition NUL :: char where "NUL = CHR 0x00"

definition c_str :: "string \<Rightarrow> string" where
  "c_str s = takeWhile (\<lambda>c. c \<noteq> NUL) s"

text \<open>The overloads with an \<^verbatim>\<open>error_code\<close> do not throw: an error counts as absence.\<close>

definition exists_ec :: "'fs fs_api \<Rightarrow> 'fs \<Rightarrow> string \<Rightarrow> bool" where
  "exists_ec api fs p = (fs_exists api fs (c_str p) = Inr True)"

text \<open>The enumerators of \<^verbatim>\<open>boost::filesystem::file_type\<close> the code names.\<close>

definition regular_file :: u8 where "regular_file = 2"
definition directory_file :: u8 where "directory_file = 3"

definition is_regular_file :: "'fs fs_api \<Rightarrow> 'fs \<Rightarrow> string \<Rightarrow> bool result" where
  "is_regular_file api fs p = bindE (fs_status api fs (c_str p)) (\<lambda>(_, t). Inr (t = regular_file))"

section \<open>File streams\<close>

record fstream =
  st_open :: bool
  st_eof :: bool
  st_fail :: bool

definition fstream_closed :: fstream where
  "fstream_closed = \<lparr>st_open = False, st_eof = False, st_fail = False\<rparr>"

definition fstream_open :: "string option \<Rightarrow> fstream \<Rightarrow> fstream" where
  "fstream_open content st =
    (if st_open st \<or> content = None then st\<lparr>st_fail := True\<rparr>
     else \<lparr>st_open = True, st_eof = False, st_fail = False\<rparr>)"

definition fstream_close :: "fstream \<Rightarrow> fstream" where
  "fstream_close st = (if st_open st then st\<lparr>st_open := False\<rparr> else st\<lparr>st_fail := True\<rparr>)"

text \<open>\<^verbatim>\<open>seekg(off, beg)\<close> and \<^verbatim>\<open>read(data, n)\<close>: a short read leaves the stream failed, and a failed
  stream delivers nothing.\<close>

definition fstream_read :: "string option \<Rightarrow> fstream \<Rightarrow> int \<Rightarrow> nat \<Rightarrow> string \<times> fstream" where
  "fstream_read content st off n =
    (case content of
       None \<Rightarrow> ([], st\<lparr>st_eof := False, st_fail := True\<rparr>)
     | Some c \<Rightarrow>
         if st_fail st \<or> \<not> st_open st \<or> off < 0 then ([], st\<lparr>st_eof := False, st_fail := True\<rparr>)
         else let r = take n (drop (nat off) c) in
           (r, if length r < n then st\<lparr>st_eof := True, st_fail := True\<rparr> else st\<lparr>st_eof := False\<rparr>))"

definition splice :: "nat \<Rightarrow> string \<Rightarrow> string \<Rightarrow> string" where
  "splice off d c = take off (c @ replicate (off - length c) NUL) @ d @ drop (off + length d) c"

text \<open>\<^verbatim>\<open>seekp(off)\<close> and \<^verbatim>\<open>write(data, n)\<close>: the new content, if the write happens.\<close>

definition fstream_write :: "string option \<Rightarrow> fstream \<Rightarrow> int \<Rightarrow> string \<Rightarrow> string option \<times> fstream" where
  "fstream_write content st off d =
    (case content of
       None \<Rightarrow> (None, st\<lparr>st_fail := True\<rparr>)
     | Some c \<Rightarrow>
         if st_fail st \<or> st_eof st \<or> \<not> st_open st \<or> off < 0 then (None, st\<lparr>st_fail := True\<rparr>)
         else (Some (splice (nat off) d c), st))"

section \<open>The class\<close>

definition F_MAXIMUM_PATH_LENGTH :: nat where "F_MAXIMUM_PATH_LENGTH = 128"
definition F_MAXIMUM_FILE_PACKAGE_SIZE :: u64 where "F_MAXIMUM_FILE_PACKAGE_SIZE = 4096"

lemmas path_len = F_MAXIMUM_PATH_LENGTH_def
lemmas package_size = F_MAXIMUM_FILE_PACKAGE_SIZE_def

record File =
  f_box_path :: string
  f_box_hash :: "hash option"
  f_bpath :: string
  f_path :: string
  f_mode :: u16
  f_mtime :: u32
  f_type :: u8
  f_size :: u64
  f_deleted :: bool
  f_stream :: fstream

definition empty_path :: string where
  "empty_path = replicate F_MAXIMUM_PATH_LENGTH NUL"

definition File_default :: "string \<Rightarrow> hash option \<Rightarrow> File" where
  "File_default box_path box_hash =
    \<lparr>f_box_path = box_path, f_box_hash = box_hash, f_bpath = [], f_path = empty_path, f_mode = 0,
     f_mtime = 0, f_type = 0, f_size = 0, f_deleted = False, f_stream = fstream_closed\<rparr>"

text \<open>\<^verbatim>\<open>std::copy\<close> of a string into the array \<^verbatim>\<open>path_\<close>: past its end there is no meaning.\<close>

definition copy_path :: "string \<Rightarrow> File \<Rightarrow> File result" where
  "copy_path path f =
    (if length path \<le> F_MAXIMUM_PATH_LENGTH
     then Inr (f\<lparr>f_path := path @ drop (length path) (f_path f)\<rparr>)
     else Inl Undefined_behaviour)"

text \<open>\<^verbatim>\<open>back()\<close> and \<^verbatim>\<open>front()\<close> of an empty string have no meaning.\<close>

definition constructPath :: "string \<Rightarrow> string \<Rightarrow> string result" where
  "constructPath box_path path =
    (if box_path = [] \<or> path = [] then Inl Undefined_behaviour
     else if last box_path \<noteq> CHR ''/'' \<and> hd path \<noteq> CHR ''/'' then Inr (box_path @ CHR ''/'' # path)
     else if last box_path = CHR ''/'' \<and> hd path = CHR ''/'' then Inr (butlast box_path @ path)
     else Inr (box_path @ path))"

definition checkArguments :: "'fs fs_api \<Rightarrow> 'fs \<Rightarrow> string \<Rightarrow> string \<Rightarrow> u8 \<Rightarrow> bool \<Rightarrow> 'fs result" where
  "checkArguments api fs bpath path type create =
    (if length path > F_MAXIMUM_PATH_LENGTH then Inl Range_error
     else if exists_ec api fs bpath then Inr fs
     else if \<not> create then Inl Filesystem_error
     else if path = [] then Inl Undefined_behaviour
     else
       let parent = (if last path = CHR ''/'' then fs_parent_path api (fs_parent_path api bpath)
                     else fs_parent_path api bpath) in
       if \<not> exists_ec api fs parent then Inl Filesystem_error
       else if type = regular_file then Inr (fs_create_empty api fs (c_str bpath))
       else if type = directory_file then fs_create_directory api fs (c_str bpath)
       else Inl Filesystem_error)"

section \<open>Constructors\<close>

definition File_typed :: "'fs fs_api \<Rightarrow> 'fs \<Rightarrow> string \<Rightarrow> hash option \<Rightarrow> string \<Rightarrow> u8 \<Rightarrow> bool \<Rightarrow>
    (File \<times> 'fs) result" where
  "File_typed api fs box_path box_hash path type create =
    bindE (constructPath box_path path) (\<lambda>bpath.
    bindE (checkArguments api fs bpath path type create) (\<lambda>fs.
    bindE (copy_path path ((File_default box_path box_hash)\<lparr>f_bpath := bpath, f_type := type\<rparr>)) (\<lambda>f.
    bindE (fs_exists api fs (c_str bpath)) (\<lambda>ex.
    if ex \<or> \<not> create then
      bindE (fs_last_write_time api fs (c_str bpath)) (\<lambda>t.
      bindE (fs_status api fs (c_str bpath)) (\<lambda>(perms, _).
      bindE (is_regular_file api fs bpath) (\<lambda>reg.
      let f = f\<lparr>f_mtime := word_of_int t, f_mode := perms\<rparr> in
      if reg then bindE (fs_file_size api fs (c_str bpath)) (\<lambda>n. Inr (f\<lparr>f_size := n\<rparr>, fs))
      else Inr (f, fs))))
    else Inr (f, fs)))))"

definition storeMetadata :: "'fs fs_api \<Rightarrow> 'fs \<Rightarrow> File \<Rightarrow> 'fs result" where
  "storeMetadata api fs f =
    bindE (fs_permissions api fs (c_str (f_bpath f)) (f_mode f)) (\<lambda>fs.
      fs_set_last_write_time api fs (c_str (f_bpath f)) (uint (f_mtime f)))"

definition File_mode :: "'fs fs_api \<Rightarrow> 'fs \<Rightarrow> string \<Rightarrow> hash option \<Rightarrow> string \<Rightarrow> u16 \<Rightarrow> u8 \<Rightarrow> u32 \<Rightarrow> bool \<Rightarrow>
    (File \<times> 'fs) result" where
  "File_mode api fs box_path box_hash path mode type mtime create =
    bindE (constructPath box_path path) (\<lambda>bpath.
    bindE (checkArguments api fs bpath path type create) (\<lambda>fs.
    bindE (copy_path path ((File_default box_path box_hash)
        \<lparr>f_bpath := bpath, f_mode := mode, f_mtime := mtime, f_type := type\<rparr>)) (\<lambda>f.
    if create then bindE (storeMetadata api fs f) (\<lambda>fs. Inr (f, fs)) else Inr (f, fs))))"

definition resize :: "'fs fs_api \<Rightarrow> 'fs \<Rightarrow> File \<Rightarrow> u64 \<Rightarrow> (File \<times> 'fs) result" where
  "resize api fs f sz =
    (if f_type f = regular_file then
       (case fs_resize_file api fs (c_str (f_bpath f)) sz of
          Inl _ \<Rightarrow> Inl Filesystem_error
        | Inr fs \<Rightarrow> Inr (f\<lparr>f_size := sz\<rparr>, fs))
     else Inr (f, fs))"

definition resize_self :: "'fs fs_api \<Rightarrow> 'fs \<Rightarrow> File \<Rightarrow> (File \<times> 'fs) result" where
  "resize_self api fs f = resize api fs f (f_size f)"

definition File_copy :: "'fs fs_api \<Rightarrow> 'fs \<Rightarrow> string \<Rightarrow> hash option \<Rightarrow> string \<Rightarrow> File \<Rightarrow> bool \<Rightarrow>
    (File \<times> 'fs) result" where
  "File_copy api fs box_path box_hash path file create =
    bindE (constructPath box_path path) (\<lambda>bpath.
    bindE (checkArguments api fs bpath path (f_type file) create) (\<lambda>fs.
    bindE (copy_path path ((File_default box_path box_hash)\<lparr>f_bpath := bpath\<rparr>)) (\<lambda>f.
    let f = f\<lparr>f_type := f_type file, f_mode := f_mode file, f_mtime := f_mtime file\<rparr> in
    if create then bindE (storeMetadata api fs f) (\<lambda>fs. resize api fs f (f_size file))
    else Inr (f, fs))))"

definition File_path :: "'fs fs_api \<Rightarrow> 'fs \<Rightarrow> string \<Rightarrow> hash option \<Rightarrow> string \<Rightarrow> (File \<times> 'fs) result" where
  "File_path api fs box_path box_hash path =
    bindE (constructPath box_path path) (\<lambda>bpath.
    if \<not> exists_ec api fs bpath then Inl Filesystem_error
    else
      bindE (fs_last_write_time api fs (c_str bpath)) (\<lambda>t.
      bindE (fs_status api fs (c_str bpath)) (\<lambda>(perms, type).
      bindE (is_regular_file api fs bpath) (\<lambda>reg.
      bindE (if reg then fs_file_size api fs (c_str bpath) else Inr 0) (\<lambda>sz.
      bindE (checkArguments api fs bpath path type False) (\<lambda>fs.
      bindE (copy_path path ((File_default box_path box_hash)
          \<lparr>f_bpath := bpath, f_mtime := word_of_int t, f_mode := perms, f_type := type, f_size := sz\<rparr>))
        (\<lambda>f. Inr (f, fs))))))))"

text \<open>The constructor for a deleted file checks nothing and leaves \<^verbatim>\<open>bpath_\<close> empty.\<close>

definition File_deleted :: "string \<Rightarrow> hash option \<Rightarrow> string \<Rightarrow> bool \<Rightarrow> bool \<Rightarrow> File result" where
  "File_deleted box_path box_hash path create deleted_file =
    copy_path path ((File_default box_path box_hash)\<lparr>f_deleted := deleted_file\<rparr>)"

section \<open>Accessors and operations\<close>

text \<open>\<open>getPath\<close> returns the whole array, its padding included.\<close>

definition getPath :: "File \<Rightarrow> string" where "getPath f = f_path f"
definition isToBeDeleted :: "File \<Rightarrow> bool" where "isToBeDeleted f = f_deleted f"
definition setMode :: "u16 \<Rightarrow> File \<Rightarrow> File" where "setMode m f = f\<lparr>f_mode := m\<rparr>"
definition setMtime :: "u32 \<Rightarrow> File \<Rightarrow> File" where "setMtime t f = f\<lparr>f_mtime := t\<rparr>"

definition file_exists :: "'fs fs_api \<Rightarrow> 'fs \<Rightarrow> File \<Rightarrow> bool result" where
  "file_exists api fs f = fs_exists api fs (c_str (f_bpath f))"

definition openFile :: "'fs fs_api \<Rightarrow> 'fs \<Rightarrow> File \<Rightarrow> File" where
  "openFile api fs f =
    f\<lparr>f_stream := fstream_open (fs_content api fs (c_str (f_bpath f))) (f_stream f)\<rparr>"

definition closeFile :: "File \<Rightarrow> File" where
  "closeFile f = f\<lparr>f_stream := fstream_close (f_stream f)\<rparr>"

definition create_file :: "'fs fs_api \<Rightarrow> 'fs \<Rightarrow> File \<Rightarrow> (File \<times> 'fs) result" where
  "create_file api fs f =
    (if f_type f = regular_file then Inr (openFile api fs f, fs)
     else if f_type f = directory_file then
       bindE (fs_create_directory api fs (c_str (f_bpath f))) (\<lambda>fs. Inr (f, fs))
     else Inl Range_error)"

text \<open>The bytes written to the buffer, their number, the flag and the file after the call.\<close>

definition readFileData :: "'fs fs_api \<Rightarrow> 'fs \<Rightarrow> File \<Rightarrow> u64 \<Rightarrow> u64 \<Rightarrow> bool \<Rightarrow> string \<times> u64 \<times> bool \<times> File" where
  "readFileData api fs f sz offset more0 =
    (if f_deleted f then ([], 0, more0, f)
     else
       let f1 = (if st_open (f_stream f) then f else openFile api fs f);
           n = (if f_size f \<le> F_MAXIMUM_FILE_PACKAGE_SIZE \<and> f_size f \<le> sz then f_size f
                else if sz < F_MAXIMUM_FILE_PACKAGE_SIZE then sz
                else F_MAXIMUM_FILE_PACKAGE_SIZE);
           (bytes, st) = fstream_read (fs_content api fs (c_str (f_bpath f))) (f_stream f1)
                           (sint offset) (unat n);
           data_size = (word_of_nat (length bytes) :: u64)
       in (bytes, data_size, offset + data_size < f_size f, f1\<lparr>f_stream := st\<rparr>))"

definition readFileData_more :: "'fs fs_api \<Rightarrow> 'fs \<Rightarrow> File \<Rightarrow> u64 \<Rightarrow> bool \<Rightarrow> string \<times> u64 \<times> bool \<times> File" where
  "readFileData_more api fs f offset more0 =
    readFileData api fs f F_MAXIMUM_FILE_PACKAGE_SIZE offset more0"

text \<open>\<open>data\<close> is the buffer from the pointer on; writing more than it holds has no meaning.\<close>

definition storeFileData :: "'fs fs_api \<Rightarrow> 'fs \<Rightarrow> File \<Rightarrow> string \<Rightarrow> int \<Rightarrow> int \<Rightarrow> (File \<times> 'fs) result" where
  "storeFileData api fs f data sz offset =
    (if f_deleted f then Inr (f, fs)
     else
       let f1 = (if st_open (f_stream f) then f else openFile api fs f);
           n = (if sint (f_size f) \<le> 4096 \<and> sint (f_size f) \<le> sz then sint (f_size f)
                else if sz < 4096 then sz else 4096)
       in if n < 0 \<or> int (length data) < n then Inl Undefined_behaviour
          else
            let (c, st) = fstream_write (fs_content api fs (c_str (f_bpath f))) (f_stream f1) offset
                            (take (nat n) data);
                fs1 = (case c of None \<Rightarrow> fs | Some c \<Rightarrow> fs_put api fs (c_str (f_bpath f)) c)
            in bindE (fs_set_last_write_time api fs1 (c_str (f_bpath f)) (uint (f_mtime f)))
                 (\<lambda>fs2. Inr (f1\<lparr>f_stream := st\<rparr>, fs2)))"

section \<open>The wire format\<close>

definition file_out :: "File \<Rightarrow> string result" where
  "file_out f =
    (case f_box_hash f of
       None \<Rightarrow> Inl Undefined_behaviour
     | Some h \<Rightarrow>
         bindE (getBytes h) (\<lambda>b.
           if f_deleted f then Inr (b @ f_path f @ ''IN_DELETE'')
           else Inr (b @ f_path f @ htobe16 (f_mode f) @ byte_of (f_type f) @ htobe32 (f_mtime f) @
             htobe64 (if f_type f = regular_file then f_size f else 0))))"

text \<open>\<^verbatim>\<open>read\<close> into a fresh buffer that is used whole: the bytes that do not arrive have no value.\<close>

definition read_exact :: "nat \<Rightarrow> istream \<Rightarrow> (string \<times> istream) result" where
  "read_exact n s =
    (case sread n s of (bs, s') \<Rightarrow> if length bs = n then Inr (bs, s') else Inl Undefined_behaviour)"

definition file_in_body :: "'fs fs_api \<Rightarrow> 'fs \<Rightarrow> istream \<Rightarrow> string \<Rightarrow> File \<Rightarrow> (istream \<times> File \<times> 'fs) result" where
  "file_in_body api fs s path f =
    bindE (constructPath (f_box_path f) path) (\<lambda>bpath.
    bindE (read_exact 2 s) (\<lambda>(mode_c, s).
    bindE (read_exact 1 s) (\<lambda>(type_c, s).
    bindE (read_exact 4 s) (\<lambda>(mtime_c, s).
    let f = f\<lparr>f_bpath := bpath, f_mode := be16toh mode_c, f_type := of_byte type_c, f_mtime := be32toh mtime_c\<rparr>
    in bindE (checkArguments api fs bpath path (f_type f) True) (\<lambda>fs.
    if f_type f = regular_file then
      bindE (read_exact 8 s) (\<lambda>(size_c, s). Inr (s, f\<lparr>f_size := be64toh size_c\<rparr>, fs))
    else Inr (s, f, fs))))))"

definition file_in_delete :: "'fs fs_api \<Rightarrow> 'fs \<Rightarrow> istream \<Rightarrow> string \<Rightarrow> File \<Rightarrow> (istream \<times> File \<times> 'fs) result" where
  "file_in_delete api fs s path f =
    bindE (constructPath (f_box_path f) path) (\<lambda>bpath.
    let f = f\<lparr>f_deleted := True, f_bpath := bpath\<rparr> in
    bindE (fs_exists api fs (c_str bpath)) (\<lambda>ex.
    if ex then
      (case fs_remove api fs (c_str bpath) of
         Inl _ \<Rightarrow> Inl Filesystem_error
       | Inr fs \<Rightarrow> Inr (s, f, fs))
    else Inr (s, f, fs)))"

definition file_in :: "'fs fs_api \<Rightarrow> 'fs \<Rightarrow> istream \<Rightarrow> File \<Rightarrow> (istream \<times> File \<times> 'fs) result" where
  "file_in api fs s f =
    (if f_box_hash f = None \<or> f_box_path f = [] then Inl Out_of_range
     else
       bindE (read_exact F_MAXIMUM_PATH_LENGTH s) (\<lambda>(path, s).
       let f = f\<lparr>f_path := path\<rparr>; (deleted, s) = extract_word [] s in
       if deleted = ''IN_DELETE'' then file_in_delete api fs s path f
       else file_in_body api fs (seekg_cur (- int (length deleted)) s) path f))"

text \<open>The comparison operators of the header compare the paths for equality, \<^verbatim>\<open><\<close> included.\<close>

definition file_less :: "File \<Rightarrow> File \<Rightarrow> bool" where "file_less lhs rhs = (getPath lhs = getPath rhs)"
definition file_greater :: "File \<Rightarrow> File \<Rightarrow> bool" where "file_greater lhs rhs = file_less rhs lhs"
definition file_less_eq :: "File \<Rightarrow> File \<Rightarrow> bool" where "file_less_eq lhs rhs = (\<not> file_greater lhs rhs)"
definition file_greater_eq :: "File \<Rightarrow> File \<Rightarrow> bool" where "file_greater_eq lhs rhs = (\<not> file_less lhs rhs)"
definition file_equal :: "File \<Rightarrow> File \<Rightarrow> bool" where "file_equal lhs rhs = (getPath lhs = getPath rhs)"
definition file_not_equal :: "File \<Rightarrow> File \<Rightarrow> bool" where "file_not_equal lhs rhs = (\<not> file_equal lhs rhs)"

section \<open>The wire format, read back\<close>

lemma read_exact_stream_at [stream_simps]:
  "length xs = n \<Longrightarrow> read_exact n (stream_at p (xs @ ys)) = Inr (xs, stream_at (p @ xs) ys)"
  by (simp add: read_exact_def sread_stream_at)

lemma be16_split: "htobe16 m = [char_of (unat m div 256 mod 256), char_of (unat m mod 256)]"
  by (simp add: htobe16_def numeral_2_eq_2)

definition meta_bytes :: "File \<Rightarrow> string" where
  "meta_bytes f = htobe16 (f_mode f) @ byte_of (f_type f) @ htobe32 (f_mtime f) @ htobe64 (f_size f)"

lemma file_out_regular:
  assumes "f_box_hash f = Some h" "filled h" "\<not> f_deleted f" "f_type f = regular_file"
  shows "file_out f = Inr (digest h @ f_path f @ meta_bytes f)"
  using assms by (simp add: file_out_def getBytes_def filled_cases meta_bytes_def)

lemma file_in_body_meta:
  assumes "f_type f = regular_file" "constructPath (f_box_path g) path = Inr bp"
    "checkArguments api fs bp path regular_file True = Inr fs'"
  shows "file_in_body api fs (stream_at p (meta_bytes f @ t)) path g =
     Inr (stream_at (p @ meta_bytes f) t,
          g\<lparr>f_bpath := bp, f_mode := f_mode f, f_type := f_type f, f_mtime := f_mtime f, f_size := f_size f\<rparr>, fs')"
  using assms by (simp add: file_in_body_def meta_bytes_def stream_simps be16.enc_length be32.enc_length
      be64.enc_length byte8.enc_length be16.deco_enc be32.deco_enc be64.deco_enc byte8.deco_enc)

lemma file_in_body_mode:
  "file_in_body api fs s path g = Inr (s', g', fs') \<Longrightarrow> read_exact 2 s = Inr (m, u) \<Longrightarrow> f_mode g' = be16toh m"
  by (auto simp: file_in_body_def bindE_eq_Inr Let_def split: if_splits)

text \<open>The permissions whose first byte is no white space: all but 04400 to 06777.\<close>

definition plain_mode :: "u16 \<Rightarrow> bool" where
  "plain_mode m \<longleftrightarrow> m < 0x1000 \<and> \<not> (0x900 \<le> m \<and> m < 0xE00)"

lemma plain_mode_first:
  assumes "plain_mode m"
  shows "\<exists>c r. htobe16 m = c # r \<and> \<not> is_space c \<and> c \<noteq> CHR ''I''"
proof -
  have "unat m < 0x1000" "\<not> (0x900 \<le> unat m \<and> unat m < 0xE00)"
    using assms by (simp_all add: plain_mode_def word_less_nat_alt word_le_nat_alt)
  then have "unat m div 256 < 16" "\<not> (9 \<le> unat m div 256 \<and> unat m div 256 < 14)"
    by (auto simp: less_mult_imp_div_less div_le_mono)
  then show ?thesis by (auto simp: be16_split is_space_def of_char_of dest!: arg_cong [of _ _ "of_char :: char \<Rightarrow> nat"])
qed

lemma constructPath_Inr: "b \<noteq> [] \<Longrightarrow> p \<noteq> [] \<Longrightarrow> \<exists>bp. constructPath b p = Inr bp"
  by (simp add: constructPath_def)

lemma path_not_empty: "length p = F_MAXIMUM_PATH_LENGTH \<Longrightarrow> p \<noteq> []"
  by (auto simp: path_len)

text \<open>What \<^verbatim>\<open>>>\<close> does once the path is read and the bytes that follow do not begin with white space.\<close>

lemma file_in_path:
  assumes "f_box_hash g \<noteq> None" "f_box_path g \<noteq> []" "length path = F_MAXIMUM_PATH_LENGTH"
    "skipws (stream_at (p @ path) r) = (True, stream_at q u)"
    "takeWhile (\<lambda>c. \<not> is_space c) u \<noteq> ''IN_DELETE''"
  shows "file_in api fs (stream_at p (path @ r)) g =
     file_in_body api fs (stream_at q u) path (g\<lparr>f_path := path\<rparr>)"
proof -
  obtain w s where w: "extract_word [] (stream_at (p @ path) r) = (w, s)" by fastforce
  show ?thesis
    using assms(1-3,5) w extract_word_unread [OF assms(4) w] by (auto simp: file_in_def stream_simps)
qed

lemma file_in_IN_DELETE:
  assumes "f_box_hash g \<noteq> None" "f_box_path g \<noteq> []" "length path = F_MAXIMUM_PATH_LENGTH"
    "t = [] \<or> is_space (hd t)"
  shows "\<exists>s. file_in api fs (stream_at p (path @ ''IN_DELETE'' @ t)) g =
     file_in_delete api fs s path (g\<lparr>f_path := path\<rparr>)"
proof -
  have "list_all (\<lambda>c. \<not> is_space c) ''IN_DELETE''" by (simp add: is_space_def)
  then have "fst (extract_word [] (stream_at (p @ path) (''IN_DELETE'' @ t))) = ''IN_DELETE''"
    using assms(4) extract_word_end [of "''IN_DELETE''"] extract_word_stream_at [of "''IN_DELETE''"]
    by (cases t) auto
  then obtain s where "extract_word [] (stream_at (p @ path) (''IN_DELETE'' @ t)) = (''IN_DELETE'', s)"
    by (metis prod.collapse)
  then show ?thesis using assms(1-3) by (auto simp: file_in_def read_exact_stream_at)
qed

section \<open>Packages\<close>

text \<open>Reading a whole file package by package, as long as the flag asks for more, and storing
  packages one after the other.\<close>

fun read_packages :: "'fs fs_api \<Rightarrow> 'fs \<Rightarrow> nat \<Rightarrow> File \<Rightarrow> u64 \<Rightarrow> string list option" where
  "read_packages api fs 0 f offset = None"
| "read_packages api fs (Suc k) f offset =
     (case readFileData_more api fs f offset False of
        (bytes, n, more0, f') \<Rightarrow>
          if more0 then map_option ((#) bytes) (read_packages api fs k f' (offset + n)) else Some [bytes])"

fun store_packages :: "'fs fs_api \<Rightarrow> 'fs \<Rightarrow> File \<Rightarrow> nat \<Rightarrow> string list \<Rightarrow> (File \<times> 'fs) result" where
  "store_packages api fs f off [] = Inr (f, fs)"
| "store_packages api fs f off (d # ds) =
     bindE (storeFileData api fs f d (int (length d)) (int off))
       (\<lambda>(f', fs'). store_packages api fs' f' (off + length d) ds)"

definition usable :: "File \<Rightarrow> bool" where
  "usable f \<longleftrightarrow> \<not> f_deleted f \<and> (st_open (f_stream f) \<longrightarrow> \<not> st_fail (f_stream f) \<and> \<not> st_eof (f_stream f))"

definition package :: "string \<Rightarrow> nat \<Rightarrow> string" where
  "package c off = take 4096 (drop off c)"

lemma openFile_usable:
  assumes "usable f" "fs_content api fs (c_str (f_bpath f)) = Some c"
  shows "f_stream (if st_open (f_stream f) then f else openFile api fs f) =
    \<lparr>st_open = True, st_eof = False, st_fail = False\<rparr>"
  using assms by (auto simp: usable_def openFile_def fstream_open_def intro: fstream.equality)

lemma u64_sint_small: "unat (w::u64) < 2 ^ 63 \<Longrightarrow> sint w = int (unat w)"
proof -
  assume "unat w < 2 ^ 63"
  then have "uint w < 2 ^ 63" by (metis of_nat_less_iff of_nat_numeral of_nat_power uint_nat)
  moreover have "- (2 ^ 63) \<le> uint w" by (rule order_trans [OF _ uint_ge_0]) simp
  ultimately have "signed_take_bit 63 (uint w) = uint w" by (intro signed_take_bit_int_eq_self)
  then have "sint w = uint w" by (simp add: sint_uint)
  also have "\<dots> = int (unat w)" by (rule uint_nat)
  finally show ?thesis .
qed

lemma unat_sum_small:
  "unat (a::u64) + k < 2 ^ 64 \<Longrightarrow> unat (a + word_of_nat k) = unat a + k"
  by (simp add: unat_word_ariths unat_of_nat)

lemma length_package: "length (package c off) = min 4096 (length c - off)"
  by (simp add: package_def)

lemma readFileData_package:
  assumes u: "usable f" and c: "fs_content api fs (c_str (f_bpath f)) = Some c"
    and n: "length c = unat (f_size f)" "length c < 2 ^ 62"
    and off: "unat offset < length c \<or> offset = 0" "4096 dvd unat offset"
  shows "\<exists>f'. readFileData_more api fs f offset m =
      (package c (unat offset), word_of_nat (length (package c (unat offset))),
       unat offset + 4096 < length c, f') \<and>
     f_size f' = f_size f \<and> f_bpath f' = f_bpath f \<and> (unat offset + 4096 < length c \<longrightarrow> usable f')"
proof -
  let ?o = "unat offset"
  let ?f = "if st_open (f_stream f) then f else openFile api fs f"
  let ?n = "if f_size f \<le> F_MAXIMUM_FILE_PACKAGE_SIZE \<and> f_size f \<le> F_MAXIMUM_FILE_PACKAGE_SIZE then f_size f
    else if F_MAXIMUM_FILE_PACKAGE_SIZE < F_MAXIMUM_FILE_PACKAGE_SIZE then F_MAXIMUM_FILE_PACKAGE_SIZE
    else F_MAXIMUM_FILE_PACKAGE_SIZE"
  let ?st = "\<lparr>st_open = True, st_eof = False, st_fail = False\<rparr>"
  have le: "?o \<le> length c" using off by auto
  have nn: "unat ?n = min 4096 (length c)"
    using n(1) by (auto simp: package_size word_le_nat_alt)
  have "?o = 0" if "length c \<le> 4096" using off that by (auto dest: dvd_imp_le)
  then have tk: "take (unat ?n) (drop ?o c) = package c ?o"
    unfolding nn package_def by (cases "length c \<le> 4096") auto
  have sint: "sint offset = int ?o" using le n(2) by (intro u64_sint_small) simp
  have strm: "f_stream ?f = ?st" using u c by (rule openFile_usable)
  let ?st' = "if length (package c ?o) < unat ?n then ?st\<lparr>st_eof := True, st_fail := True\<rparr> else ?st"
  have rd: "fstream_read (Some c) ?st (int ?o) (unat ?n) = (package c ?o, ?st')"
    using tk by (simp add: fstream_read_def Let_def)
  have "unat (offset + word_of_nat (length (package c ?o))) = ?o + length (package c ?o)"
    using le n(2) by (intro unat_sum_small) (simp add: length_package)
  then have more: "(offset + word_of_nat (length (package c ?o)) < f_size f) = (?o + 4096 < length c)"
    using le by (auto simp: word_less_nat_alt n(1) [symmetric] length_package)
  have del: "\<not> f_deleted f" "\<not> f_deleted ?f" using u by (auto simp: usable_def openFile_def)
  have "readFileData_more api fs f offset m =
     (package c ?o, word_of_nat (length (package c ?o)), ?o + 4096 < length c, ?f\<lparr>f_stream := ?st'\<rparr>)"
    unfolding readFileData_more_def readFileData_def Let_def c sint strm rd prod.case more using del(1) by simp
  moreover have "usable (?f\<lparr>f_stream := ?st'\<rparr>)" if "?o + 4096 < length c"
  proof -
    have "\<not> length (package c ?o) < unat ?n" unfolding nn using that by (simp add: length_package)
    then have "?st' = ?st" by (rule if_not_P)
    then show ?thesis using del(2) by (simp add: usable_def)
  qed
  ultimately show ?thesis by (intro exI [of _ "?f\<lparr>f_stream := ?st'\<rparr>"]) (auto simp: openFile_def)
qed

function split_packages :: "string \<Rightarrow> string list" where
  "split_packages c = (if length c \<le> 4096 then [c] else take 4096 c # split_packages (drop 4096 c))"
  by pat_completeness auto
termination by (relation "measure length") auto

declare split_packages.simps [simp del]

lemma split_packages_drop:
  "split_packages (drop off c) =
     (if off + 4096 < length c then package c off # split_packages (drop (off + 4096) c)
      else [package c off])"
  by (auto simp: split_packages.simps [of "drop off c"] package_def add.commute)

lemma read_packages_split:
  assumes "usable f" "fs_content api fs (c_str (f_bpath f)) = Some c"
    and "length c = unat (f_size f)" "length c < 2 ^ 62"
    and "unat offset < length c \<or> offset = 0" "4096 dvd unat offset" "length c - unat offset < 4096 * k + 1"
    and "k > 0"
  shows "read_packages api fs k f offset = Some (split_packages (drop (unat offset) c))"
  using assms
proof (induction k arbitrary: f offset)
  case (Suc k)
  let ?o = "unat offset"
  from readFileData_package [OF Suc.prems(1-6), of False] obtain f' where
    r: "readFileData_more api fs f offset False =
      (package c ?o, word_of_nat (length (package c ?o)), ?o + 4096 < length c, f')"
    and f': "f_size f' = f_size f" "f_bpath f' = f_bpath f" "?o + 4096 < length c \<longrightarrow> usable f'" by blast
  show ?case
  proof (cases "?o + 4096 < length c")
    case True
    let ?off = "offset + word_of_nat (length (package c ?o))"
    have len: "length (package c ?o) = 4096" using True by (simp add: length_package)
    have o': "unat ?off = ?o + 4096"
      unfolding len using True Suc.prems(4) by (intro unat_sum_small) simp
    have "read_packages api fs k f' ?off = Some (split_packages (drop (unat ?off) c))"
    proof (rule Suc.IH)
      show "4096 dvd unat ?off" unfolding o' using Suc.prems(6) by simp
      have "length c - ?o < 4096 * k + 4097" using Suc.prems(7) by simp
      then show "length c - unat ?off < 4096 * k + 1" "k > 0" unfolding o' using True by linarith+
    qed (use True f' o' Suc.prems in auto)
    then show ?thesis using r True by (simp add: split_packages_drop [of ?o] o')
  next
    case False
    with r show ?thesis by (simp add: split_packages_drop [of ?o])
  qed
qed simp

text \<open>What storing relies on. \<open>own\<close> are the states in which the path names a regular file that the
  process owns and may write: overwriting the file with as many bytes keeps it so and the bytes are
  there, and setting the time of the last write, which fails for a file that does not exist
  or is not owned, succeeds in these states and leaves the data alone.\<close>

definition store_law :: "'fs fs_api \<Rightarrow> ('fs \<Rightarrow> bool) \<Rightarrow> string \<Rightarrow> bool" where
  "store_law api own p \<longleftrightarrow>
    (\<forall>fs r c. own fs \<longrightarrow> fs_content api fs p = Some r \<longrightarrow> length c = length r \<longrightarrow>
       own (fs_put api fs p c) \<and> fs_content api (fs_put api fs p c) p = Some c) \<and>
    (\<forall>fs t. own fs \<longrightarrow> (\<exists>fs'. fs_set_last_write_time api fs p t = Inr fs' \<and> own fs' \<and>
       fs_content api fs' p = fs_content api fs p))"

lemma store_lawD:
  assumes "store_law api own p" "own fs" "fs_content api fs p = Some r" "length c = length r"
  shows "\<exists>fs'. fs_set_last_write_time api (fs_put api fs p c) p t = Inr fs' \<and> own fs' \<and> fs_content api fs' p = Some c"
  using assms unfolding store_law_def by metis

lemma length_splice_package:
  "length r = length c \<Longrightarrow> off \<le> length c \<Longrightarrow> length (splice off (package c off) r) = length r"
  by (auto simp: splice_def length_package min_def)

lemma storeFileData_package:
  assumes u: "usable g" and c: "fs_content api fs (c_str (f_bpath g)) = Some r"
    and n: "length c = unat (f_size g)" "length c < 2 ^ 62" "length r = length c"
    and off: "off < length c \<or> off = 0" "4096 dvd off"
    and law: "store_law api own (c_str (f_bpath g))" "own fs"
  shows "\<exists>g' fs'. storeFileData api fs g (package c off) (int (length (package c off))) (int off) = Inr (g', fs') \<and>
     usable g' \<and> f_size g' = f_size g \<and> f_bpath g' = f_bpath g \<and> own fs' \<and>
     fs_content api fs' (c_str (f_bpath g)) = Some (splice off (package c off) r)"
proof -
  let ?p = "c_str (f_bpath g)" and ?d = "package c off"
  let ?g = "if st_open (f_stream g) then g else openFile api fs g"
  let ?st = "\<lparr>st_open = True, st_eof = False, st_fail = False\<rparr>"
  have strm: "f_stream ?g = ?st" using u c by (rule openFile_usable)
  have sz: "sint (f_size g) = int (length c)" using n by (simp add: u64_sint_small)
  have "off = 0" if "length c \<le> 4096" using off that by (auto dest: dvd_imp_le)
  then have nn: "(if sint (f_size g) \<le> 4096 \<and> sint (f_size g) \<le> int (length ?d) then sint (f_size g)
      else if int (length ?d) < 4096 then int (length ?d) else 4096) = int (length ?d)"
    using off unfolding sz by (auto simp: length_package)
  have w: "fstream_write (Some r) ?st (int off) (take (nat (int (length ?d))) ?d) = (Some (splice off ?d r), ?st)"
    by (simp add: fstream_write_def)
  obtain fs' where t: "fs_set_last_write_time api (fs_put api fs ?p (splice off ?d r)) ?p (uint (f_mtime g)) = Inr fs'"
    "own fs'" "fs_content api fs' ?p = Some (splice off ?d r)"
    using store_lawD [OF law c, of "splice off ?d r" "uint (f_mtime g)"] length_splice_package [OF n(3), of off] off by auto
  have "storeFileData api fs g ?d (int (length ?d)) (int off) = Inr (?g\<lparr>f_stream := ?st\<rparr>, fs')"
    unfolding storeFileData_def Let_def c strm nn w prod.case option.case t(1)
    using u by (simp add: usable_def)
  then show ?thesis
    using t(2,3) u by (intro exI [of _ "?g\<lparr>f_stream := ?st\<rparr>"] exI [of _ fs']) (auto simp: usable_def openFile_def)
qed

lemma splice_next:
  assumes "length r = length c" "take off r = take off c" "off \<le> length c"
  shows "length (splice off (package c off) r) = length c \<and>
     take (off + 4096) (splice off (package c off) r) = take (off + 4096) c"
proof -
  have s: "splice off (package c off) r = take off c @ package c off @ drop (off + length (package c off)) r"
    using assms by (simp add: splice_def)
  have t: "take (off + 4096) c = take off c @ package c off"
    by (simp add: take_add package_def)
  have l: "length (take off c @ package c off) = min (off + 4096) (length c)"
    using assms by (simp add: length_package)
  show ?thesis
    unfolding s t using assms(1,3) l by (auto simp: length_package min_def)
qed

lemma store_packages_split:
  assumes "usable g" "fs_content api fs (c_str (f_bpath g)) = Some r"
    and "length c = unat (f_size g)" "length c < 2 ^ 62" "length r = length c"
    and "off < length c \<or> off = 0" "4096 dvd off" "store_law api own (c_str (f_bpath g))"
    and "own fs" "take off r = take off c"
  shows "\<exists>g' fs'. store_packages api fs g off (split_packages (drop off c)) = Inr (g', fs') \<and>
     fs_content api fs' (c_str (f_bpath g)) = Some c"
  using assms
proof (induction "length c - off" arbitrary: g fs r off rule: less_induct)
  case less
  let ?d = "package c off"
  from storeFileData_package [OF less.prems(1-9)] obtain g' fs' where
    st: "storeFileData api fs g ?d (int (length ?d)) (int off) = Inr (g', fs')"
    and g': "usable g'" "f_size g' = f_size g" "f_bpath g' = f_bpath g"
    and c': "own fs'" "fs_content api fs' (c_str (f_bpath g)) = Some (splice off ?d r)" by blast
  have sp: "length (splice off ?d r) = length c"
    "take (off + 4096) (splice off ?d r) = take (off + 4096) c"
    using splice_next [OF less.prems(5,10)] less.prems(6) by auto
  show ?case
  proof (cases "off + 4096 < length c")
    case True
    then have "length ?d = 4096" by (simp add: length_package)
    then show ?thesis
      using less.hyps [of "off + 4096" g' fs' "splice off ?d r"] True g' c' sp less.prems st
      by (simp add: split_packages_drop [of off])
  next
    case False
    then have "splice off ?d r = c" using sp by simp
    with False st c' show ?thesis by (simp add: split_packages_drop [of off])
  qed
qed

lemma length_split_packages:
  "length (split_packages c) = max 1 ((length c + 4095) div 4096) \<and>
   list_all (\<lambda>d. length d \<le> 4096) (split_packages c)"
proof (induction c rule: split_packages.induct)
  case (1 c)
  show ?case
  proof (cases "length c \<le> 4096")
    case True
    then have "(length c + 4095) div 4096 \<le> 1" by linarith
    with True show ?thesis by (simp add: split_packages.simps [of c])
  next
    case False
    then have "(length c + 4095) div 4096 = Suc ((length c - 4096 + 4095) div 4096)"
      "1 \<le> (length c - 4096 + 4095) div 4096" by linarith+
    with False 1 show ?thesis by (simp add: split_packages.simps [of c])
  qed
qed

lemma checkArguments_existing:
  "exists_ec api fs bp \<Longrightarrow> length path \<le> F_MAXIMUM_PATH_LENGTH \<Longrightarrow>
     checkArguments api fs bp path ty create = Inr fs"
  by (simp add: checkArguments_def)

lemma meta_bytes_first: "plain_mode (f_mode f) \<Longrightarrow> \<exists>c r. meta_bytes f = c # r \<and> \<not> is_space c \<and> c \<noteq> CHR ''I''"
  using plain_mode_first [of "f_mode f"] by (auto simp: meta_bytes_def)

lemma file_in_plain:
  assumes "f_box_hash g \<noteq> None" "f_box_path g \<noteq> []" "length (f_path f) = F_MAXIMUM_PATH_LENGTH"
    "plain_mode (f_mode f)"
  shows "file_in api fs (stream_at p (f_path f @ meta_bytes f @ t)) g =
     file_in_body api fs (stream_at (p @ f_path f) (meta_bytes f @ t)) (f_path f) (g\<lparr>f_path := f_path f\<rparr>)"
proof -
  obtain c r where m: "meta_bytes f = c # r" "\<not> is_space c" "c \<noteq> CHR ''I''"
    using meta_bytes_first [OF assms(4)] by blast
  show ?thesis
    by (intro file_in_path assms(1-3)) (simp_all add: m skipws_nonspace)
qed

section \<open>A file system in memory\<close>

text \<open>For concrete inputs: regular files by name, below the one directory \<^verbatim>\<open>/b\<close>.\<close>

definition mem_api :: "(string \<Rightarrow> string option) fs_api" where
  "mem_api =
    \<lparr>fs_exists = (\<lambda>fs p. Inr (p = ''/b'' \<or> fs p \<noteq> None)),
     fs_parent_path = (\<lambda>p. rev (tl (dropWhile (\<lambda>c. c \<noteq> CHR ''/'') (rev p)))),
     fs_create_empty = (\<lambda>fs p. fs(p \<mapsto> [])),
     fs_create_directory = (\<lambda>fs p. Inr fs),
     fs_remove = (\<lambda>fs p. Inr (fs(p := None))),
     fs_last_write_time = (\<lambda>fs p. if fs p = None then Inl Filesystem_error else Inr 0),
     fs_set_last_write_time = (\<lambda>fs p t. if fs p = None then Inl Filesystem_error else Inr fs),
     fs_status = (\<lambda>fs p. if fs p = None then Inl Filesystem_error else Inr (0x1A4, regular_file)),
     fs_file_size = (\<lambda>fs p. case fs p of None \<Rightarrow> Inl Filesystem_error | Some c \<Rightarrow> Inr (word_of_nat (length c))),
     fs_permissions = (\<lambda>fs p m. Inr fs),
     fs_resize_file = (\<lambda>fs p n. case fs p of None \<Rightarrow> Inl Filesystem_error
        | Some c \<Rightarrow> Inr (fs(p \<mapsto> take (unat n) (c @ replicate (unat n - length c) NUL)))),
     fs_content = (\<lambda>fs p. fs p),
     fs_put = (\<lambda>fs p c. fs(p \<mapsto> c))\<rparr>"

definition sample_hash_obj :: hash where
  "sample_hash_obj = Hash_bytes (replicate 64 CHR ''h'')"

definition sample_path :: string where
  "sample_path = ''a'' @ replicate 127 NUL"

definition sample_file :: File where
  "sample_file = (File_default ''/b'' (Some sample_hash_obj))
     \<lparr>f_bpath := ''/b/a'', f_path := sample_path, f_mode := 0x1A4, f_mtime := 7, f_type := regular_file, f_size := 3\<rparr>"

lemma sample_props:
  "filled sample_hash_obj" "length sample_path = F_MAXIMUM_PATH_LENGTH" "c_str (''/b/'' @ sample_path) = ''/b/a''"
  "constructPath ''/b'' sample_path = Inr (''/b/'' @ sample_path)"
  by (simp_all add: sample_hash_obj_def Hash_bytes_ok sample_path_def path_len c_str_def NUL_def constructPath_def
      eval_nat_numeral)

definition padded :: "string \<Rightarrow> File \<Rightarrow> bool" where
  "padded path f \<longleftrightarrow> f_path f = path @ replicate (128 - length path) NUL \<and> length (f_path f) = 128"

lemma copy_path_padded: "copy_path path f = Inr f' \<Longrightarrow> f_path f = empty_path \<Longrightarrow> padded path f'"
  by (auto simp: copy_path_def padded_def empty_path_def path_len split: if_splits)

lemma padded_update [simp]:
  "padded p (f\<lparr>f_mtime := a\<rparr>) = padded p f" "padded p (f\<lparr>f_mode := c\<rparr>) = padded p f"
  "padded p (f\<lparr>f_size := d\<rparr>) = padded p f" "padded p (f\<lparr>f_type := e\<rparr>) = padded p f"
  by (simp_all add: padded_def)

lemma resize_path: "resize api fs f n = Inr (f', fs') \<Longrightarrow> f_path f' = f_path f"
  by (auto simp: resize_def split: if_splits sum.splits)

lemma resize_padded: "resize api fs f n = Inr (f', fs') \<Longrightarrow> padded p f' \<longleftrightarrow> padded p f"
  by (simp add: padded_def resize_path)

lemma constructors_padded:
  "File_typed api fs b h path ty cr = Inr (f, fs') \<Longrightarrow> padded path f"
  "File_mode api fs b h path m ty t cr = Inr (f, fs') \<Longrightarrow> padded path f"
  "File_copy api fs b h path f0 cr = Inr (f, fs') \<Longrightarrow> padded path f"
  "File_path api fs b h path = Inr (f, fs') \<Longrightarrow> padded path f"
  "File_deleted b h path cr del = Inr f \<Longrightarrow> padded path f"
proof -
  show "File_typed api fs b h path ty cr = Inr (f, fs') \<Longrightarrow> padded path f"
    by (auto simp: File_typed_def File_default_def bindE_eq_Inr Let_def split: if_splits dest!: copy_path_padded)
  show "File_mode api fs b h path m ty t cr = Inr (f, fs') \<Longrightarrow> padded path f"
    by (auto simp: File_mode_def File_default_def bindE_eq_Inr split: if_splits dest!: copy_path_padded)
  show "File_copy api fs b h path f0 cr = Inr (f, fs') \<Longrightarrow> padded path f"
    by (auto simp: File_copy_def File_default_def bindE_eq_Inr Let_def resize_padded split: if_splits
        dest!: copy_path_padded)
  show "File_path api fs b h path = Inr (f, fs') \<Longrightarrow> padded path f"
    by (auto simp: File_path_def File_default_def bindE_eq_Inr split: if_splits dest!: copy_path_padded)
  show "File_deleted b h path cr del = Inr f \<Longrightarrow> padded path f"
    by (auto simp: File_deleted_def File_default_def dest!: copy_path_padded)
qed

lemma read_exact_length: "read_exact n s = Inr (bs, s') \<Longrightarrow> length bs = n"
  by (auto simp: read_exact_def split: prod.splits if_splits)

lemma file_in_parts_path:
  "file_in_delete api fs s path g = Inr (s', f, fs') \<Longrightarrow> f_path f = f_path g"
  "file_in_body api fs s path g = Inr (s', f, fs') \<Longrightarrow> f_path f = f_path g"
  by (auto simp: file_in_delete_def bindE_eq_Inr Let_def split: if_splits sum.splits)
    (auto simp: file_in_body_def bindE_eq_Inr Let_def split: if_splits)

lemma file_in_path_length: "file_in api fs s g = Inr (s', f, fs') \<Longrightarrow> length (f_path f) = 128"
  by (auto simp: file_in_def bindE_eq_Inr path_len Let_def case_prod_unfold split: if_splits
      dest!: read_exact_length file_in_parts_path)

lemma operations_path:
  "storeFileData api fs g d n off = Inr (f, fs') \<Longrightarrow> f_path f = f_path g"
  "readFileData api fs g k o2 mo = (bs, k', mo', f) \<Longrightarrow> f_path f = f_path g"
  "create_file api fs g = Inr (f, fs') \<Longrightarrow> f_path f = f_path g"
  "f_path (openFile api fs g) = f_path g" "f_path (closeFile g) = f_path g"
proof -
  show "storeFileData api fs g d n off = Inr (f, fs') \<Longrightarrow> f_path f = f_path g"
    by (auto simp: storeFileData_def bindE_eq_Inr Let_def openFile_def split: if_splits prod.splits)
  show "readFileData api fs g k o2 mo = (bs, k', mo', f) \<Longrightarrow> f_path f = f_path g"
    by (auto simp: readFileData_def Let_def openFile_def split: if_splits prod.splits)
  show "create_file api fs g = Inr (f, fs') \<Longrightarrow> f_path f = f_path g"
    by (auto simp: create_file_def bindE_eq_Inr openFile_def split: if_splits)
qed (simp_all add: openFile_def closeFile_def)

lemma path_too_long:
  assumes "length path > 128" "b \<noteq> []"
  shows "File_typed api fs b h path ty cr = Inl Range_error"
    "File_mode api fs b h path m ty t cr = Inl Range_error"
    "File_copy api fs b h path f0 cr = Inl Range_error"
    "File_deleted b h path cr del = Inl Undefined_behaviour"
proof -
  obtain bp where "constructPath b path = Inr bp" using constructPath_Inr [of b path] assms by (cases path) auto
  moreover have "checkArguments api fs bp path x y = Inl Range_error" for bp x y
    using assms(1) by (simp add: checkArguments_def path_len)
  ultimately show "File_typed api fs b h path ty cr = Inl Range_error"
    "File_mode api fs b h path m ty t cr = Inl Range_error"
    "File_copy api fs b h path f0 cr = Inl Range_error"
    by (simp_all add: File_typed_def File_mode_def File_copy_def)
  show "File_deleted b h path cr del = Inl Undefined_behaviour"
    using assms(1) by (simp add: File_deleted_def copy_path_def path_len)
qed

section \<open>Properties\<close>

text \<open>C15. The metadata of a regular file survives the wire: what \<^verbatim>\<open><<\<close> writes is the digest of the box
  and then bytes from which \<^verbatim>\<open>>>\<close> restores path, mode, type, time and size, and the stream is left
  exactly behind them, for every mode outside 04400 to 06777.\<close>

theorem metadata_roundtrip:
  assumes "f_box_hash f = Some h" "filled h" "length (f_path f) = F_MAXIMUM_PATH_LENGTH"
    "\<not> f_deleted f" "f_type f = regular_file" "plain_mode (f_mode f)"
    "f_box_hash g \<noteq> None" "f_box_path g \<noteq> []" "constructPath (f_box_path g) (f_path f) = Inr bp"
    "checkArguments api fs bp (f_path f) regular_file True = Inr fs'"
  shows "\<exists>out. file_out f = Inr out \<and> take 64 out = digest h \<and>
     file_in api fs (stream_at p (drop 64 out @ t)) g =
       Inr (stream_at (p @ drop 64 out) t,
            g\<lparr>f_path := f_path f, f_bpath := bp, f_mode := f_mode f, f_type := f_type f,
              f_mtime := f_mtime f, f_size := f_size f\<rparr>, fs')"
proof -
  note out = file_out_regular [OF assms(1,2,4,5)]
  have l: "length (digest h) = 64" using assms(2) by (simp add: filled_cases)
  have "file_in_body api fs (stream_at (p @ f_path f) (meta_bytes f @ t)) (f_path f) (g\<lparr>f_path := f_path f\<rparr>) =
      Inr (stream_at ((p @ f_path f) @ meta_bytes f) t,
           g\<lparr>f_path := f_path f, f_bpath := bp, f_mode := f_mode f, f_type := f_type f,
             f_mtime := f_mtime f, f_size := f_size f\<rparr>, fs')"
    using assms(9,10) by (intro file_in_body_meta assms(5)) simp_all
  then show ?thesis
    unfolding out using l file_in_plain [OF assms(7,8,3,6), of api fs p t] by simp
qed

theorem metadata_roundtrip_witness:
  "\<exists>out s g. file_out sample_file = Inr out \<and>
     file_in mem_api (\<lambda>_. None) (stream_of (drop 64 out)) (File_default ''/b'' (Some sample_hash_obj)) =
       Inr (s, g, (\<lambda>_. None)(''/b/a'' \<mapsto> [])) \<and> f_size g = 3 \<and> f_mode g = 0x1A4"
proof -
  have last: "last sample_path = NUL" by (simp add: sample_path_def)
  have par: "c_str (fs_parent_path mem_api (''/b/'' @ sample_path)) = ''/b''"
    by (simp add: mem_api_def sample_path_def c_str_def NUL_def eval_nat_numeral)
  have chk: "checkArguments mem_api (\<lambda>_. None) (''/b/'' @ sample_path) (f_path sample_file) regular_file True =
      Inr ((\<lambda>_. None)(''/b/a'' \<mapsto> []))"
    using par last sample_props(2,3) path_not_empty [OF sample_props(2)]
    by (auto simp: checkArguments_def exists_ec_def sample_file_def mem_api_def NUL_def)
  have cp: "constructPath (f_box_path (File_default ''/b'' (Some sample_hash_obj))) (f_path sample_file) =
      Inr (''/b/'' @ sample_path)"
    by (simp only: File_default_def sample_file_def File.simps sample_props)
  show ?thesis
    using metadata_roundtrip [of sample_file sample_hash_obj "File_default ''/b'' (Some sample_hash_obj)",
        OF _ _ _ _ _ _ _ _ cp chk, of "[]" "[]"] sample_props(1,2)
    by (auto simp: sample_file_def File_default_def plain_mode_def stream_of_at)
qed

text \<open>C16. A deletion survives the wire: what \<^verbatim>\<open><<\<close> writes for a deleted file makes \<^verbatim>\<open>>>\<close> mark the
  receiver's file as deleted and remove it when it exists; a failure to remove is thrown. No
  metadata is touched.\<close>

theorem deletion_roundtrip:
  assumes "f_box_hash f = Some h" "filled h" "length (f_path f) = F_MAXIMUM_PATH_LENGTH" "f_deleted f"
    "f_box_hash g \<noteq> None" "f_box_path g \<noteq> []" "constructPath (f_box_path g) (f_path f) = Inr bp"
    "fs_exists api fs (c_str bp) = Inr ex"
  shows "\<exists>out. file_out f = Inr out \<and> take 64 out = digest h \<and>
     (let g' = g\<lparr>f_path := f_path f, f_deleted := True, f_bpath := bp\<rparr>;
          r = file_in api fs (stream_at p (drop 64 out)) g in
      if ex then
        (case fs_remove api fs (c_str bp) of
           Inl _ \<Rightarrow> r = Inl Filesystem_error | Inr fs' \<Rightarrow> \<exists>s. r = Inr (s, g', fs'))
      else \<exists>s. r = Inr (s, g', fs))"
proof -
  have l: "length (digest h) = 64" using assms(2) by (simp add: filled_cases)
  have out: "file_out f = Inr (digest h @ f_path f @ ''IN_DELETE'')"
    using assms(1,2,4) by (simp add: file_out_def getBytes_def filled_cases)
  obtain s where "file_in api fs (stream_at p (f_path f @ ''IN_DELETE'')) g =
      file_in_delete api fs s (f_path f) (g\<lparr>f_path := f_path f\<rparr>)"
    using file_in_IN_DELETE [OF assms(5,6,3), of "[]" api fs p] by auto
  then show ?thesis
    unfolding out using l assms(7,8) by (auto simp: file_in_delete_def Let_def split: sum.splits)
qed

theorem deletion_roundtrip_witness:
  "\<exists>out s g. file_out (sample_file\<lparr>f_deleted := True\<rparr>) = Inr out \<and>
     file_in mem_api ((\<lambda>_. None)(''/b/a'' \<mapsto> ''data'')) (stream_at [] (drop 64 out))
       (File_default ''/b'' (Some sample_hash_obj)) = Inr (s, g, (\<lambda>_. None)) \<and> f_deleted g"
proof -
  let ?g = "File_default ''/b'' (Some sample_hash_obj)"
  have cp: "constructPath (f_box_path ?g) (f_path (sample_file\<lparr>f_deleted := True\<rparr>)) = Inr (''/b/'' @ sample_path)"
    by (simp only: File_default_def sample_file_def File.simps sample_props)
  have ex: "fs_exists mem_api ((\<lambda>_. None)(''/b/a'' \<mapsto> ''data'')) (c_str (''/b/'' @ sample_path)) = Inr True"
    unfolding sample_props by (simp add: mem_api_def)
  have rm: "fs_remove mem_api ((\<lambda>_. None)(''/b/a'' \<mapsto> ''data'')) (c_str (''/b/'' @ sample_path)) = Inr (\<lambda>_. None)"
    unfolding sample_props by (simp add: mem_api_def)
  have "f_box_hash (sample_file\<lparr>f_deleted := True\<rparr>) = Some sample_hash_obj"
    "length (f_path (sample_file\<lparr>f_deleted := True\<rparr>)) = F_MAXIMUM_PATH_LENGTH"
    by (simp_all add: sample_file_def File_default_def sample_props)
  from deletion_roundtrip [OF this(1) sample_props(1) this(2) _ _ _ cp ex, of "[]"] rm
  show ?thesis by (auto simp: File_default_def Let_def)
qed

text \<open>The mode of a set-user-ID or set-group-ID file is lost on the wire when its first byte is
  white space (modes 04400 to 06777) and the second is not: whatever \<^verbatim>\<open>>>\<close> returns has another
  mode.\<close>

lemma whitespace_mode_lost:
  assumes "length (f_path f) = F_MAXIMUM_PATH_LENGTH" "f_type f = regular_file"
    "f_box_hash g \<noteq> None" "f_box_path g \<noteq> []"
    "htobe16 (f_mode f) = [a, b]" "is_space a" "\<not> is_space b"
    "file_in api fs (stream_at p (f_path f @ meta_bytes f @ t)) g = Inr (s, g', fs')"
  shows "f_mode g' \<noteq> f_mode f"
proof -
  define r where "r = htobe32 (f_mtime f) @ htobe64 (f_size f) @ t"
  have ty: "byte_of (f_type f) = [CHR 0x02]" using assms(2) by (simp add: byte_of_def regular_file_def char_of_eq_iff)
  have m: "meta_bytes f @ t = a # b # CHR 0x02 # r" by (simp add: meta_bytes_def assms(5) ty r_def)
  have sk: "skipws (stream_at (p @ f_path f) (a # b # CHR 0x02 # r)) =
      (True, stream_at ((p @ f_path f) @ [a]) (b # CHR 0x02 # r))"
    using assms(6,7) by (rule skipws_space)
  have "file_in api fs (stream_at p (f_path f @ meta_bytes f @ t)) g =
      file_in_body api fs (stream_at ((p @ f_path f) @ [a]) (b # CHR 0x02 # r)) (f_path f)
        (g\<lparr>f_path := f_path f\<rparr>)"
    unfolding m using assms(7) by (intro file_in_path [OF assms(3,4,1) sk]) (simp add: is_space_def)
  moreover have "read_exact 2 (stream_at q (b # CHR 0x02 # r)) =
      Inr ([b, CHR 0x02], stream_at (q @ [b, CHR 0x02]) r)" for q
    using read_exact_stream_at [of "[b, CHR 0x02]" 2 q r] by simp
  ultimately have g': "f_mode g' = be16toh [b, CHR 0x02]"
    using assms(8) file_in_body_mode by metis
  show ?thesis
  proof
    assume "f_mode g' = f_mode f"
    then have "htobe16 (be16toh [b, CHR 0x02]) = [a, b]" using g' assms(5) by simp
    moreover have "htobe16 (be16toh [b, CHR 0x02]) = [b, CHR 0x02]"
    proof -
      have "be_nat [b, CHR 0x02] < 256 ^ 2" using be_nat_less [of "[b, CHR 0x02]"] by simp
      then have "unat (be16toh [b, CHR 0x02]) = be_nat [b, CHR 0x02]"
        by (simp add: be16toh_def unat_of_nat)
      then show ?thesis by (simp add: htobe16_def be_bytes_be_nat)
    qed
    ultimately show False using assms(6) by (auto simp: is_space_def)
  qed
qed

text \<open>C17. The data of a file arrives unchanged: read package by package until the flag is down, the
  content comes in packages of at most 4096 bytes, as many as it needs, and storing them in order
  into the receiver's file of that size leaves exactly that content there. The receiver's file exists and
  is its own: in the states \<open>own\<close> the file system writes what it is given and sets the time.\<close>

theorem package_transfer:
  assumes "usable f" "fs_content api fs (c_str (f_bpath f)) = Some c" "length c = unat (f_size f)" "length c < 2 ^ 62"
    and "usable g" "fs_content api' fs' (c_str (f_bpath g)) = Some r" "f_size g = f_size f" "length r = length c"
    and "store_law api' own (c_str (f_bpath g))" "own fs'"
  shows "\<exists>pkgs g' fs''. read_packages api fs (length c div 4096 + 1) f 0 = Some pkgs \<and>
     length pkgs = max 1 ((length c + 4095) div 4096) \<and> list_all (\<lambda>d. length d \<le> 4096) pkgs \<and>
     store_packages api' fs' g 0 pkgs = Inr (g', fs'') \<and> fs_content api' fs'' (c_str (f_bpath g)) = Some c"
proof -
  have "length c < 4096 * (length c div 4096 + 1) + 1" by simp
  then have r: "read_packages api fs (length c div 4096 + 1) f 0 = Some (split_packages c)"
    using read_packages_split [OF assms(1-4), of 0 "length c div 4096 + 1"] by simp
  have "\<exists>g' fs''. store_packages api' fs' g 0 (split_packages (drop 0 c)) = Inr (g', fs'') \<and>
      fs_content api' fs'' (c_str (f_bpath g)) = Some c"
    using assms(3,7) by (intro store_packages_split [OF assms(5,6) _ assms(4,8) _ _ assms(9,10)]) simp_all
  with r length_split_packages [of c] show ?thesis by auto
qed

theorem package_transfer_witness:
  "\<exists>pkgs g' fs''. read_packages mem_api ((\<lambda>_. None)(''/b/a'' \<mapsto> ''xyz'')) 1 sample_file 0 = Some pkgs \<and>
     store_packages mem_api ((\<lambda>_. None)(''/b/a'' \<mapsto> ''000'')) sample_file 0 pkgs = Inr (g', fs'') \<and>
     fs'' ''/b/a'' = Some ''xyz''"
proof -
  have u: "usable sample_file" "f_size sample_file = 3"
    by (simp_all add: usable_def sample_file_def File_default_def fstream_closed_def)
  have p: "c_str (f_bpath sample_file) = ''/b/a''" by (simp add: sample_file_def c_str_def NUL_def)
  have c: "fs_content mem_api fs q = fs q" for fs q by (simp add: mem_api_def)
  have l: "store_law mem_api (\<lambda>fs. fs q \<noteq> None) q" for q by (simp add: store_law_def mem_api_def)
  show ?thesis
    using package_transfer [of sample_file mem_api "(\<lambda>_. None)(''/b/a'' \<mapsto> ''xyz'')" "''xyz''" sample_file mem_api
        "(\<lambda>_. None)(''/b/a'' \<mapsto> ''000'')" "''000''" "\<lambda>fs. fs ''/b/a'' \<noteq> None"] u l by (simp add: p c) blast
qed

text \<open>C18. Every constructor that succeeds stores the whole path in the 128-byte array and pads it
  with zeros, and every operation keeps the array's length; a longer path is rejected with a range
  error by the constructors that check it and overruns the array in the one for deleted files.\<close>

theorem path_array_invariant:
  "(File_typed api fs b h path ty cr = Inr (f, fs') \<or> File_mode api fs b h path m ty t cr = Inr (f, fs') \<or>
    File_copy api fs b h path f0 cr = Inr (f, fs') \<or> File_path api fs b h path = Inr (f, fs') \<or>
    File_deleted b h path cr del = Inr f \<longrightarrow>
      f_path f = path @ replicate (128 - length path) NUL \<and> length (f_path f) = 128) \<and>
   (length (f_path g) = 128 \<and>
     (file_in api fs s g = Inr (s', f, fs') \<or> storeFileData api fs g d n off = Inr (f, fs') \<or>
      readFileData api fs g k ro mo = (bs, k', mo', f) \<or> create_file api fs g = Inr (f, fs') \<or>
      resize api fs g k = Inr (f, fs') \<or> openFile api fs g = f \<or> closeFile g = f) \<longrightarrow> length (f_path f) = 128) \<and>
   (length path > 128 \<and> b \<noteq> [] \<longrightarrow> File_typed api fs b h path ty cr = Inl Range_error \<and>
      File_mode api fs b h path m ty t cr = Inl Range_error \<and> File_copy api fs b h path f0 cr = Inl Range_error \<and>
      File_deleted b h path cr del = Inl Undefined_behaviour)"
proof (intro conjI impI)
  assume "File_typed api fs b h path ty cr = Inr (f, fs') \<or> File_mode api fs b h path m ty t cr = Inr (f, fs') \<or>
    File_copy api fs b h path f0 cr = Inr (f, fs') \<or> File_path api fs b h path = Inr (f, fs') \<or>
    File_deleted b h path cr del = Inr f"
  then have "padded path f" by (elim disjE) (erule constructors_padded)+
  then show "f_path f = path @ replicate (128 - length path) NUL" "length (f_path f) = 128"
    unfolding padded_def by blast+
qed (auto simp: path_too_long operations_path resize_path dest: file_in_path_length operations_path(1-3) resize_path)

theorem path_array_invariant_witness:
  "File_typed mem_api (\<lambda>_. None) ''/b'' None (replicate 129 CHR ''a'') 2 True = Inl Range_error"
  using path_array_invariant [of mem_api "\<lambda>_. None" "''/b''" None "replicate 129 CHR ''a''" 2 True] by simp

end
