(* ===== verification/Boxoffice.thy ===== *)
theory Boxoffice
  imports Flock_FSM_Laws File
begin

text \<open>
  The class \<^verbatim>\<open>Boxoffice\<close> (\<^verbatim>\<open>include/boxoffice.hpp\<close>, \<^verbatim>\<open>src/boxoffice.cpp\<close>): the router
  that drives the state machine. Its state is the record \<open>boxoffice\<close>; \<open>processEvent\<close> is one step on
  the message the router received, with the clock and the random numbers it reads as an input
  record. The messages it sends to the dispatchers and the heartbeaters are appended to two lists.
  A queue of \<^verbatim>\<open>File*\<close> keeps the addresses, since \<^verbatim>\<open>std::find\<close> compares them. The map of
  the subscribers keeps of each key whether the \<^verbatim>\<open>Hash\<close> behind it has been deleted: comparing
  with such a key has no meaning.
\<close>

section \<open>State\<close>

definition F_SIGTYPE_LIFE :: int where "F_SIGTYPE_LIFE = 0"
definition F_SIGTYPE_PUB :: int where "F_SIGTYPE_PUB = 1"
definition F_SIGTYPE_SUB :: int where "F_SIGTYPE_SUB = 2"
definition F_SIGTYPE_INOTIFY :: int where "F_SIGTYPE_INOTIFY = 3"
definition F_SIGTYPE_FSM :: int where "F_SIGTYPE_FSM = 4"
definition F_SIGLIFE_ALIVE :: int where "F_SIGLIFE_ALIVE = 0"
definition F_SIGLIFE_EXIT :: int where "F_SIGLIFE_EXIT = 1"
definition F_SIGLIFE_INTERRUPT :: int where "F_SIGLIFE_INTERRUPT = 2"
definition F_MINIMUM_SEND_OFFSET :: u32 where "F_MINIMUM_SEND_OFFSET = 3000"
definition F_MINIMUM_STOP_OFFSET :: u32 where "F_MINIMUM_STOP_OFFSET = 1000"

lemmas sig_defs = F_SIGTYPE_LIFE_def F_SIGTYPE_PUB_def F_SIGTYPE_SUB_def F_SIGTYPE_INOTIFY_def
  F_SIGTYPE_FSM_def F_SIGLIFE_ALIVE_def F_SIGLIFE_EXIT_def F_SIGLIFE_INTERRUPT_def

record node =
  n_endpoint :: string
  n_subtype :: int
  n_last_timestamp :: u64
  n_offset :: u16
  n_public_key :: string
  n_uid :: string
  n_replied :: bool

definition node_default :: node where
  "node_default = \<lparr>n_endpoint = [], n_subtype = 0, n_last_timestamp = 0, n_offset = 0, n_public_key = [],
     n_uid = replicate 64 NUL, n_replied = False\<rparr>"

record subscription =
  s_key :: hash
  s_freed :: bool
  s_node :: node

record 'fs boxoffice =
  bo_state :: state_t
  bo_file_list_metadata :: "(nat \<times> File) list"
  bo_file_list_data :: "(nat \<times> File) list"
  bo_current_timing_offset :: u64
  bo_notified_dispatch :: bool
  bo_current_box :: "string option"
  bo_current_file :: istream
  bo_file_metadata_written :: bool
  bo_stop_sync_timeout_received :: bool
  bo_current_node_hash :: "hash option"
  bo_node_hash_is_key :: bool
  bo_subscribers :: "subscription list"
  bo_boxes :: "(string \<times> string) list"
  bo_next_ptr :: nat
  bo_disp :: "string list"
  bo_hb :: "string list"
  bo_fs :: 'fs

definition Boxoffice_init :: "'fs \<Rightarrow> subscription list \<Rightarrow> (string \<times> string) list \<Rightarrow> 'fs boxoffice" where
  "Boxoffice_init fs subs boxes =
    \<lparr>bo_state = ready_state, bo_file_list_metadata = [], bo_file_list_data = [],
     bo_current_timing_offset = -1, bo_notified_dispatch = False, bo_current_box = None,
     bo_current_file = stream_of [], bo_file_metadata_written = False,
     bo_stop_sync_timeout_received = False, bo_current_node_hash = None, bo_node_hash_is_key = False,
     bo_subscribers = subs, bo_boxes = boxes, bo_next_ptr = 0, bo_disp = [], bo_hb = [], bo_fs = fs\<rparr>"

text \<open>What one call reads from the clock (in milliseconds) and from \<^verbatim>\<open>randombytes_uniform\<close>.\<close>

record env =
  e_now_recv :: u64
  e_now_send :: u64
  e_rnd_send :: u32
  e_now_stop :: u64
  e_rnd_stop :: u32

section \<open>The maps\<close>

text \<open>\<^verbatim>\<open>subscribers[h]\<close>: the map after the access, and whether the key was inserted. Keys with the same
  eight leading bytes are compared.\<close>

definition sub_access :: "hash \<Rightarrow> subscription list \<Rightarrow> (subscription list \<times> bool) result" where
  "sub_access h subs =
    (if list_ex (\<lambda>e. s_freed e \<and> take 8 (digest (s_key e)) = take 8 (digest h)) subs
     then Inl Undefined_behaviour
     else if list_ex (\<lambda>e. digest (s_key e) = digest h) subs then Inr (subs, False)
     else Inr (subs @ [\<lparr>s_key = h, s_freed = False, s_node = node_default\<rparr>], True))"

definition sub_update :: "hash \<Rightarrow> (node \<Rightarrow> node) \<Rightarrow> subscription list \<Rightarrow> subscription list" where
  "sub_update h g subs =
    map (\<lambda>e. if digest (s_key e) = digest h then e\<lparr>s_node := g (s_node e)\<rparr> else e) subs"

definition sub_node :: "hash \<Rightarrow> subscription list \<Rightarrow> node" where
  "sub_node h subs =
    (case find (\<lambda>e. digest (s_key e) = digest h) subs of Some e \<Rightarrow> s_node e | None \<Rightarrow> node_default)"

definition all_replied :: "subscription list \<Rightarrow> bool" where
  "all_replied subs = list_all (\<lambda>e. n_replied (s_node e)) subs"

definition reset_replied :: "subscription list \<Rightarrow> subscription list" where
  "reset_replied subs = map (\<lambda>e. e\<lparr>s_node := (s_node e)\<lparr>n_replied := False\<rparr>\<rparr>) subs"

text \<open>\<^verbatim>\<open>boxes[h]->getBaseDir()\<close>: an unknown hash gives a null pointer.\<close>

definition box_base_dir :: "hash \<Rightarrow> 'fs boxoffice \<Rightarrow> string result" where
  "box_base_dir h bo =
    (case map_of (bo_boxes bo) (digest h) of None \<Rightarrow> Inl Undefined_behaviour | Some d \<Rightarrow> Inr d)"

section \<open>Messages\<close>

definition signal :: "int \<Rightarrow> int \<Rightarrow> string" where
  "signal ty sg = dec ty @ '' '' @ dec sg"

definition fsm_message :: "status_t \<Rightarrow> string \<Rightarrow> string" where
  "fsm_message status payload = signal F_SIGTYPE_FSM (status_code status) @ '' '' @ payload"

definition send_disp :: "string \<Rightarrow> 'fs boxoffice \<Rightarrow> 'fs boxoffice" where
  "send_disp m bo = bo\<lparr>bo_disp := bo_disp bo @ [m]\<rparr>"

definition send_hb :: "string \<Rightarrow> 'fs boxoffice \<Rightarrow> 'fs boxoffice" where
  "send_hb m bo = bo\<lparr>bo_hb := bo_hb bo @ [m]\<rparr>"

text \<open>\<^verbatim>\<open>current_file_\<close> is set to the image of a file from its byte 32 on.\<close>

definition set_current_file :: "File \<Rightarrow> 'fs boxoffice \<Rightarrow> 'fs boxoffice result" where
  "set_current_file f bo =
    bindE (file_out f) (\<lambda>cf. Inr (bo\<lparr>bo_current_file := stream_of (drop 32 cf)\<rparr>))"

section \<open>Heartbeats\<close>

definition updateTimestamp :: "env \<Rightarrow> istream \<Rightarrow> 'fs boxoffice \<Rightarrow> (istream \<times> 'fs boxoffice) result" where
  "updateTimestamp e s bo =
    bindE (read_exact F_GENERIC_HASH_LEN s) (\<lambda>(node_hash, s).
    let subs = (case bo_current_node_hash bo of
                  Some k \<Rightarrow> if bo_node_hash_is_key bo
                    then map (\<lambda>x. if digest (s_key x) = digest k then x\<lparr>s_freed := True\<rparr> else x) (bo_subscribers bo)
                    else bo_subscribers bo
                | None \<Rightarrow> bo_subscribers bo);
        h = Hash_bytes node_hash
    in bindE (read_exact 8 (seekg_cur 1 s)) (\<lambda>(node_timestamp, s).
       bindE (sub_access h subs) (\<lambda>(subs, inserted).
       let subs = sub_update h (\<lambda>n. n\<lparr>n_last_timestamp := be64toh node_timestamp\<rparr>) subs;
           offset = (ucast (e_now_recv e - n_last_timestamp (sub_node h subs)) :: u16)
       in Inr (s, bo\<lparr>bo_current_node_hash := Some h, bo_node_hash_is_key := inserted,
            bo_subscribers := sub_update h (\<lambda>n. n\<lparr>n_offset := offset\<rparr>) subs\<rparr>))))"

definition prepareHeartbeatMessage :: "env \<Rightarrow> state_t \<Rightarrow> 'fs boxoffice \<Rightarrow> (string \<times> 'fs boxoffice) result" where
  "prepareHeartbeatMessage e new_state bo =
    (if new_state \<in> {sending_new_file_metadata_state, sending_new_file_metadata_with_more_state} then
       (case bo_file_list_data bo of
          [] \<Rightarrow> Inl Undefined_behaviour
        | (_, f) # fl \<Rightarrow>
            bindE (set_current_file f bo) (\<lambda>bo.
            bindE (file_out f) (\<lambda>image.
              Inr (image @ htobe64 (bo_current_timing_offset bo), bo\<lparr>bo_file_list_data := fl\<rparr>))))
     else if new_state \<in> {sending_file_metadata_change_state, sending_file_metadata_change_with_more_state} then
       (case bo_file_list_metadata bo of
          [] \<Rightarrow> Inl Undefined_behaviour
        | (_, f) # fl \<Rightarrow>
            bindE (set_current_file f bo) (\<lambda>bo.
            bindE (file_out f) (\<lambda>image. Inr (image, bo\<lparr>bo_file_list_metadata := fl\<rparr>))))
     else if new_state = syncing_stop_state \<and> \<not> bo_stop_sync_timeout_received bo then
       let random_offset = e_rnd_stop e + F_MINIMUM_STOP_OFFSET;
           t = e_now_stop e + ucast random_offset
       in Inr (htobe64 t,
            (send_disp (fsm_message status_155 (htobe64 t)) (bo\<lparr>bo_current_timing_offset := t\<rparr>))
              \<lparr>bo_stop_sync_timeout_received := True\<rparr>)
     else Inr ([], bo))"

definition updateHeartbeat :: "env \<Rightarrow> status_t \<Rightarrow> state_t \<Rightarrow> 'fs boxoffice \<Rightarrow> 'fs boxoffice result" where
  "updateHeartbeat e new_status new_state bo =
    bindE (prepareHeartbeatMessage e new_state bo) (\<lambda>(m, bo). Inr (send_hb (fsm_message new_status m) bo))"

definition performAction :: "env \<Rightarrow> event_t \<Rightarrow> action_t \<Rightarrow> status_t \<Rightarrow> state_t \<Rightarrow> 'fs boxoffice \<Rightarrow> 'fs boxoffice result" where
  "performAction e event action received_status new_state bo =
    (if action = send_heartbeat_action
     then updateHeartbeat e (get_heartbeat_status (bo_state bo) event received_status) new_state bo
     else Inr bo)"

section \<open>Received heartbeats\<close>

datatype 'b flow =
    Return int 'b
  | Proceed status_t event_t istream 'b

text \<open>The status is changed by hand and must be accepted in the current state.\<close>

definition change_status :: "status_t \<Rightarrow> istream \<Rightarrow> 'fs boxoffice \<Rightarrow> 'fs boxoffice flow" where
  "change_status status s bo =
    (let event = get_event_by_status_code status in
     if check_event (bo_state bo) event status then Proceed status event s bo else Return 1 bo)"

text \<open>\<^verbatim>\<open>subscribers[current_node_hash_].replied = true\<close>, then: have all replied? If so they are reset.\<close>

definition note_reply :: "'fs boxoffice \<Rightarrow> (bool \<times> 'fs boxoffice) result" where
  "note_reply bo =
    (case bo_current_node_hash bo of
       None \<Rightarrow> Inl Undefined_behaviour
     | Some h \<Rightarrow>
         bindE (sub_access h (bo_subscribers bo)) (\<lambda>(subs, inserted).
         let subs = sub_update h (\<lambda>n. n\<lparr>n_replied := True\<rparr>) subs;
             bo = bo\<lparr>bo_node_hash_is_key := bo_node_hash_is_key bo \<or> inserted\<rparr>
         in if all_replied subs then Inr (True, bo\<lparr>bo_subscribers := reset_replied subs\<rparr>)
            else Inr (False, bo\<lparr>bo_subscribers := subs\<rparr>)))"

text \<open>The box hash behind one separator byte, its box, and the file read from the stream.\<close>

definition read_box_file :: "'fs fs_api \<Rightarrow> istream \<Rightarrow> 'fs boxoffice \<Rightarrow> (string \<times> File \<times> istream \<times> 'fs boxoffice) result" where
  "read_box_file api s bo =
    bindE (read_exact F_GENERIC_HASH_LEN (seekg_cur 1 s)) (\<lambda>(box_hash, s).
    let h = Hash_bytes box_hash in
    bindE (box_base_dir h bo) (\<lambda>dir.
    bindE (file_in api (bo_fs bo) s (File_default dir (Some h))) (\<lambda>(s, f, fs).
    Inr (box_hash, f, s, bo\<lparr>bo_fs := fs\<rparr>))))"

definition received_130 :: "'fs fs_api \<Rightarrow> istream \<Rightarrow> 'fs boxoffice \<Rightarrow> (istream \<times> 'fs boxoffice) result" where
  "received_130 api s bo =
    (if bo_state bo = promoting_new_file_metadata_state \<and> \<not> bo_notified_dispatch bo then
       bindE (read_box_file api s bo) (\<lambda>(box_hash, new_file, s, bo).
       bindE (if \<not> bo_file_metadata_written bo then
                bindE (storeMetadata api (bo_fs bo) new_file) (\<lambda>fs.
                bindE (resize_self api fs new_file) (\<lambda>(f, fs).
                Inr (f, bo\<lparr>bo_fs := fs, bo_file_metadata_written := True\<rparr>)))
              else Inr (new_file, bo)) (\<lambda>(new_file, bo).
       bindE (set_current_file new_file (bo\<lparr>bo_current_box := Some box_hash\<rparr>)) (\<lambda>bo.
       bindE (read_exact 8 s) (\<lambda>(timing_offset, s).
       Inr (s, (send_disp (fsm_message status_130 timing_offset) (bo\<lparr>bo_notified_dispatch := False\<rparr>))
                 \<lparr>bo_notified_dispatch := True\<rparr>)))))
     else Inr (s, bo))"

text \<open>Writing received metadata to disk once, for a file that is not to be deleted.\<close>

definition write_metadata :: "'fs fs_api \<Rightarrow> File \<Rightarrow> 'fs boxoffice \<Rightarrow> (File \<times> 'fs boxoffice) result" where
  "write_metadata api new_file bo =
    (if \<not> isToBeDeleted new_file \<and> \<not> bo_file_metadata_written bo then
       bindE (file_exists api (bo_fs bo) new_file) (\<lambda>ex.
       bindE (if ex then resize_self api (bo_fs bo) new_file else create_file api (bo_fs bo) new_file) (\<lambda>(f, fs).
       bindE (storeMetadata api fs f) (\<lambda>fs.
       Inr (f, bo\<lparr>bo_fs := fs, bo_file_metadata_written := True\<rparr>))))
     else Inr (new_file, bo))"

definition received_170 :: "'fs fs_api \<Rightarrow> event_t \<Rightarrow> istream \<Rightarrow> 'fs boxoffice \<Rightarrow> 'fs boxoffice flow result" where
  "received_170 api event s bo =
    (if bo_state bo = receiving_file_metadata_change_state then
       bindE (read_box_file api s bo) (\<lambda>(box_hash, new_file, s, bo).
       bindE (write_metadata api new_file bo) (\<lambda>(f, bo).
       Inr (change_status status_173 s (bo\<lparr>bo_file_metadata_written := False\<rparr>))))
     else Inr (Proceed status_170 event s bo))"

definition received_174 :: "'fs fs_api \<Rightarrow> event_t \<Rightarrow> istream \<Rightarrow> 'fs boxoffice \<Rightarrow> 'fs boxoffice flow result" where
  "received_174 api event s bo =
    (if bo_state bo = receiving_file_metadata_change_with_more_state then
       bindE (read_box_file api s bo) (\<lambda>(box_hash, new_file, s, bo).
       bindE (write_metadata api new_file bo) (\<lambda>(f, bo).
       bindE (set_current_file f (bo\<lparr>bo_current_box := Some box_hash\<rparr>)) (\<lambda>bo.
       Inr (change_status status_173 s (bo\<lparr>bo_notified_dispatch := False\<rparr>)))))
     else Inr (Proceed status_174 event s bo))"

definition received_150 :: "env \<Rightarrow> event_t \<Rightarrow> istream \<Rightarrow> 'fs boxoffice \<Rightarrow> 'fs boxoffice flow result" where
  "received_150 e event s bo =
    (if bo_state bo = ready_state then
       let event = get_event_by_status_code status_100 in
       if \<not> check_event (bo_state bo) event status_100 then Inr (Return 1 bo)
       else bindE (performAction e event (get_action (bo_state bo) event status_100) status_100 (bo_state bo) bo)
              (\<lambda>bo. Inr (Proceed status_100 event s bo))
     else Inr (Proceed status_150 event s bo))"

definition received_155 :: "istream \<Rightarrow> 'fs boxoffice \<Rightarrow> (istream \<times> 'fs boxoffice) result" where
  "received_155 s bo =
    (if \<not> bo_stop_sync_timeout_received bo then
       bindE (read_exact 8 (seekg_cur 1 s)) (\<lambda>(timing_offset, s).
       Inr (s, (send_disp (fsm_message status_155 timing_offset) bo)\<lparr>bo_stop_sync_timeout_received := True\<rparr>))
     else Inr (s, bo))"

text \<open>The status that follows when every node has answered.\<close>

definition status_when_all_replied :: "status_t \<Rightarrow> 'fs boxoffice \<Rightarrow> status_t" where
  "status_when_all_replied status bo =
    (if status = status_121 then status_122
     else if status = status_161 then status_162
     else if status = status_165 then status_166
     else if status = status_140 then status_142
     else if length (bo_file_list_metadata bo) > 0 then status_174
     else if length (bo_file_list_data bo) > 1 then status_178
     else if length (bo_file_list_data bo) > 0 then status_177
     else status_172)"

definition received_reply :: "status_t \<Rightarrow> event_t \<Rightarrow> istream \<Rightarrow> 'fs boxoffice \<Rightarrow> 'fs boxoffice flow result" where
  "received_reply status event s bo =
    bindE (note_reply bo) (\<lambda>(complete, bo).
      if complete then
        Inr (change_status (status_when_all_replied status bo) s
          (if status = status_121 then bo\<lparr>bo_file_metadata_written := False\<rparr> else bo))
      else Inr (Proceed status event s bo))"

definition received_heartbeat :: "'fs fs_api \<Rightarrow> env \<Rightarrow> status_t \<Rightarrow> event_t \<Rightarrow> istream \<Rightarrow> 'fs boxoffice \<Rightarrow>
    'fs boxoffice flow result" where
  "received_heartbeat api e status event s bo =
    bindE (updateTimestamp e s bo) (\<lambda>(s, bo).
    if status = status_100 then
      Inr (Proceed status event s (bo\<lparr>bo_stop_sync_timeout_received := False\<rparr>))
    else if status \<in> {status_121, status_161, status_165, status_140, status_141} then
      received_reply status event s bo
    else if status \<in> {status_120, status_124} then
      Inr (Proceed status event s (bo\<lparr>bo_notified_dispatch := False\<rparr>))
    else if status = status_132 then
      Inr (Proceed status event s (bo\<lparr>bo_subscribers := reset_replied (bo_subscribers bo)\<rparr>))
    else if status = status_130 then
      bindE (received_130 api s bo) (\<lambda>(s, bo). Inr (Proceed status event s bo))
    else if status = status_160 then
      Inr (Proceed status event s (bo\<lparr>bo_file_metadata_written := False\<rparr>))
    else if status = status_170 then received_170 api event s bo
    else if status = status_174 then received_174 api event s bo
    else if status = status_150 then received_150 e event s bo
    else if status = status_155 then
      bindE (received_155 s bo) (\<lambda>(s, bo). Inr (Proceed status event s bo))
    else Inr (Proceed status event s bo))"

section \<open>The dispatcher is told when to fire\<close>

definition notify_dispatcher :: "env \<Rightarrow> status_t \<Rightarrow> istream \<Rightarrow> 'fs boxoffice \<Rightarrow> (istream \<times> 'fs boxoffice) result" where
  "notify_dispatcher e status s bo =
    bindE (read_exact F_GENERIC_HASH_LEN (seekg_beg 5 s)) (\<lambda>(node_hash, s).
    let h = Hash_bytes node_hash; random_offset = e_rnd_send e + F_MINIMUM_SEND_OFFSET in
    bindE (sub_access h (bo_subscribers bo)) (\<lambda>(subs, inserted).
    let t = e_now_send e + ucast random_offset - scast (n_offset (sub_node h subs));
        bo = bo\<lparr>bo_subscribers := subs, bo_current_timing_offset := t\<rparr>
    in case bo_current_box bo of
         None \<Rightarrow> Inl Undefined_behaviour
       | Some box_hash \<Rightarrow>
           bindE (box_base_dir (Hash_bytes box_hash) bo) (\<lambda>dir.
           case bo_file_list_data bo of
             [] \<Rightarrow> Inl Undefined_behaviour
           | (_, current_file) # _ \<Rightarrow>
               bindE (file_out current_file) (\<lambda>cf.
               Inr (s, send_disp (fsm_message status (htobe64 t @ box_hash @ dir @ '' '' @ drop 32 cf)) bo)))))"

section \<open>Local files\<close>

definition IN_DELETE :: int where "IN_DELETE = 0x200"

definition is_local_event :: "event_t \<Rightarrow> bool" where
  "is_local_event event \<longleftrightarrow>
    event = new_local_file_event \<or> event = new_local_file_with_more_event \<or>
    event = local_file_metadata_change_event \<or> event = local_file_metadata_change_with_more_event"

definition file_list :: "event_t \<Rightarrow> 'fs boxoffice \<Rightarrow> (nat \<times> File) list" where
  "file_list event bo =
    (if event = new_local_file_event \<or> event = new_local_file_with_more_event
     then bo_file_list_data bo else bo_file_list_metadata bo)"

definition push_file :: "event_t \<Rightarrow> nat \<times> File \<Rightarrow> 'fs boxoffice \<Rightarrow> 'fs boxoffice" where
  "push_file event p bo =
    (if event = new_local_file_event \<or> event = new_local_file_with_more_event
     then bo\<lparr>bo_file_list_data := bo_file_list_data bo @ [p]\<rparr>
     else bo\<lparr>bo_file_list_metadata := bo_file_list_metadata bo @ [p]\<rparr>)"

definition make_local_file :: "'fs fs_api \<Rightarrow> int \<Rightarrow> string \<Rightarrow> hash \<Rightarrow> string \<Rightarrow> 'fs boxoffice \<Rightarrow> (File \<times> 'fs boxoffice) result" where
  "make_local_file api inotify_mask dir h path bo =
    (if and inotify_mask IN_DELETE = IN_DELETE
     then bindE (File_deleted dir (Some h) path False True) (\<lambda>f. Inr (f, bo))
     else bindE (File_path api (bo_fs bo) dir (Some h) path) (\<lambda>(f, fs). Inr (f, bo\<lparr>bo_fs := fs\<rparr>)))"

definition local_file :: "'fs fs_api \<Rightarrow> status_t \<Rightarrow> event_t \<Rightarrow> istream \<Rightarrow> 'fs boxoffice \<Rightarrow> 'fs boxoffice flow result" where
  "local_file api status event s bo =
    (let (inotify_mask, s) = extract_int 0 s in
     bindE (read_exact F_GENERIC_HASH_LEN s) (\<lambda>(box_hash, s).
     let bo = bo\<lparr>bo_current_box := Some box_hash\<rparr>; (path, s) = extract_word [] s in
     if length path > 128 then Inr (Return 1 bo)
     else
       let h = Hash_bytes box_hash in
       bindE (box_base_dir h bo) (\<lambda>dir.
       bindE (make_local_file api inotify_mask dir h path bo) (\<lambda>(new_file, bo).
       let ptr = bo_next_ptr bo;
           bo = bo\<lparr>bo_next_ptr := Suc ptr\<rparr>;
           (status, event, bo) =
             (if bo_state bo = announcing_new_file_state then
                (if list_ex (\<lambda>q. fst q = ptr) (file_list event bo)
                 then (status, event, push_file event (ptr, new_file) bo)
                 else (status_301, get_event_by_status_code status_301, bo))
              else (status, event, push_file event (ptr, new_file) bo))
       in Inr (Proceed status event s (bo\<lparr>bo_subscribers := reset_replied (bo_subscribers bo)\<rparr>))))))"

section \<open>File data\<close>

definition received_data :: "'fs fs_api \<Rightarrow> status_t \<Rightarrow> event_t \<Rightarrow> istream \<Rightarrow> 'fs boxoffice \<Rightarrow> 'fs boxoffice flow result" where
  "received_data api status event s bo =
    (case bo_current_box bo of
       None \<Rightarrow> Inl Undefined_behaviour
     | Some box_hash \<Rightarrow>
         let h = Hash_bytes box_hash in
         bindE (box_base_dir h bo) (\<lambda>dir.
         bindE (file_in api (bo_fs bo) (bo_current_file bo) (File_default dir (Some h))) (\<lambda>(cf, f, fs).
         let bo = bo\<lparr>bo_current_file := cf, bo_fs := fs\<rparr> in
         bindE (read_exact 8 (seekg_cur (int F_GENERIC_HASH_LEN) s)) (\<lambda>(offset, s).
         bindE (read_exact 8 s) (\<lambda>(data_size, s).
         bindE (read_exact 1 s) (\<lambda>(more0, s).
         bindE (read_exact (unat (be64toh data_size)) s) (\<lambda>(contents, s).
         bindE (storeFileData api (bo_fs bo) f contents (sint (be64toh data_size)) (sint (be64toh offset))) (\<lambda>(f, fs).
         let bo = bo\<lparr>bo_fs := fs\<rparr> in
         if of_byte more0 = 0 then Inr (change_status status_113 s bo)
         else Inr (Proceed status event s bo)))))))))"

section \<open>One event\<close>

definition fsm_continue :: "env \<Rightarrow> status_t \<Rightarrow> event_t \<Rightarrow> 'fs boxoffice \<Rightarrow> (int \<times> 'fs boxoffice) result" where
  "fsm_continue e status event bo =
    (let new_state = get_new_state (bo_state bo) event status in
     if bo_state bo \<noteq> new_state then
       bindE (performAction e event (get_action (bo_state bo) event status) status new_state bo)
         (\<lambda>bo. Inr (0, bo\<lparr>bo_state := new_state\<rparr>))
     else Inr (0, bo))"

text \<open>A block of the handler runs when its condition holds and no earlier block returned.\<close>

definition block :: "(status_t \<Rightarrow> event_t \<Rightarrow> bool) \<Rightarrow>
    (status_t \<Rightarrow> event_t \<Rightarrow> istream \<Rightarrow> 'fs boxoffice \<Rightarrow> 'fs boxoffice flow result) \<Rightarrow>
    'fs boxoffice flow \<Rightarrow> 'fs boxoffice flow result" where
  "block c f x =
    (case x of
       Return v bo \<Rightarrow> Inr (Return v bo)
     | Proceed status event s bo \<Rightarrow> if c status event then f status event s bo else Inr x)"

definition dispatch_due :: "status_t \<Rightarrow> event_t \<Rightarrow> bool" where
  "dispatch_due status event \<longleftrightarrow>
    event = all_nodes_replied_event \<and> status = status_122 \<or>
    event = all_nodes_have_all_metadata_changes_with_more_event \<and> status = status_177"

definition processEvent :: "'fs fs_api \<Rightarrow> env \<Rightarrow> status_t \<Rightarrow> istream \<Rightarrow> 'fs boxoffice \<Rightarrow> (int \<times> 'fs boxoffice) result" where
  "processEvent api e status s bo =
    (let event = get_event_by_status_code status in
     if \<not> check_event (bo_state bo) event status then Inr (0, bo)
     else
       bindE (block (\<lambda>_ ev. ev = received_heartbeat_event) (received_heartbeat api e) (Proceed status event s bo)) (\<lambda>x.
       bindE (block dispatch_due
                (\<lambda>st ev s bo. bindE (notify_dispatcher e st s bo) (\<lambda>(s, bo). Inr (Proceed st ev s bo))) x) (\<lambda>x.
       bindE (block (\<lambda>_ ev. is_local_event ev) (local_file api) x) (\<lambda>x.
       bindE (block (\<lambda>_ ev. ev = received_file_data_event) (received_data api) x) (\<lambda>x.
       case x of
         Return v bo \<Rightarrow> Inr (v, bo)
       | Proceed status event _ bo \<Rightarrow> fsm_continue e status event bo)))))"

definition checkEvent :: "state_t \<Rightarrow> event_t \<Rightarrow> status_t \<Rightarrow> bool" where
  "checkEvent state event status = check_event state event status"

text \<open>\<^verbatim>\<open>>> msg_type >> msg_signal\<close>: the two variables live as long as the loop around them.\<close>

definition read_signal :: "int \<times> int \<Rightarrow> string \<Rightarrow> (int \<times> int) \<times> istream" where
  "read_signal vars msg =
    (let (msg_type, s) = extract_int (fst vars) (stream_of msg);
         (msg_signal, s) = extract_int (snd vars) s
     in ((msg_type, msg_signal), s))"

text \<open>The router: one message at a time, with the environment of its event, until an interrupt
  or an event that returns a value other than 0. \<open>None\<close>: the messages at hand are used up.\<close>

fun runRouter :: "'fs fs_api \<Rightarrow> int \<times> int \<Rightarrow> (env \<times> string) list \<Rightarrow> 'fs boxoffice \<Rightarrow>
    (int option \<times> 'fs boxoffice) result" where
  "runRouter api vars [] bo = Inr (None, bo)"
| "runRouter api vars ((e, m) # ms) bo =
     (let ((msg_type, msg_signal), s) = read_signal vars m in
      if msg_type = F_SIGTYPE_LIFE \<and> msg_signal = F_SIGLIFE_INTERRUPT then Inr (Some 0, bo)
      else bindE (processEvent api e (status_of_int msg_signal) s bo) (\<lambda>(ret_val, bo).
        if ret_val \<noteq> 0 then Inr (Some ret_val, bo)
        else runRouter api (msg_type, msg_signal) ms bo))"

section \<open>The life of the children\<close>

text \<open>\<open>heartbeats\<close> messages are awaited; \<open>None\<close>: fewer have arrived, the call still waits.\<close>

fun checkChildren :: "nat \<Rightarrow> int \<times> int \<Rightarrow> string list \<Rightarrow> int option" where
  "checkChildren 0 vars ms = Some 0"
| "checkChildren (Suc heartbeats) vars [] = None"
| "checkChildren (Suc heartbeats) vars (m # ms) =
     (let ((msg_type, msg_signal), s) = read_signal vars m in
      if msg_type \<noteq> F_SIGTYPE_LIFE \<or> msg_signal \<noteq> F_SIGLIFE_ALIVE then Some 1
      else checkChildren heartbeats (msg_type, msg_signal) ms)"

text \<open>The value returned, with the exit signal sent to the main thread.\<close>

fun closeConnections :: "nat \<Rightarrow> int \<Rightarrow> int \<times> int \<Rightarrow> string list \<Rightarrow> (int \<times> string) option" where
  "closeConnections 0 return_value vars ms = Some (return_value, signal F_SIGTYPE_LIFE F_SIGLIFE_EXIT)"
| "closeConnections (Suc heartbeats) return_value vars [] = None"
| "closeConnections (Suc heartbeats) return_value vars (m # ms) =
     (let ((msg_type, msg_signal), s) = read_signal vars m in
      closeConnections heartbeats
        (if msg_type \<noteq> F_SIGTYPE_LIFE \<or> (msg_signal \<noteq> F_SIGLIFE_EXIT \<and> msg_signal \<noteq> F_SIGLIFE_INTERRUPT)
         then 1 else return_value) (msg_type, msg_signal) ms)"

end
