(* ===== verification/Boxoffice_Laws.thy ===== *)
theory Boxoffice_Laws
  imports Boxoffice
begin

text \<open>
  What the router guarantees. The handler of an event is a chain of blocks; the contract of a block
  is the locale \<open>event_block\<close>: it keeps the state, and whatever status it hands on is accepted
  in that state. It is interpreted at the four blocks of \<open>processEvent\<close>, and the refinement of
  the state machine, message by message, follows from the chain.
\<close>

section \<open>What the helpers leave alone\<close>

lemma set_current_file_state:
  "set_current_file f bo = Inr bo' \<Longrightarrow> bo_state bo' = bo_state bo \<and> bo_hb bo' = bo_hb bo"
  by (auto simp: set_current_file_def bindE_eq_Inr)

lemma updateTimestamp_state:
  "updateTimestamp e s bo = Inr (s', bo') \<Longrightarrow> bo_state bo' = bo_state bo \<and> bo_hb bo' = bo_hb bo"
  by (auto simp: updateTimestamp_def bindE_eq_Inr Let_def)

lemma prepareHeartbeatMessage_state:
  "prepareHeartbeatMessage e new_state bo = Inr (m, bo') \<Longrightarrow> bo_state bo' = bo_state bo \<and> bo_hb bo' = bo_hb bo"
  by (auto simp: prepareHeartbeatMessage_def bindE_eq_Inr Let_def send_disp_def
      split: if_splits list.splits dest!: set_current_file_state)

lemma performAction_state:
  "performAction e event action r new_state bo = Inr bo' \<Longrightarrow> bo_state bo' = bo_state bo"
  by (auto simp: performAction_def updateHeartbeat_def bindE_eq_Inr send_hb_def
      split: if_splits dest!: prepareHeartbeatMessage_state)

lemma performAction_heartbeat:
  "performAction e event send_heartbeat_action r new_state bo = Inr bo' \<Longrightarrow>
     \<exists>m. bo_hb bo' = bo_hb bo @ [fsm_message (get_heartbeat_status (bo_state bo) event r) m]"
  by (auto simp: performAction_def updateHeartbeat_def bindE_eq_Inr send_hb_def
      dest!: prepareHeartbeatMessage_state)

lemma note_reply_state:
  "note_reply bo = Inr (c, bo') \<Longrightarrow> bo_state bo' = bo_state bo \<and> bo_hb bo' = bo_hb bo"
  by (auto simp: note_reply_def bindE_eq_Inr Let_def split: option.splits if_splits)

lemma read_box_file_state:
  "read_box_file api s bo = Inr (h, f, s', bo') \<Longrightarrow> bo_state bo' = bo_state bo \<and> bo_hb bo' = bo_hb bo"
  by (auto simp: read_box_file_def bindE_eq_Inr Let_def)

lemma write_metadata_state:
  "write_metadata api f bo = Inr (f', bo') \<Longrightarrow> bo_state bo' = bo_state bo \<and> bo_hb bo' = bo_hb bo"
  by (auto simp: write_metadata_def bindE_eq_Inr split: if_splits)

lemma received_130_state:
  "received_130 api s bo = Inr (s', bo') \<Longrightarrow> bo_state bo' = bo_state bo \<and> bo_hb bo' = bo_hb bo"
  by (auto simp: received_130_def bindE_eq_Inr send_disp_def split: if_splits
      dest!: read_box_file_state set_current_file_state)

lemma received_155_state:
  "received_155 s bo = Inr (s', bo') \<Longrightarrow> bo_state bo' = bo_state bo \<and> bo_hb bo' = bo_hb bo"
  by (auto simp: received_155_def bindE_eq_Inr send_disp_def split: if_splits)

lemma notify_dispatcher_state:
  "notify_dispatcher e status s bo = Inr (s', bo') \<Longrightarrow> bo_state bo' = bo_state bo \<and> bo_hb bo' = bo_hb bo"
  by (cases "bo_file_list_data bo")
    (auto simp: notify_dispatcher_def bindE_eq_Inr Let_def send_disp_def split: option.splits)

lemma make_local_file_state:
  "make_local_file api m d h p bo = Inr (f, bo') \<Longrightarrow> \<exists>z. bo' = bo\<lparr>bo_fs := z\<rparr>"
  by (auto simp: make_local_file_def bindE_eq_Inr split: if_splits) (metis boxoffice.surjective boxoffice.update_convs(17))

section \<open>The contract of a block\<close>

definition accepted :: "state_t \<Rightarrow> status_t \<Rightarrow> event_t \<Rightarrow> bool" where
  "accepted s status event \<longleftrightarrow> event = get_event_by_status_code status \<and> check_event s event status"

fun flow_ok :: "state_t \<Rightarrow> 'fs boxoffice flow \<Rightarrow> bool" where
  "flow_ok st (Return v bo) \<longleftrightarrow> v = 1 \<and> bo_state bo = st"
| "flow_ok st (Proceed status event s bo) \<longleftrightarrow> bo_state bo = st \<and> accepted st status event"

locale event_block =
  fixes c :: "status_t \<Rightarrow> event_t \<Rightarrow> bool"
    and f :: "status_t \<Rightarrow> event_t \<Rightarrow> istream \<Rightarrow> 'fs boxoffice \<Rightarrow> 'fs boxoffice flow result"
  assumes keeps: "c status event \<Longrightarrow> accepted (bo_state bo) status event \<Longrightarrow>
    f status event s bo = Inr x \<Longrightarrow> flow_ok (bo_state bo) x"
begin

lemma block_keeps: "flow_ok st x \<Longrightarrow> block c f x = Inr y \<Longrightarrow> flow_ok st y"
  by (cases x) (auto simp: block_def split: if_splits dest: keeps)

lemma block_skips: "\<not> c status event \<Longrightarrow> block c f (Proceed status event s bo) = Inr (Proceed status event s bo)"
  by (simp add: block_def)

lemma block_runs: "c status event \<Longrightarrow> block c f (Proceed status event s bo) = f status event s bo"
  by (simp add: block_def)

lemma block_returned: "block c f (Return v bo) = Inr (Return v bo)"
  by (simp add: block_def)

end

lemma change_status_ok: "flow_ok (bo_state bo) (change_status status s bo)"
  by (simp add: change_status_def accepted_def Let_def)

lemma change_status_ok': "bo_state bo = st \<Longrightarrow> flow_ok st (change_status status s bo)"
  using change_status_ok by blast

lemma received_reply_ok:
  "accepted (bo_state bo) status event \<Longrightarrow> received_reply status event s bo = Inr x \<Longrightarrow> flow_ok (bo_state bo) x"
  by (auto simp: received_reply_def bindE_eq_Inr split: if_splits dest!: note_reply_state intro!: change_status_ok')

lemma received_170_ok:
  "accepted (bo_state bo) status_170 event \<Longrightarrow> received_170 api event s bo = Inr x \<Longrightarrow> flow_ok (bo_state bo) x"
  by (auto simp: received_170_def bindE_eq_Inr split: if_splits
      dest!: read_box_file_state write_metadata_state intro!: change_status_ok')

lemma received_174_ok:
  "accepted (bo_state bo) status_174 event \<Longrightarrow> received_174 api event s bo = Inr x \<Longrightarrow> flow_ok (bo_state bo) x"
  by (auto simp: received_174_def bindE_eq_Inr split: if_splits
      dest!: read_box_file_state write_metadata_state set_current_file_state intro!: change_status_ok')

lemma received_150_ok:
  "accepted (bo_state bo) status_150 event \<Longrightarrow> received_150 e event s bo = Inr x \<Longrightarrow> flow_ok (bo_state bo) x"
  by (auto simp: received_150_def bindE_eq_Inr Let_def accepted_def split: if_splits dest!: performAction_state)

lemma received_heartbeat_ok:
  assumes "accepted (bo_state bo) status event" "received_heartbeat api e status event s bo = Inr x"
  shows "flow_ok (bo_state bo) x"
proof -
  obtain s1 bo1 where u: "updateTimestamp e s bo = Inr (s1, bo1)"
    using assms(2) by (auto simp: received_heartbeat_def bindE_eq_Inr)
  then have st: "bo_state bo1 = bo_state bo" using updateTimestamp_state by blast
  have a: "accepted (bo_state bo1) status event" using assms(1) st by simp
  show ?thesis
    using assms(2) a u st received_reply_ok [OF a] received_170_ok [of bo1] received_174_ok [of bo1]
      received_150_ok [of bo1]
    by (auto simp: received_heartbeat_def bindE_eq_Inr split: if_splits
        dest!: received_130_state received_155_state)
qed

interpretation hb_block: event_block "\<lambda>_ ev. ev = received_heartbeat_event" "received_heartbeat api e" for api e
  by unfold_locales (rule received_heartbeat_ok)

interpretation disp_block: event_block dispatch_due
  "\<lambda>st ev s bo. bindE (notify_dispatcher e st s bo) (\<lambda>(s, bo). Inr (Proceed st ev s bo))" for e
  by unfold_locales (auto simp: bindE_eq_Inr dest!: notify_dispatcher_state)

lemma accepted_301: "accepted announcing_new_file_state status_301 (get_event_by_status_code status_301)"
  by (simp add: accepted_def get_event_by_status_code_def fsm_simps fsm_rows)

lemma push_file_state: "bo_state (push_file ev p bo) = bo_state bo" "bo_hb (push_file ev p bo) = bo_hb bo"
  by (simp_all add: push_file_def)

lemma local_file_ok:
  assumes "accepted (bo_state bo) status event" "local_file api status event s bo = Inr x"
  shows "flow_ok (bo_state bo) x"
proof -
  have "bo_state bo' = bo_state bo0" if "make_local_file api m d h p bo0 = Inr (f, bo')" for m d h p bo0 f bo'
    using make_local_file_state [OF that] by auto
  with assms accepted_301 show ?thesis
    by (auto simp: local_file_def bindE_eq_Inr Let_def case_prod_unfold push_file_state split: if_splits)
qed

interpretation local_block: event_block "\<lambda>_ ev. is_local_event ev" "local_file api" for api
  by unfold_locales (rule local_file_ok)

lemma received_data_ok:
  "accepted (bo_state bo) status event \<Longrightarrow> received_data api status event s bo = Inr x \<Longrightarrow> flow_ok (bo_state bo) x"
  by (auto simp: received_data_def bindE_eq_Inr Let_def split: option.splits if_splits intro!: change_status_ok')

interpretation data_block: event_block "\<lambda>_ ev. ev = received_file_data_event" "received_data api" for api
  by unfold_locales (rule received_data_ok)

section \<open>The chain of blocks\<close>

lemma action_of_move:
  "get_new_state s e r = NULL_state \<or> get_new_state s e r = s \<or> get_new_state s e r = exit_state \<or>
     get_action s e r = send_heartbeat_action"
  by (cases s) (simp_all add: fsm_simps fsm_rows)

text \<open>Heartbeats are sent only when the state changes, but for status 150 in the ready state, where
  the handler sends one and goes on with status 100.\<close>

fun flow_bo :: "'b flow \<Rightarrow> 'b" where
  "flow_bo (Return v bo) = bo"
| "flow_bo (Proceed status event s bo) = bo"

fun idle :: "'fs boxoffice flow \<Rightarrow> bool" where
  "idle (Return v bo) \<longleftrightarrow> False"
| "idle (Proceed status event s bo) \<longleftrightarrow>
     status = status_100 \<and> event = received_heartbeat_event \<and> bo_state bo = ready_state"

locale quiet_block = event_block c f
  for c :: "status_t \<Rightarrow> event_t \<Rightarrow> bool"
    and f :: "status_t \<Rightarrow> event_t \<Rightarrow> istream \<Rightarrow> 'fs boxoffice \<Rightarrow> 'fs boxoffice flow result" +
  assumes quiet: "c status event \<Longrightarrow> f status event s bo = Inr x \<Longrightarrow> bo_hb (flow_bo x) = bo_hb bo \<or> idle x"
begin

lemma block_quiet:
  "block c f x = Inr y \<Longrightarrow> bo_hb (flow_bo y) = bo_hb (flow_bo x) \<or> idle y"
  by (cases x) (auto simp: block_def split: if_splits dest: quiet)

lemma block_chain:
  "\<not> c status_100 received_heartbeat_event \<Longrightarrow> block c f x = Inr y \<Longrightarrow>
     bo_hb (flow_bo x) = h \<or> idle x \<Longrightarrow> bo_hb (flow_bo y) = h \<or> idle y"
  using block_quiet [of x y] by (cases x) (auto simp: block_def split: if_splits)

end

lemma change_status_bo [simp]: "flow_bo (change_status status s bo) = bo"
  by (simp add: change_status_def Let_def)

lemma received_150_quiet:
  "received_150 e event s bo = Inr x \<Longrightarrow> bo_hb (flow_bo x) = bo_hb bo \<or> idle x"
proof -
  assume r: "received_150 e event s bo = Inr x"
  have "get_event_by_status_code status_100 = received_heartbeat_event"
    by (simp add: get_event_by_status_code_def)
  with r show ?thesis
    by (auto simp: received_150_def bindE_eq_Inr Let_def split: if_splits dest!: performAction_state)
qed

lemma received_reply_quiet:
  "received_reply status event s bo = Inr x \<Longrightarrow> bo_hb (flow_bo x) = bo_hb bo"
  by (auto simp: received_reply_def bindE_eq_Inr split: if_splits dest!: note_reply_state)

lemma received_170_quiet: "received_170 api event s bo = Inr x \<Longrightarrow> bo_hb (flow_bo x) = bo_hb bo"
  by (auto simp: received_170_def bindE_eq_Inr split: if_splits
      dest!: read_box_file_state write_metadata_state)

lemma received_174_quiet: "received_174 api event s bo = Inr x \<Longrightarrow> bo_hb (flow_bo x) = bo_hb bo"
  by (auto simp: received_174_def bindE_eq_Inr split: if_splits
      dest!: read_box_file_state write_metadata_state set_current_file_state)

lemma received_heartbeat_quiet:
  assumes "received_heartbeat api e status event s bo = Inr x"
  shows "bo_hb (flow_bo x) = bo_hb bo \<or> idle x"
proof -
  obtain s1 bo1 where u: "updateTimestamp e s bo = Inr (s1, bo1)"
    using assms by (auto simp: received_heartbeat_def bindE_eq_Inr)
  then have hb: "bo_hb bo1 = bo_hb bo" using updateTimestamp_state by blast
  show ?thesis
    using assms u hb received_reply_quiet [of status event s1 bo1 x] received_170_quiet [of api event s1 bo1 x]
      received_174_quiet [of api event s1 bo1 x] received_150_quiet [of e event s1 bo1 x]
    by (auto simp: received_heartbeat_def bindE_eq_Inr split: if_splits
        dest!: received_130_state received_155_state)
qed

interpretation hb_quiet: quiet_block "\<lambda>_ ev. ev = received_heartbeat_event" "received_heartbeat api e" for api e
  by unfold_locales (rule received_heartbeat_quiet)

interpretation disp_quiet: quiet_block dispatch_due
  "\<lambda>st ev s bo. bindE (notify_dispatcher e st s bo) (\<lambda>(s, bo). Inr (Proceed st ev s bo))" for e
  by unfold_locales (auto simp: bindE_eq_Inr dest!: notify_dispatcher_state)

interpretation local_quiet: quiet_block "\<lambda>_ ev. is_local_event ev" "local_file api" for api
proof unfold_locales
  fix status event s and bo :: "'a boxoffice" and x
  have "bo_hb bo' = bo_hb bo0" if "make_local_file api m d h p bo0 = Inr (f, bo')" for m d h p bo0 f and bo' :: "'a boxoffice"
    using make_local_file_state [OF that] by auto
  then show "local_file api status event s bo = Inr x \<Longrightarrow> bo_hb (flow_bo x) = bo_hb bo \<or> idle x"
    by (auto simp: local_file_def bindE_eq_Inr Let_def case_prod_unfold push_file_state split: if_splits)
qed

interpretation data_quiet: quiet_block "\<lambda>_ ev. ev = received_file_data_event" "received_data api" for api
  by unfold_locales (auto simp: received_data_def bindE_eq_Inr Let_def split: option.splits if_splits)

lemma later_blocks_skip_idle:
  "\<not> dispatch_due status_100 received_heartbeat_event" "\<not> is_local_event received_heartbeat_event"
  "received_heartbeat_event \<noteq> received_file_data_event"
  by (simp_all add: dispatch_due_def is_local_event_def)

lemma processEvent_rejected: "\<not> accepts (bo_state bo) status \<Longrightarrow> processEvent api e status s bo = Inr (0, bo)"
  by (simp add: processEvent_def accepts_def)

lemma processEvent_chain:
  assumes "processEvent api e status s bo = Inr (v, bo')" "accepts (bo_state bo) status"
  shows "\<exists>x. flow_ok (bo_state bo) x \<and> (bo_hb (flow_bo x) = bo_hb bo \<or> idle x) \<and>
    (case x of Return u b \<Rightarrow> (v, bo') = (u, b) | Proceed st ev _ b \<Rightarrow> fsm_continue e st ev b = Inr (v, bo'))"
proof -
  let ?ev = "get_event_by_status_code status"
  have a: "accepted (bo_state bo) status ?ev" using assms(2) by (simp add: accepts_def accepted_def)
  obtain x1 x2 x3 x4 where
    x1: "block (\<lambda>_ ev. ev = received_heartbeat_event) (received_heartbeat api e) (Proceed status ?ev s bo) = Inr x1"
    and x2: "block dispatch_due (\<lambda>st ev s bo. bindE (notify_dispatcher e st s bo) (\<lambda>(s, bo). Inr (Proceed st ev s bo))) x1 = Inr x2"
    and x3: "block (\<lambda>_ ev. is_local_event ev) (local_file api) x2 = Inr x3"
    and x4: "block (\<lambda>_ ev. ev = received_file_data_event) (received_data api) x3 = Inr x4"
    and fin: "(case x4 of Return v bo \<Rightarrow> Inr (v, bo) | Proceed status event _ bo \<Rightarrow> fsm_continue e status event bo) =
      Inr (v, bo')"
    using assms unfolding processEvent_def Let_def accepts_def by (auto simp: bindE_eq_Inr)
  have "flow_ok (bo_state bo) (Proceed status ?ev s bo)" using a by simp
  from data_block.block_keeps [OF local_block.block_keeps [OF disp_block.block_keeps [OF
      hb_block.block_keeps [OF this x1] x2] x3] x4]
  have ok: "flow_ok (bo_state bo) x4" .
  have "bo_hb (flow_bo x1) = bo_hb bo \<or> idle x1" using hb_quiet.block_quiet [OF x1] by simp
  from data_quiet.block_chain [OF _ x4 local_quiet.block_chain [OF _ x3 disp_quiet.block_chain [OF _ x2 this]]]
  have "bo_hb (flow_bo x4) = bo_hb bo \<or> idle x4" using later_blocks_skip_idle by simp
  with ok fin show ?thesis by (intro exI [of _ x4]) (cases x4; simp)
qed

lemma fsm_continue_state:
  "fsm_continue e status event bo = Inr (v, bo') \<Longrightarrow> v = 0 \<and> bo_state bo' = get_new_state (bo_state bo) event status"
  by (auto simp: fsm_continue_def bindE_eq_Inr Let_def split: if_splits)

lemma accepted_accepts: "accepted s status event \<longleftrightarrow> event = get_event_by_status_code status \<and> accepts s status"
  by (auto simp: accepted_def accepts_def)

lemma processEvent_step:
  assumes "processEvent api e status s bo = Inr (v, bo')"
  shows "(v = 0 \<or> v = 1 \<and> bo_state bo' = bo_state bo) \<and>
    (bo_state bo' = bo_state bo \<or> (\<exists>r. accepts (bo_state bo) r \<and> bo_state bo' = fsm_step (bo_state bo) r))"
proof (cases "accepts (bo_state bo) status")
  case False
  with assms show ?thesis by (simp add: processEvent_def accepts_def)
next
  case True
  from processEvent_chain [OF assms True] obtain x where "flow_ok (bo_state bo) x"
    "case x of Return u b \<Rightarrow> (v, bo') = (u, b) | Proceed st ev _ b \<Rightarrow> fsm_continue e st ev b = Inr (v, bo')"
    by blast
  then show ?thesis
    by (cases x) (auto simp: accepted_accepts fsm_step_def dest!: fsm_continue_state)
qed

lemma processEvent_reach:
  "fsm_reach (bo_state bo) \<Longrightarrow> processEvent api e status s bo = Inr (v, bo') \<Longrightarrow> fsm_reach (bo_state bo')"
  using processEvent_step [of api e status s bo v bo'] fsm_reach_step by metis

lemma runRouter_reach:
  "fsm_reach (bo_state bo) \<Longrightarrow> runRouter api vars ms bo = Inr (r, bo') \<Longrightarrow> fsm_reach (bo_state bo')"
proof (induction api vars ms bo rule: runRouter.induct)
  case (2 api vars e m ms bo)
  then show ?case by (auto simp: bindE_eq_Inr Let_def split: prod.splits if_splits dest: processEvent_reach)
qed simp

lemma fsm_reach_not_null: "fsm_reach s \<Longrightarrow> s \<noteq> NULL_state"
  by (induction rule: fsm_reach.induct) simp_all

lemma Boxoffice_init_reach: "fsm_reach (bo_state (Boxoffice_init fs subs boxes))"
  by (simp add: Boxoffice_init_def fsm_reach_start)

lemma read_signal_numbers:
  assumes "m \<le> 2147483647" "n \<le> 2147483647" "\<not> is_digit c"
  shows "read_signal vars (dec_nat m @ '' '' @ dec_nat n @ c # t) =
     ((int m, int n), stream_at (dec_nat m @ '' '' @ dec_nat n) (c # t))"
proof -
  have "\<not> is_digit CHR '' ''" "is_space CHR '' ''" by (simp_all add: is_digit_def is_space_def)
  with assms show ?thesis
    unfolding read_signal_def stream_of_at by (simp add: extract_int_dec_nat Let_def)
qed

section \<open>How a status is handled\<close>

text \<open>The status with which an accepted status goes on to the state machine. It is the status itself,
  but for the substitutions of the handler: metadata that has been written counts as 173, a change
  announced in the ready state as 100, the last of the replies 121, 161, 165, 140 and 141 as the status that
  all have replied, a local file during an announcement as the repetition 301, and the last packet of a
  file as 113.\<close>

definition handled_as :: "state_t \<Rightarrow> status_t \<Rightarrow> status_t \<Rightarrow> bool" where
  "handled_as s status r \<longleftrightarrow>
    (if status = status_170 \<and> s = receiving_file_metadata_change_state then r = status_173
     else if status = status_174 \<and> s = receiving_file_metadata_change_with_more_state then r = status_173
     else if status = status_150 \<and> s = ready_state then r = status_100
     else if status = status_121 then r \<in> {status_121, status_122}
     else if status = status_161 then r \<in> {status_161, status_162}
     else if status = status_165 then r \<in> {status_165, status_166}
     else if status = status_140 then r \<in> {status_140, status_142}
     else if status = status_141 then r \<in> {status_141, status_174, status_178, status_177, status_172}
     else if status \<in> {status_300, status_304, status_320, status_324} \<and> s = announcing_new_file_state
       then r \<in> {status, status_301}
     else if status = status_200 then r \<in> {status_200, status_113}
     else r = status)"

text \<open>A run of the state machine over the statuses of the messages: one that the table does not accept is
  ignored, the others are handled.\<close>

inductive fsm_trace :: "state_t \<Rightarrow> status_t list \<Rightarrow> state_t \<Rightarrow> bool" where
  trace_end: "fsm_trace s [] s"
| trace_ignored: "\<not> accepts s status \<Longrightarrow> fsm_trace s sts t \<Longrightarrow> fsm_trace s (status # sts) t"
| trace_handled: "accepts s status \<Longrightarrow> handled_as s status r \<Longrightarrow> accepts s r \<Longrightarrow>
    fsm_trace (fsm_step s r) sts t \<Longrightarrow> fsm_trace s (status # sts) t"

inductive_cases fsm_trace_ConsE: "fsm_trace s (status # sts) t"

text \<open>The statuses the router reads from its messages.\<close>

fun read_statuses :: "int \<times> int \<Rightarrow> (env \<times> string) list \<Rightarrow> status_t list" where
  "read_statuses vars [] = []"
| "read_statuses vars ((e, m) # ms) =
     (let v = fst (read_signal vars m) in status_of_int (snd v) # read_statuses v ms)"

text \<open>What a flow hands on, seen from the status that came in; a substituted status skips the blocks for
  local files and file data.\<close>

fun hands_on :: "state_t \<Rightarrow> status_t \<Rightarrow> 'fs boxoffice flow \<Rightarrow> bool" where
  "hands_on s status (Return v bo) \<longleftrightarrow> True"
| "hands_on s status (Proceed st ev t bo) \<longleftrightarrow> handled_as s status st \<and>
     (st = status \<or> \<not> is_local_event (get_event_by_status_code st) \<and>
        get_event_by_status_code st \<noteq> received_file_data_event)"

lemma heartbeat_statuses:
  "get_event_by_status_code status_100 = received_heartbeat_event" "get_event_by_status_code status_173 = all_metadata_received_event"
  "get_event_by_status_code status_122 = all_nodes_replied_event" "get_event_by_status_code status_162 = all_nodes_replied_event"
  "get_event_by_status_code status_166 = all_nodes_replied_event" "get_event_by_status_code status_142 = all_nodes_have_file_event"
  "get_event_by_status_code status_174 = received_heartbeat_event" "get_event_by_status_code status_172 = all_nodes_have_file_event"
  "get_event_by_status_code status_178 = all_nodes_have_all_metadata_changes_with_more_event"
  "get_event_by_status_code status_177 = all_nodes_have_all_metadata_changes_with_more_event"
  "get_event_by_status_code status_170 = received_heartbeat_event" "get_event_by_status_code status_150 = received_heartbeat_event"
  "get_event_by_status_code status_301 = new_local_file_reported_twice_event"
  "get_event_by_status_code status_113 = all_data_received_event"
  by (simp_all add: get_event_by_status_code_def)

lemma change_status_hands_on:
  "handled_as s status st \<Longrightarrow> \<not> is_local_event (get_event_by_status_code st) \<Longrightarrow>
     get_event_by_status_code st \<noteq> received_file_data_event \<Longrightarrow> hands_on s status (change_status st t bo)"
  by (simp add: change_status_def Let_def)

lemma received_reply_hands_on:
  assumes "received_reply status event s bo = Inr x" "status \<in> {status_121, status_161, status_165, status_140, status_141}"
  shows "hands_on st0 status x"
  using assms
  by (auto simp: received_reply_def bindE_eq_Inr status_when_all_replied_def handled_as_def is_local_event_def heartbeat_statuses
      split: if_splits intro!: change_status_hands_on)

lemma received_heartbeat_hands_on:
  assumes "received_heartbeat api e status event s bo = Inr x" "get_event_by_status_code status = received_heartbeat_event"
  shows "hands_on (bo_state bo) status x"
proof -
  obtain s1 bo1 where u: "updateTimestamp e s bo = Inr (s1, bo1)"
    using assms by (auto simp: received_heartbeat_def bindE_eq_Inr)
  then have st: "bo_state bo1 = bo_state bo" using updateTimestamp_state by blast
  show ?thesis
  proof (cases "status \<in> {status_121, status_161, status_165, status_140, status_141}")
    case True
    then have "received_reply status event s1 bo1 = Inr x" using assms(1) u by (auto simp: received_heartbeat_def)
    then show ?thesis using received_reply_hands_on True by blast
  next
    case False
    have keep: "handled_as (bo_state bo) status status"
      if "\<not> (status = status_170 \<and> bo_state bo = receiving_file_metadata_change_state)"
        "\<not> (status = status_174 \<and> bo_state bo = receiving_file_metadata_change_with_more_state)"
        "\<not> (status = status_150 \<and> bo_state bo = ready_state)"
      using that by (auto simp: handled_as_def)
    have sub: "handled_as receiving_file_metadata_change_state status_170 status_173"
      "handled_as receiving_file_metadata_change_with_more_state status_174 status_173" "handled_as ready_state status_150 status_100"
      by (simp_all add: handled_as_def)
    consider "status = status_170" | "status = status_174" | "status = status_150"
      | "status \<noteq> status_170" "status \<noteq> status_174" "status \<noteq> status_150" by blast
    then show ?thesis
    proof cases
      case 1
      then have r: "received_170 api event s1 bo1 = Inr x" using assms(1) u by (simp add: received_heartbeat_def)
      show ?thesis using r keep sub(1) 1 st
        by (auto simp: received_170_def bindE_eq_Inr is_local_event_def heartbeat_statuses split: if_splits
            intro!: change_status_hands_on)
    next
      case 2
      then have r: "received_174 api event s1 bo1 = Inr x" using assms(1) u by (simp add: received_heartbeat_def)
      show ?thesis using r keep sub(2) 2 st
        by (auto simp: received_174_def bindE_eq_Inr is_local_event_def heartbeat_statuses split: if_splits
            intro!: change_status_hands_on)
    next
      case 3
      then have r: "received_150 e event s1 bo1 = Inr x" using assms(1) u by (simp add: received_heartbeat_def)
      show ?thesis using r keep sub(3) 3 st
        by (auto simp: received_150_def bindE_eq_Inr Let_def is_local_event_def heartbeat_statuses split: if_splits)
    next
      case 4
      then show ?thesis using assms(1) u False keep by (auto simp: received_heartbeat_def bindE_eq_Inr split: if_splits)
    qed
  qed
qed

lemma local_file_hands_on:
  assumes "local_file api status (get_event_by_status_code status) s bo = Inr x"
    "is_local_event (get_event_by_status_code status)" "bo_state bo = st0"
  shows "hands_on st0 status x"
proof -
  have l: "status \<in> {status_300, status_304, status_320, status_324}"
    using assms(2) by (auto simp: is_local_event_def get_event_by_status_code_def split: if_splits)
  then have h: "handled_as st0 status status" "st0 = announcing_new_file_state \<Longrightarrow> handled_as st0 status status_301"
    by (auto simp: handled_as_def)
  have "bo_state bo' = bo_state bo0" if "make_local_file api m d h p bo0 = Inr (f, bo')" for m d h p bo0 f bo'
    using make_local_file_state [OF that] by auto
  with assms(1,3) h show ?thesis
    by (auto simp: local_file_def bindE_eq_Inr Let_def case_prod_unfold is_local_event_def heartbeat_statuses split: if_splits)
qed

lemma received_data_hands_on:
  assumes "received_data api status event s bo = Inr x" "get_event_by_status_code status = received_file_data_event"
  shows "hands_on st0 status x"
proof -
  have "status = status_200"
    using assms(2) by (auto simp: get_event_by_status_code_def split: if_splits)
  then have "handled_as st0 status status" "handled_as st0 status status_113" by (simp_all add: handled_as_def)
  with assms(1) show ?thesis
    by (auto simp: received_data_def bindE_eq_Inr Let_def is_local_event_def heartbeat_statuses split: option.splits if_splits
        intro!: change_status_hands_on)
qed

text \<open>The first status is handed on unchanged where it is not substituted; so is every other event.\<close>

lemma handled_as_other:
  "get_event_by_status_code status \<noteq> received_heartbeat_event \<Longrightarrow> handled_as s status status"
  by (auto simp: handled_as_def heartbeat_statuses)

lemma processEvent_handled:
  assumes "processEvent api e status s bo = Inr (v, bo')" "accepts (bo_state bo) status"
  shows "v = 1 \<and> bo_state bo' = bo_state bo \<or>
    v = 0 \<and> (\<exists>r. handled_as (bo_state bo) status r \<and> accepts (bo_state bo) r \<and> bo_state bo' = fsm_step (bo_state bo) r)"
proof -
  let ?ev = "get_event_by_status_code status"
  have a: "accepted (bo_state bo) status ?ev" using assms(2) by (simp add: accepts_def accepted_def)
  obtain x1 x2 x3 x4 where
    x1: "block (\<lambda>_ ev. ev = received_heartbeat_event) (received_heartbeat api e) (Proceed status ?ev s bo) = Inr x1"
    and x2: "block dispatch_due (\<lambda>st ev s bo. bindE (notify_dispatcher e st s bo) (\<lambda>(s, bo). Inr (Proceed st ev s bo))) x1 = Inr x2"
    and x3: "block (\<lambda>_ ev. is_local_event ev) (local_file api) x2 = Inr x3"
    and x4: "block (\<lambda>_ ev. ev = received_file_data_event) (received_data api) x3 = Inr x4"
    and fin: "(case x4 of Return v bo \<Rightarrow> Inr (v, bo) | Proceed status event _ bo \<Rightarrow> fsm_continue e status event bo) =
      Inr (v, bo')"
    using assms unfolding processEvent_def Let_def accepts_def by (auto simp: bindE_eq_Inr)
  have ok0: "flow_ok (bo_state bo) (Proceed status ?ev s bo)" using a by simp
  note ok1 = hb_block.block_keeps [OF ok0 x1]
  note ok2 = disp_block.block_keeps [OF ok1 x2]
  note ok3 = local_block.block_keeps [OF ok2 x3]
  note ok4 = data_block.block_keeps [OF ok3 x4]
  have h1: "hands_on (bo_state bo) status x1"
    using x1 received_heartbeat_hands_on [of api e status ?ev s bo x1] handled_as_other [of status "bo_state bo"]
    by (auto simp: block_def split: if_splits)
  have h2: "hands_on (bo_state bo) status x2"
    using x2 h1 by (cases x1) (auto simp: block_def bindE_eq_Inr split: if_splits)
  have h3: "hands_on (bo_state bo) status x3"
    using x3 h2 ok2 local_file_hands_on by (cases x2) (auto simp: block_def accepted_def split: if_splits)
  have h4: "hands_on (bo_state bo) status x4"
    using x4 h3 ok3 received_data_hands_on by (cases x3) (auto simp: block_def accepted_def split: if_splits)
  show ?thesis
    using fin h4 ok4 by (cases x4) (auto simp: accepted_accepts fsm_step_def dest!: fsm_continue_state)
qed

lemma runRouter_trace:
  "runRouter api vars ms bo = Inr (r, bo') \<Longrightarrow>
     \<exists>k \<le> length ms. fsm_trace (bo_state bo) (take k (read_statuses vars ms)) (bo_state bo') \<and>
       (case r of None \<Rightarrow> k = length ms
        | Some v \<Rightarrow> k < length ms \<and> (v = 0 \<or> v = 1 \<and> accepts (bo_state bo') (read_statuses vars ms ! k)))"
proof (induction ms arbitrary: vars bo)
  case Nil
  then show ?case by (auto intro: trace_end)
next
  case (Cons em ms)
  obtain e m where em: "em = (e, m)" by (cases em)
  obtain ty sg s where rs: "read_signal vars m = ((ty, sg), s)" by (metis prod.exhaust)
  let ?st = "status_of_int sg"
  have sts: "read_statuses vars (em # ms) = ?st # read_statuses (ty, sg) ms" by (simp add: em rs)
  show ?case
  proof (cases "ty = F_SIGTYPE_LIFE \<and> sg = F_SIGLIFE_INTERRUPT")
    case True
    with Cons.prems rs em show ?thesis by (intro exI [of _ 0]) (auto intro: trace_end)
  next
    case False
    with Cons.prems rs em obtain v b where p: "processEvent api e ?st s bo = Inr (v, b)"
      and c: "if v \<noteq> 0 then (r, bo') = (Some v, b) else runRouter api (ty, sg) ms b = Inr (r, bo')"
      by (auto simp: bindE_eq_Inr split: if_splits)
    show ?thesis
    proof (cases "v = 0")
      case True
      then have run: "runRouter api (ty, sg) ms b = Inr (r, bo')" using c by simp
      from Cons.IH [OF run] obtain k where k: "k \<le> length ms"
        "fsm_trace (bo_state b) (take k (read_statuses (ty, sg) ms)) (bo_state bo')"
        "case r of None \<Rightarrow> k = length ms
          | Some v \<Rightarrow> k < length ms \<and> (v = 0 \<or> v = 1 \<and> accepts (bo_state bo') (read_statuses (ty, sg) ms ! k))"
        by blast
      have "fsm_trace (bo_state bo) (?st # take k (read_statuses (ty, sg) ms)) (bo_state bo')"
      proof (cases "accepts (bo_state bo) ?st")
        case True
        from processEvent_handled [OF p True] \<open>v = 0\<close> obtain q where
          "handled_as (bo_state bo) ?st q" "accepts (bo_state bo) q" "bo_state b = fsm_step (bo_state bo) q" by auto
        then show ?thesis using k(2) True by (auto intro: trace_handled)
      next
        case False
        then have "b = bo" using p processEvent_rejected [of bo ?st api e s] by simp
        then show ?thesis using k(2) False by (auto intro: trace_ignored)
      qed
      then show ?thesis using k(1,3) unfolding sts by (intro exI [of _ "Suc k"]) (auto split: option.splits)
    next
      case False
      then have e: "r = Some v" "bo' = b" using c by auto
      have "accepts (bo_state bo) ?st" using p False processEvent_rejected [of bo ?st api e s] by auto
      with processEvent_handled [OF p this] False have "v = 1" "bo_state b = bo_state bo" by auto
      then show ?thesis
        using e \<open>accepts (bo_state bo) ?st\<close> unfolding sts by (intro exI [of _ 0]) (auto intro: trace_end)
    qed
  qed
qed

section \<open>Addresses of queued files are never reused\<close>

definition fresh :: "'fs boxoffice \<Rightarrow> bool" where
  "fresh bo = list_all (\<lambda>p. fst p < bo_next_ptr bo) (bo_file_list_data bo @ bo_file_list_metadata bo)"

text \<open>The helpers leave the queues alone; sending metadata removes the first file of one.\<close>

definition queues :: "'fs boxoffice \<Rightarrow> (nat \<times> File) list \<times> (nat \<times> File) list \<times> nat" where
  "queues bo = (bo_file_list_data bo, bo_file_list_metadata bo, bo_next_ptr bo)"

lemma fresh_queues: "queues bo' = queues bo \<Longrightarrow> fresh bo' = fresh bo"
  by (simp add: queues_def fresh_def)

lemma queues_update [simp]:
  "queues (bo\<lparr>bo_state := a\<rparr>) = queues bo" "queues (bo\<lparr>bo_current_box := b\<rparr>) = queues bo"
  "queues (bo\<lparr>bo_fs := c\<rparr>) = queues bo" "queues (bo\<lparr>bo_subscribers := d\<rparr>) = queues bo"
  "queues (bo\<lparr>bo_file_metadata_written := x\<rparr>) = queues bo" "queues (bo\<lparr>bo_notified_dispatch := x\<rparr>) = queues bo"
  "queues (bo\<lparr>bo_stop_sync_timeout_received := x\<rparr>) = queues bo" "queues (bo\<lparr>bo_current_file := y\<rparr>) = queues bo"
  "queues (bo\<lparr>bo_current_timing_offset := t\<rparr>) = queues bo" "queues (bo\<lparr>bo_node_hash_is_key := x\<rparr>) = queues bo"
  "queues (bo\<lparr>bo_current_node_hash := h\<rparr>) = queues bo" "queues (send_disp m bo) = queues bo"
  "queues (send_hb m bo) = queues bo"
  by (simp_all add: queues_def send_disp_def send_hb_def)

lemma fresh_update [simp]:
  "fresh (bo\<lparr>bo_state := a\<rparr>) = fresh bo" "fresh (bo\<lparr>bo_current_box := b\<rparr>) = fresh bo"
  "fresh (bo\<lparr>bo_fs := c\<rparr>) = fresh bo" "fresh (bo\<lparr>bo_subscribers := d\<rparr>) = fresh bo"
  "fresh (bo\<lparr>bo_file_metadata_written := x\<rparr>) = fresh bo" "fresh (bo\<lparr>bo_notified_dispatch := x\<rparr>) = fresh bo"
  "fresh (bo\<lparr>bo_stop_sync_timeout_received := x\<rparr>) = fresh bo" "fresh (bo\<lparr>bo_current_file := y\<rparr>) = fresh bo"
  by (simp_all add: fresh_def)

lemma helpers_queues:
  "set_current_file f bo = Inr bo' \<Longrightarrow> queues bo' = queues bo"
  "updateTimestamp e s bo = Inr (s', bo') \<Longrightarrow> queues bo' = queues bo"
  "note_reply bo = Inr (c, bo') \<Longrightarrow> queues bo' = queues bo"
  "read_box_file api s bo = Inr (h, f, s', bo') \<Longrightarrow> queues bo' = queues bo"
  "write_metadata api f bo = Inr (f', bo') \<Longrightarrow> queues bo' = queues bo"
  "received_155 s bo = Inr (s', bo') \<Longrightarrow> queues bo' = queues bo"
  "make_local_file api i d hh p bo = Inr (f', bo') \<Longrightarrow> queues bo' = queues bo"
  by (auto simp: set_current_file_def updateTimestamp_def note_reply_def read_box_file_def write_metadata_def
      received_155_def make_local_file_def bindE_eq_Inr Let_def split: option.splits if_splits)

lemma notify_dispatcher_queues: "notify_dispatcher e status s bo = Inr (s', bo') \<Longrightarrow> queues bo' = queues bo"
  by (cases "bo_file_list_data bo")
    (auto simp: notify_dispatcher_def bindE_eq_Inr Let_def split: option.splits)

lemma received_130_queues: "received_130 api s bo = Inr (s', bo') \<Longrightarrow> queues bo' = queues bo"
  by (auto simp: received_130_def bindE_eq_Inr split: if_splits dest!: helpers_queues)

lemma prepareHeartbeatMessage_fresh:
  "prepareHeartbeatMessage e n bo = Inr (m, bo') \<Longrightarrow> fresh bo \<Longrightarrow> fresh bo'"
  by (auto simp: prepareHeartbeatMessage_def bindE_eq_Inr Let_def set_current_file_def send_disp_def fresh_def
      split: if_splits list.splits)

lemma performAction_fresh:
  "performAction e ev ac r n bo = Inr bo' \<Longrightarrow> fresh bo \<Longrightarrow> fresh bo'"
  by (auto simp: performAction_def updateHeartbeat_def bindE_eq_Inr send_hb_def split: if_splits
      dest!: prepareHeartbeatMessage_fresh) (auto simp: fresh_def)

locale fresh_block =
  fixes c :: "status_t \<Rightarrow> event_t \<Rightarrow> bool"
    and f :: "status_t \<Rightarrow> event_t \<Rightarrow> istream \<Rightarrow> 'fs boxoffice \<Rightarrow> 'fs boxoffice flow result"
  assumes keeps_fresh: "f status event s bo = Inr x \<Longrightarrow> fresh bo \<Longrightarrow> fresh (flow_bo x)"
begin

lemma block_fresh: "fresh (flow_bo x) \<Longrightarrow> block c f x = Inr y \<Longrightarrow> fresh (flow_bo y)"
  by (cases x) (auto simp: block_def split: if_splits dest: keeps_fresh)

end

lemma received_parts_queues:
  "received_reply status event s bo = Inr x \<Longrightarrow> queues (flow_bo x) = queues bo"
  "received_170 api event s bo = Inr x \<Longrightarrow> queues (flow_bo x) = queues bo"
  "received_174 api event s bo = Inr x \<Longrightarrow> queues (flow_bo x) = queues bo"
  by (auto simp: received_reply_def received_170_def received_174_def bindE_eq_Inr split: if_splits dest!: helpers_queues)

lemma received_150_fresh: "received_150 e event s bo = Inr x \<Longrightarrow> fresh bo \<Longrightarrow> fresh (flow_bo x)"
  by (auto simp: received_150_def bindE_eq_Inr Let_def split: if_splits dest!: performAction_fresh)

lemma received_heartbeat_fresh:
  assumes "received_heartbeat api e status event s bo = Inr x" "fresh bo"
  shows "fresh (flow_bo x)"
proof -
  obtain s1 bo1 where u: "updateTimestamp e s bo = Inr (s1, bo1)"
    using assms by (auto simp: received_heartbeat_def bindE_eq_Inr)
  then have f: "fresh bo1" using assms(2) helpers_queues(2) fresh_queues by blast
  have q: "fresh b" if "queues b = queues bo1" for b using f that fresh_queues by blast
  show ?thesis
    using assms u q received_parts_queues(1) [of status event s1 bo1 x] received_parts_queues(2) [of api event s1 bo1 x]
      received_parts_queues(3) [of api event s1 bo1 x] received_150_fresh [of e event s1 bo1 x] f
    by (auto simp: received_heartbeat_def bindE_eq_Inr split: if_splits
        dest!: received_130_queues helpers_queues(6))
qed

interpretation hb_fresh: fresh_block "\<lambda>_ ev. ev = received_heartbeat_event" "received_heartbeat api e" for api e
  by unfold_locales (rule received_heartbeat_fresh)

interpretation disp_fresh: fresh_block dispatch_due
  "\<lambda>st ev s bo. bindE (notify_dispatcher e st s bo) (\<lambda>(s, bo). Inr (Proceed st ev s bo))" for e
  by unfold_locales (auto simp: bindE_eq_Inr dest!: notify_dispatcher_queues fresh_queues)

lemma fresh_push:
  "fresh bo \<Longrightarrow> fresh (push_file ev (bo_next_ptr bo, f) (bo\<lparr>bo_next_ptr := Suc (bo_next_ptr bo)\<rparr>))"
  "fresh bo \<Longrightarrow> fresh (bo\<lparr>bo_next_ptr := Suc (bo_next_ptr bo)\<rparr>)"
  by (auto simp: fresh_def push_file_def list_all_iff less_Suc_eq)

lemma local_file_fresh: "local_file api status event s bo = Inr x \<Longrightarrow> fresh bo \<Longrightarrow> fresh (flow_bo x)"
proof -
  assume a: "local_file api status event s bo = Inr x" "fresh bo"
  have "fresh bo'" if "make_local_file api m d h p (bo\<lparr>bo_current_box := b\<rparr>) = Inr (f, bo')" for m d h p b f bo'
    using helpers_queues(7) [OF that] fresh_queues [of bo' "bo\<lparr>bo_current_box := b\<rparr>"] a(2) by simp
  with a show ?thesis
    by (auto simp: local_file_def bindE_eq_Inr Let_def case_prod_unfold split: if_splits intro!: fresh_push)
qed

interpretation local_fresh: fresh_block "\<lambda>_ ev. is_local_event ev" "local_file api" for api
  by unfold_locales (rule local_file_fresh)

interpretation data_fresh: fresh_block "\<lambda>_ ev. ev = received_file_data_event" "received_data api" for api
  by unfold_locales (auto simp: received_data_def bindE_eq_Inr Let_def split: option.splits if_splits)

lemma processEvent_fresh:
  assumes "processEvent api e status s bo = Inr (v, bo')" "fresh bo"
  shows "fresh bo'"
proof (cases "accepts (bo_state bo) status")
  case False
  with assms processEvent_rejected show ?thesis by fastforce
next
  case True
  then obtain x1 x2 x3 x4 where
    x1: "block (\<lambda>_ ev. ev = received_heartbeat_event) (received_heartbeat api e)
      (Proceed status (get_event_by_status_code status) s bo) = Inr x1"
    and x2: "block dispatch_due (\<lambda>st ev s bo. bindE (notify_dispatcher e st s bo) (\<lambda>(s, bo). Inr (Proceed st ev s bo))) x1 = Inr x2"
    and x3: "block (\<lambda>_ ev. is_local_event ev) (local_file api) x2 = Inr x3"
    and x4: "block (\<lambda>_ ev. ev = received_file_data_event) (received_data api) x3 = Inr x4"
    and fin: "(case x4 of Return v bo \<Rightarrow> Inr (v, bo) | Proceed status event _ bo \<Rightarrow> fsm_continue e status event bo) =
      Inr (v, bo')"
    using assms unfolding processEvent_def Let_def accepts_def by (auto simp: bindE_eq_Inr)
  have "fresh (flow_bo (Proceed status (get_event_by_status_code status) s bo))" using assms(2) by simp
  from data_fresh.block_fresh [OF local_fresh.block_fresh [OF disp_fresh.block_fresh [OF
      hb_fresh.block_fresh [OF this x1] x2] x3] x4] fin
  show ?thesis
    by (cases x4) (auto simp: fsm_continue_def bindE_eq_Inr Let_def split: if_splits dest: performAction_fresh)
qed

lemma runRouter_fresh: "fresh bo \<Longrightarrow> runRouter api vars ms bo = Inr (r, bo') \<Longrightarrow> fresh bo'"
proof (induction api vars ms bo rule: runRouter.induct)
  case (2 api vars e m ms bo)
  then show ?case by (auto simp: bindE_eq_Inr Let_def split: prod.splits if_splits dest: processEvent_fresh)
qed simp

section \<open>Properties\<close>

text \<open>C19. The router follows the state machine message by message: its state is the one the machine reaches
  from the ready state over the statuses of the messages in their order, where a status that the table
  does not accept in the current state is ignored and an accepted one makes the step of the status it
  is handled as (itself, or one of the substitutions of \<open>handled_as\<close>). All messages are consumed unless the
  interrupt or an event that returns 1, on an accepted status and without a step, ends the run; the null
  state is never entered.\<close>

theorem router_refines_fsm:
  assumes "runRouter api vars ms (Boxoffice_init fs subs boxes) = Inr (r, bo)"
  shows "bo_state bo \<noteq> NULL_state \<and>
    (\<exists>k \<le> length ms. fsm_trace ready_state (take k (read_statuses vars ms)) (bo_state bo) \<and>
       (case r of None \<Rightarrow> k = length ms
        | Some v \<Rightarrow> k < length ms \<and> (v = 0 \<or> v = 1 \<and> accepts (bo_state bo) (read_statuses vars ms ! k))))"
  using runRouter_trace [OF assms] fsm_reach_not_null [OF runRouter_reach [OF Boxoffice_init_reach assms]]
  by (simp add: Boxoffice_init_def)

definition sample_env :: env where
  "sample_env = \<lparr>e_now_recv = 10, e_now_send = 20, e_rnd_send = 5, e_now_stop = 30, e_rnd_stop = 7\<rparr>"

theorem router_refines_fsm_witness:
  "\<exists>bo. runRouter mem_api (0, 0) [(sample_env, ''4 500 '')] (Boxoffice_init (\<lambda>_. None) [] []) = Inr (None, bo) \<and>
     fsm_trace ready_state [status_500] (bo_state bo) \<and> bo_state bo = exit_state"
proof -
  let ?bo = "Boxoffice_init (\<lambda>_. None) [] []" and ?s = "stream_at ''4 500'' '' ''"
  have d: "dec_nat 4 = ''4''" "dec_nat 500 = ''500''"
    by (simp_all add: dec_nat.simps digit_def char_of_eq_iff)
  have r: "read_signal (0, 0) ''4 500 '' = ((4, 500), ?s)"
    using read_signal_numbers [of 4 500 "CHR '' ''" "(0, 0)" "[]"] by (simp add: d is_digit_def)
  have st: "status_of_int 500 = status_500" by (simp add: status_of_int_def)
  have "processEvent mem_api sample_env status_500 ?s ?bo = Inr (0, ?bo\<lparr>bo_state := exit_state\<rparr>)"
    by (simp add: processEvent_def Boxoffice_init_def get_event_by_status_code_def fsm_simps fsm_rows block_def
        dispatch_due_def is_local_event_def fsm_continue_def performAction_def)
  then have run: "runRouter mem_api (0, 0) [(sample_env, ''4 500 '')] ?bo = Inr (None, ?bo\<lparr>bo_state := exit_state\<rparr>)"
    by (simp add: r st sig_defs)
  from router_refines_fsm [OF this] run show ?thesis by (auto simp: r st)
qed

text \<open>C20. Every change of state follows a row of the tables and is announced: unless it is the
  interrupt, exactly one heartbeat is sent, with the status the heartbeat table has for that row.
  A value other than 0 leaves the state as it was.\<close>

theorem state_change_announced:
  assumes "processEvent api e status s bo = Inr (v, bo')"
  shows "(v = 0 \<or> v = 1 \<and> bo_state bo' = bo_state bo) \<and>
    (bo_state bo' = bo_state bo \<or>
     (\<exists>r. accepts (bo_state bo) r \<and> bo_state bo' = fsm_step (bo_state bo) r \<and>
       (bo_state bo' = exit_state \<or>
        (\<exists>m. bo_hb bo' = bo_hb bo @
           [fsm_message (get_heartbeat_status (bo_state bo) (get_event_by_status_code r) r) m]))))"
proof (cases "bo_state bo' = bo_state bo")
  case True
  then show ?thesis using processEvent_step [OF assms] by auto
next
  case False
  then have "accepts (bo_state bo) status" using assms processEvent_rejected [of bo status api e s] by auto
  from processEvent_chain [OF assms this] obtain x where x: "flow_ok (bo_state bo) x"
    "bo_hb (flow_bo x) = bo_hb bo \<or> idle x"
    "case x of Return u b \<Rightarrow> (v, bo') = (u, b) | Proceed st ev _ b \<Rightarrow> fsm_continue e st ev b = Inr (v, bo')"
    by blast
  with False obtain st ev t b where p: "x = Proceed st ev t b" by (cases x) auto
  with x have f: "fsm_continue e st ev b = Inr (v, bo')" and a: "accepted (bo_state bo) st ev"
    and b: "bo_state b = bo_state bo" by auto
  from fsm_continue_state [OF f] b have v: "v = 0" and n: "bo_state bo' = get_new_state (bo_state bo) ev st" by auto
  have "\<not> idle x"
    using False n b p by (auto simp: fsm_simps fsm_rows)
  then have hb: "bo_hb b = bo_hb bo" using x(2) p by auto
  have "get_new_state (bo_state bo) ev st \<noteq> NULL_state"
    using a by (auto simp: accepted_def check_event_iff_state)
  with action_of_move [of "bo_state bo" ev st] False n have
    "bo_state bo' = exit_state \<or> get_action (bo_state bo) ev st = send_heartbeat_action" by auto
  moreover have "\<exists>m. bo_hb bo' = bo_hb bo @ [fsm_message (get_heartbeat_status (bo_state bo) ev st) m]"
    if "get_action (bo_state bo) ev st = send_heartbeat_action"
    using f False n b that performAction_heartbeat [of e ev st "get_new_state (bo_state bo) ev st" b]
    by (auto simp: fsm_continue_def bindE_eq_Inr Let_def hb)
  ultimately show ?thesis
    using a n v by (auto simp: accepted_accepts fsm_step_def intro!: exI [of _ st])
qed

theorem state_change_announced_witness:
  "\<exists>bo' r m. processEvent mem_api sample_env status_156 (stream_of []) ((Boxoffice_init (\<lambda>_. None) [] [])\<lparr>bo_state := syncing_stop_state\<rparr>) =
      Inr (0, bo') \<and> bo_state bo' = ready_state \<and> accepts syncing_stop_state r \<and>
     bo_hb bo' = [fsm_message (get_heartbeat_status syncing_stop_state (get_event_by_status_code r) r) m]"
proof -
  let ?bo = "(Boxoffice_init (\<lambda>_. None) [] [])\<lparr>bo_state := syncing_stop_state\<rparr>"
  have "\<exists>bo'. processEvent mem_api sample_env status_156 (stream_of []) ?bo = Inr (0, bo') \<and> bo_state bo' = ready_state"
    by (simp add: processEvent_def Boxoffice_init_def get_event_by_status_code_def fsm_simps fsm_rows block_def
        dispatch_due_def is_local_event_def fsm_continue_def performAction_def updateHeartbeat_def prepareHeartbeatMessage_def
        send_hb_def)
  then obtain bo' where p: "processEvent mem_api sample_env status_156 (stream_of []) ?bo = Inr (0, bo')"
    "bo_state bo' = ready_state" by blast
  then show ?thesis
    using state_change_announced [OF p(1)] by (auto simp: Boxoffice_init_def)
qed

end
