(* ===== verification/Boxoffice_Protocol.thy ===== *)
theory Boxoffice_Protocol
  imports Boxoffice_Laws
begin

text \<open>
  What the router does on the messages of its boxes and of the other nodes: a local file is queued and
  announced, and the sender waits for every subscriber before it sends metadata.
  The theory also holds what goes wrong: a message from the network gets around the wait, a file that is changed while another is announced is
  dropped, the image of the current file is cut at the wrong byte, and two sequences of events
  end the router.
\<close>

section \<open>Events that take one block\<close>

lemma processEvent_local:
  assumes "accepts (bo_state bo) status" "is_local_event (get_event_by_status_code status)"
  shows "processEvent api e status s bo =
    bindE (local_file api status (get_event_by_status_code status) s bo) (\<lambda>x.
      case x of Return v bo \<Rightarrow> Inr (v, bo) | Proceed st ev _ bo \<Rightarrow> fsm_continue e st ev bo)"
proof -
  let ?ev = "get_event_by_status_code status"
  have ev: "?ev \<noteq> received_heartbeat_event" "\<not> dispatch_due status ?ev" "?ev \<noteq> received_file_data_event"
    using assms(2) by (auto simp: is_local_event_def dispatch_due_def)
  have "block (\<lambda>_ ev. ev = received_file_data_event) (received_data api) x = Inr x"
    if "local_file api status ?ev s bo = Inr x" for x
  proof -
    have "get_event_by_status_code status_301 \<noteq> received_file_data_event"
      by (simp add: get_event_by_status_code_def)
    then show ?thesis
      using that ev(3) by (auto simp: local_file_def bindE_eq_Inr Let_def case_prod_unfold block_def split: if_splits)
  qed
  then show ?thesis
    using assms ev by (cases "local_file api status ?ev s bo")
      (simp_all add: processEvent_def accepts_def block_def)
qed

lemma processEvent_heartbeat:
  assumes "accepts (bo_state bo) status" "get_event_by_status_code status = received_heartbeat_event"
    "received_heartbeat api e status received_heartbeat_event s bo = Inr x"
    "\<And>st ev s' b. x = Proceed st ev s' b \<Longrightarrow> \<not> dispatch_due st ev \<and> \<not> is_local_event ev \<and> ev \<noteq> received_file_data_event"
  shows "processEvent api e status s bo =
    (case x of Return v bo \<Rightarrow> Inr (v, bo) | Proceed st ev _ bo \<Rightarrow> fsm_continue e st ev bo)"
  using assms by (cases x) (simp_all add: processEvent_def accepts_def block_def)

section \<open>Messages of a box\<close>

text \<open>What a box sends: type, status and inotify mask, directly followed by its hash, and the path.\<close>

definition inotify_message :: "status_t \<Rightarrow> nat \<Rightarrow> string \<Rightarrow> string \<Rightarrow> string" where
  "inotify_message status im box_hash path =
    signal F_SIGTYPE_INOTIFY (status_code status) @ '' '' @ dec_nat im @ box_hash @ '' '' @ path"

lemma extract_word_after_space:
  assumes "list_all (\<lambda>c. \<not> is_space c) w" "w \<noteq> []" "is_space b"
  shows "fst (extract_word old (stream_at p (b # w))) = w"
proof -
  obtain c u where w: "w = c # u" using assms(2) by (cases w) auto
  have "skipws (stream_at p (b # w)) = (True, stream_at (p @ [b]) w)"
    using assms w skipws_space [of b c p u] by simp
  then show ?thesis using assms(1) by (simp add: extract_word_def takeWhile_all Let_def)
qed

lemma local_file_parse:
  assumes "im \<le> 2147483647" "length h = 64" "\<not> is_digit (hd h)"
    and "list_all (\<lambda>c. \<not> is_space c) path" "path \<noteq> []" "length path \<le> 128"
    and "map_of (bo_boxes bo) h = Some dir"
    and "make_local_file api (int im) dir (Hash_bytes h) path (bo\<lparr>bo_current_box := Some h\<rparr>) = Inr (f, bo1)"
  shows "\<exists>s'. local_file api status event (stream_at p ('' '' @ dec_nat im @ h @ '' '' @ path)) bo =
     Inr (let b = bo1\<lparr>bo_next_ptr := Suc (bo_next_ptr bo1)\<rparr>;
              new = push_file event (bo_next_ptr bo1, f) b in
       if bo_state bo = announcing_new_file_state \<and> \<not> list_ex (\<lambda>q. fst q = bo_next_ptr bo1) (file_list event b)
       then Proceed status_301 (get_event_by_status_code status_301) s'
              (b\<lparr>bo_subscribers := reset_replied (bo_subscribers b)\<rparr>)
       else Proceed status event s' (new\<lparr>bo_subscribers := reset_replied (bo_subscribers new)\<rparr>))"
proof -
  obtain a t where h: "h = a # t" using assms(2) by (cases h) auto
  have a: "\<not> is_digit a" "is_space CHR '' ''" using assms(3) h by (simp_all add: is_space_def)
  have i: "extract_int 0 (stream_at p ('' '' @ dec_nat im @ h @ '' '' @ path)) =
      (int im, stream_at (p @ '' '' @ dec_nat im) (h @ '' '' @ path))"
    using extract_int_dec_nat(2) [OF a(1) assms(1) a(2), of 0 p "t @ '' '' @ path"] by (simp add: h)
  have r: "read_exact F_GENERIC_HASH_LEN (stream_at q (h @ '' '' @ path)) = Inr (h, stream_at (q @ h) ('' '' @ path))" for q
    using assms(2) by (intro read_exact_stream_at) (simp add: hash_len)
  obtain s' where w: "extract_word [] (stream_at ((p @ '' '' @ dec_nat im) @ h) ('' '' @ path)) = (path, s')"
    using extract_word_after_space [OF assms(4,5) a(2), of "[]" "(p @ '' '' @ dec_nat im) @ h"]
    by (metis append_Cons append_Nil prod.collapse)
  have d: "digest (Hash_bytes h) = h" using assms(2) by (simp add: Hash_bytes_ok)
  have b: "box_base_dir (Hash_bytes h) (bo\<lparr>bo_current_box := Some h\<rparr>) = Inr dir"
    using assms(7) by (simp add: box_base_dir_def d)
  obtain z where "bo1 = bo\<lparr>bo_current_box := Some h, bo_fs := z\<rparr>" using make_local_file_state [OF assms(8)] by blast
  then have st: "bo_state bo1 = bo_state bo" by simp
  show ?thesis
    unfolding local_file_def i r Let_def prod.case w b using assms(6,8) st w
    by (auto simp: r b Let_def)
qed

lemma read_signal_message:
  assumes "0 \<le> a" "a \<le> 2147483647" "0 \<le> b" "b \<le> 2147483647" "\<not> is_digit c"
  shows "read_signal vars (signal a b @ c # t) = ((a, b), stream_at (signal a b) (c # t))"
proof -
  have "signal a b = dec_nat (nat a) @ '' '' @ dec_nat (nat b)" using assms by (simp add: signal_def dec_def)
  then show ?thesis
    using read_signal_numbers [of "nat a" "nat b" c vars t] assms by (simp add: nat_le_iff)
qed

lemma space_no_digit: "\<not> is_digit CHR '' ''" "is_space CHR '' ''"
  by (simp_all add: is_digit_def is_space_def)

lemma ready_local_rows:
  "accepts ready_state status_300" "accepts ready_state status_320"
  "get_event_by_status_code status_300 = new_local_file_event"
  "get_event_by_status_code status_320 = local_file_metadata_change_event"
  "get_new_state ready_state new_local_file_event status_300 = announcing_new_file_state"
  "get_new_state ready_state local_file_metadata_change_event status_320 = announcing_file_metadata_change_state"
  "get_action ready_state new_local_file_event status_300 = send_heartbeat_action"
  "get_action ready_state local_file_metadata_change_event status_320 = send_heartbeat_action"
  "get_heartbeat_status ready_state new_local_file_event status_300 = status_120"
  "get_heartbeat_status ready_state local_file_metadata_change_event status_320 = status_160"
  by (simp_all add: fsm_step_eval)

lemma status_of_int_local: "status_of_int 300 = status_300" "status_of_int 320 = status_320"
  by (simp_all add: status_of_int_def)

lemma ready_local_continue:
  assumes "bo_state b = ready_state"
  shows "fsm_continue e status_300 new_local_file_event b =
      Inr (0, b\<lparr>bo_hb := bo_hb b @ [fsm_message status_120 []], bo_state := announcing_new_file_state\<rparr>)"
    and "fsm_continue e status_320 local_file_metadata_change_event b =
      Inr (0, b\<lparr>bo_hb := bo_hb b @ [fsm_message status_160 []], bo_state := announcing_file_metadata_change_state\<rparr>)"
  using assms by (simp_all add: fsm_continue_def ready_local_rows performAction_def updateHeartbeat_def
      prepareHeartbeatMessage_def send_hb_def Let_def)

section \<open>A file in the announcing state\<close>

lemma file_list_update [simp]:
  "file_list ev (bo\<lparr>bo_next_ptr := n\<rparr>) = file_list ev bo" "file_list ev (bo\<lparr>bo_current_box := c\<rparr>) = file_list ev bo"
  "file_list ev (bo\<lparr>bo_fs := z\<rparr>) = file_list ev bo"
  by (simp_all add: file_list_def)

lemma fresh_not_found:
  "fresh bo \<Longrightarrow> \<not> list_ex (\<lambda>q. fst q = bo_next_ptr bo) (file_list event bo)"
proof -
  assume "fresh bo"
  then have "\<forall>q \<in> set (bo_file_list_data bo) \<union> set (bo_file_list_metadata bo). fst q < bo_next_ptr bo"
    unfolding fresh_def list_all_iff by simp
  moreover have "set (file_list event bo) \<subseteq> set (bo_file_list_data bo) \<union> set (bo_file_list_metadata bo)"
    by (simp add: file_list_def)
  ultimately have "\<forall>q \<in> set (file_list event bo). fst q < bo_next_ptr bo" by blast
  then have "\<forall>q \<in> set (file_list event bo). fst q \<noteq> bo_next_ptr bo" by (simp add: less_imp_neq)
  then show ?thesis unfolding list_ex_iff by blast
qed

lemma local_file_announcing:
  assumes "fresh bo" "bo_state bo = announcing_new_file_state" "local_file api status event s bo = Inr x"
  shows "bo_file_list_data (flow_bo x) = bo_file_list_data bo \<and> bo_file_list_metadata (flow_bo x) = bo_file_list_metadata bo \<and>
    (\<forall>st ev t b. x = Proceed st ev t b \<longrightarrow> st = status_301 \<and> ev = get_event_by_status_code status_301)"
proof -
  have k: "bo_file_list_data b = bo_file_list_data bo" "bo_file_list_metadata b = bo_file_list_metadata bo"
    "bo_state b = announcing_new_file_state"
    "\<not> list_ex (\<lambda>q. fst q = bo_next_ptr b) (file_list event (b\<lparr>bo_next_ptr := n\<rparr>))"
    if mk: "make_local_file api m d h p (bo\<lparr>bo_current_box := c\<rparr>) = Inr (f, b)" for m d h p c f b n
  proof -
    obtain z where b: "b = bo\<lparr>bo_current_box := c, bo_fs := z\<rparr>" using make_local_file_state [OF mk] by blast
    then show "bo_file_list_data b = bo_file_list_data bo" "bo_file_list_metadata b = bo_file_list_metadata bo"
      "bo_state b = announcing_new_file_state" using assms(2) by simp_all
    have "file_list event (b\<lparr>bo_next_ptr := n\<rparr>) = file_list event bo" "bo_next_ptr b = bo_next_ptr bo"
      by (simp_all add: file_list_def b)
    then show "\<not> list_ex (\<lambda>q. fst q = bo_next_ptr b) (file_list event (b\<lparr>bo_next_ptr := n\<rparr>))"
      using fresh_not_found [OF assms(1), of event] by simp
  qed
  show ?thesis
    using assms(3) k by (auto simp: local_file_def bindE_eq_Inr Let_def case_prod_unfold split: if_splits)
qed

lemma announcing_301:
  "fsm_continue e status_301 (get_event_by_status_code status_301) bo = Inr (0, bo)" if "bo_state bo = announcing_new_file_state"
  using that by (simp add: fsm_continue_def get_event_by_status_code_def fsm_simps fsm_rows)

text \<open>The router after a report: the file is queued, the replies are reset, the heartbeat is sent.\<close>

definition reported :: "status_t \<Rightarrow> File \<Rightarrow> status_t \<Rightarrow> state_t \<Rightarrow> 'fs boxoffice \<Rightarrow> 'fs boxoffice" where
  "reported status f hb st bo =
    (push_file (get_event_by_status_code status) (bo_next_ptr bo, f) (bo\<lparr>bo_next_ptr := Suc (bo_next_ptr bo)\<rparr>))
      \<lparr>bo_subscribers := reset_replied (bo_subscribers bo), bo_hb := bo_hb bo @ [fsm_message hb []], bo_state := st\<rparr>"

lemma router_reported:
  assumes "(status, new_state, hb) \<in> {(status_300, announcing_new_file_state, status_120),
      (status_320, announcing_file_metadata_change_state, status_160)}"
    and "bo_state bo = ready_state" "im \<le> 2147483647" "length h = 64" "\<not> is_digit (hd h)"
    and "list_all (\<lambda>c. \<not> is_space c) path" "path \<noteq> []" "length path \<le> 128"
    and "map_of (bo_boxes bo) h = Some dir"
    and "make_local_file api (int im) dir (Hash_bytes h) path (bo\<lparr>bo_current_box := Some h\<rparr>) = Inr (f, bo1)"
  shows "runRouter api vars [(e, inotify_message status im h path)] bo = Inr (None, reported status f hb new_state bo1)"
proof -
  let ?ev = "get_event_by_status_code status"
  let ?s = "stream_at (signal F_SIGTYPE_INOTIFY (status_code status)) ('' '' @ dec_nat im @ h @ '' '' @ path)"
  let ?b = "push_file ?ev (bo_next_ptr bo1, f) (bo1\<lparr>bo_next_ptr := Suc (bo_next_ptr bo1)\<rparr>)"
  obtain z where bo1: "bo1 = bo\<lparr>bo_current_box := Some h, bo_fs := z\<rparr>" using make_local_file_state [OF assms(10)] by blast
  have stt: "status = status_300 \<or> status = status_320" using assms(1) by blast
  have code: "status_of_int (status_code status) = status" "0 \<le> status_code status" "status_code status \<le> 2147483647"
    using stt by (auto simp: status_of_int_local)
  have rs: "read_signal vars (inotify_message status im h path) = ((F_SIGTYPE_INOTIFY, status_code status), ?s)"
    unfolding inotify_message_def append_Cons append_Nil
    by (rule read_signal_message [OF _ _ code(2,3) space_no_digit(1)]) (simp_all add: sig_defs)
  have acc: "accepts (bo_state bo) status" "is_local_event ?ev"
    using assms(1,2) ready_local_rows by (auto simp: is_local_event_def)
  from local_file_parse [OF assms(3-10), of status ?ev] obtain s' where
    l: "local_file api status ?ev ?s bo = Inr (Proceed status ?ev s' (?b\<lparr>bo_subscribers := reset_replied (bo_subscribers ?b)\<rparr>))"
    using assms(2) by (auto simp: Let_def)
  have st: "bo_state ?b = ready_state" "bo_hb ?b = bo_hb bo1" "bo_subscribers ?b = bo_subscribers bo1"
    using assms(2) by (simp_all add: push_file_def bo1)
  have "processEvent api e status ?s bo = fsm_continue e status ?ev (?b\<lparr>bo_subscribers := reset_replied (bo_subscribers ?b)\<rparr>)"
    unfolding processEvent_local [OF acc] l by simp
  also have "\<dots> = Inr (0, reported status f hb new_state bo1)"
    using assms(1) st by (elim insertE emptyE) (simp_all add: reported_def ready_local_continue ready_local_rows)
  finally show ?thesis using code(1) by (simp add: rs sig_defs)
qed

text \<open>A box reports a new or a changed file to an idle router: the file is put behind the queue for data or for metadata, every
  subscriber's reply is reset, the box becomes the current one, and the router announces the file with heartbeat 120 or 160.
  The text form of the hash must not begin with a digit, since the mask in front of it would swallow it.\<close>

lemma router_local_file:
  assumes "(status, new_state, hb) \<in> {(status_300, announcing_new_file_state, status_120),
      (status_320, announcing_file_metadata_change_state, status_160)}"
    and "bo_state bo = ready_state" "im \<le> 2147483647" "length h = 64" "\<not> is_digit (hd h)"
    and "list_all (\<lambda>c. \<not> is_space c) path" "path \<noteq> []" "length path \<le> 128"
    and "map_of (bo_boxes bo) h = Some dir"
    and "make_local_file api (int im) dir (Hash_bytes h) path (bo\<lparr>bo_current_box := Some h\<rparr>) = Inr (f, bo1)"
  shows "\<exists>bo'. runRouter api vars [(e, inotify_message status im h path)] bo = Inr (None, bo') \<and>
     bo_state bo' = new_state \<and> bo_hb bo' = bo_hb bo @ [fsm_message hb []] \<and> bo_current_box bo' = Some h \<and>
     bo_file_list_data bo' = bo_file_list_data bo @ (if status = status_300 then [(bo_next_ptr bo, f)] else []) \<and>
     bo_file_list_metadata bo' = bo_file_list_metadata bo @ (if status = status_320 then [(bo_next_ptr bo, f)] else []) \<and>
     list_all (\<lambda>x. \<not> n_replied (s_node x)) (bo_subscribers bo') \<and> bo_boxes bo' = bo_boxes bo"
proof -
  obtain z where bo1: "bo1 = bo\<lparr>bo_current_box := Some h, bo_fs := z\<rparr>" using make_local_file_state [OF assms(10)] by blast
  show ?thesis
    unfolding router_reported [OF assms] using assms(1)
    by (elim insertE emptyE) (simp_all add: reported_def bo1 push_file_def ready_local_rows reset_replied_def list_all_iff)
qed

section \<open>Replies\<close>

lemma sub_access_again: "sub_access h subs = Inr (subs', i) \<Longrightarrow> sub_access h subs' = Inr (subs', False)"
  by (auto simp: sub_access_def list_ex_iff split: if_splits)

lemma list_ex_sub_update:
  "(\<And>e n. P (e\<lparr>s_node := n\<rparr>) = P e) \<Longrightarrow> list_ex P (sub_update k g subs) = list_ex P subs"
  by (induction subs) (simp_all add: sub_update_def)

lemma sub_access_update:
  "sub_access h subs = Inr (subs, False) \<Longrightarrow> sub_access h (sub_update k g subs) = Inr (sub_update k g subs, False)"
  by (auto simp: sub_access_def list_ex_sub_update split: if_splits)

lemma sub_access_reset:
  "sub_access h subs = Inr (subs, False) \<Longrightarrow> sub_access h (reset_replied subs) = Inr (reset_replied subs, False)"
proof -
  have "list_ex P (reset_replied subs) = list_ex P subs" if "\<And>e n. P (e\<lparr>s_node := n\<rparr>) = P e" for P
    using that by (induction subs) (simp_all add: reset_replied_def)
  then show "sub_access h subs = Inr (subs, False) \<Longrightarrow> ?thesis"
    by (auto simp: sub_access_def split: if_splits)
qed

lemma updateTimestamp_access:
  assumes "updateTimestamp e s bo = Inr (s1, bo1)"
  shows "\<exists>h. bo_current_node_hash bo1 = Some h \<and> sub_access h (bo_subscribers bo1) = Inr (bo_subscribers bo1, False)"
proof -
  from assms obtain h subs subs' i g g' where "sub_access h subs = Inr (subs', i)" "bo_current_node_hash bo1 = Some h"
    "bo_subscribers bo1 = sub_update h g (sub_update h g' subs')"
    by (auto simp: updateTimestamp_def bindE_eq_Inr Let_def)
  then show ?thesis using sub_access_update sub_access_again by metis
qed

lemma note_reply_known:
  assumes "bo_current_node_hash bo = Some h" "sub_access h (bo_subscribers bo) = Inr (bo_subscribers bo, False)"
  defines "subs \<equiv> sub_update h (\<lambda>n. n\<lparr>n_replied := True\<rparr>) (bo_subscribers bo)"
  shows "note_reply bo = Inr (if all_replied subs then (True, bo\<lparr>bo_subscribers := reset_replied subs\<rparr>)
     else (False, bo\<lparr>bo_subscribers := subs\<rparr>))"
  using assms by (simp add: note_reply_def Let_def)

lemma updateTimestamp_disp: "updateTimestamp e s bo = Inr (s1, bo1) \<Longrightarrow> bo_disp bo1 = bo_disp bo \<and> bo_boxes bo1 = bo_boxes bo"
  by (auto simp: updateTimestamp_def bindE_eq_Inr Let_def)

lemma notify_dispatcher_effect:
  assumes "notify_dispatcher e status s bo = Inr (s', bo')" "list_all (\<lambda>x. \<not> n_replied (s_node x)) (bo_subscribers bo)"
  shows "\<exists>m. bo_disp bo' = bo_disp bo @ [fsm_message status m]" "list_all (\<lambda>x. \<not> n_replied (s_node x)) (bo_subscribers bo')"
proof -
  have "list_all (\<lambda>x. \<not> n_replied (s_node x)) subs" if "sub_access h (bo_subscribers bo) = Inr (subs, i)" for h subs i
    using that assms(2) by (auto simp: sub_access_def node_default_def split: if_splits)
  then show "\<exists>m. bo_disp bo' = bo_disp bo @ [fsm_message status m]" "list_all (\<lambda>x. \<not> n_replied (s_node x)) (bo_subscribers bo')"
    using assms(1) by (cases "bo_file_list_data bo";
        auto simp: notify_dispatcher_def bindE_eq_Inr Let_def send_disp_def split: option.splits)+
qed

lemma list_all_reset: "list_all (\<lambda>x. \<not> n_replied (s_node x)) (reset_replied subs)"
  by (simp add: reset_replied_def list_all_iff)

lemma announcing_rows:
  "accepts announcing_new_file_state status_121" "get_event_by_status_code status_121 = received_heartbeat_event"
  "check_event announcing_new_file_state received_heartbeat_event status_121"
  "get_event_by_status_code status_122 = all_nodes_replied_event"
  "check_event announcing_new_file_state all_nodes_replied_event status_122"
  "get_new_state announcing_new_file_state received_heartbeat_event status_121 = announcing_new_file_state"
  "get_new_state announcing_new_file_state all_nodes_replied_event status_122 = sending_new_file_metadata_state"
  "get_action announcing_new_file_state all_nodes_replied_event status_122 = send_heartbeat_action"
  "get_heartbeat_status announcing_new_file_state all_nodes_replied_event status_122 = status_130"
  by (simp_all add: fsm_step_eval)

lemma metadata_sent:
  assumes "fsm_continue e status_122 all_nodes_replied_event bo = Inr (v, bo')" "bo_state bo = announcing_new_file_state"
  shows "v = 0 \<and> bo_state bo' = sending_new_file_metadata_state \<and> bo_disp bo' = bo_disp bo \<and> bo_subscribers bo' = bo_subscribers bo \<and>
    (\<exists>ptr f image. bo_file_list_data bo = (ptr, f) # bo_file_list_data bo' \<and> file_out f = Inr image \<and>
       bo_hb bo' = bo_hb bo @ [fsm_message status_130 (image @ htobe64 (bo_current_timing_offset bo))])"
  using assms
  by (cases "bo_file_list_data bo")
    (auto simp: fsm_continue_def announcing_rows performAction_def updateHeartbeat_def prepareHeartbeatMessage_def
      set_current_file_def send_hb_def bindE_eq_Inr Let_def)

lemma processEvent_122:
  "bo_state bo = announcing_new_file_state \<Longrightarrow> processEvent api e status_122 s bo =
     bindE (notify_dispatcher e status_122 s bo) (\<lambda>(s, b). fsm_continue e status_122 all_nodes_replied_event b)"
  by (cases "notify_dispatcher e status_122 s bo")
    (auto simp: processEvent_def announcing_rows block_def dispatch_due_def is_local_event_def)

lemma notify_dispatcher_subscribers:
  assumes "notify_dispatcher e status s bo = Inr (s', bo')"
  shows "take (length (bo_subscribers bo)) (bo_subscribers bo') = bo_subscribers bo"
proof -
  have "take (length subs) subs' = subs" if "sub_access h subs = Inr (subs', i)" for h subs subs' i
    using that by (auto simp: sub_access_def split: if_splits)
  then show ?thesis
    using assms by (cases "bo_file_list_data bo";
        auto simp: notify_dispatcher_def bindE_eq_Inr Let_def send_disp_def split: option.splits)
qed

section \<open>Heartbeat messages\<close>

text \<open>The node, a separator, its clock and the rest; the timestamps of the node are set.\<close>

lemma updateTimestamp_parse:
  assumes "length u = 64" "length ts = 8" "\<not> bo_node_hash_is_key bo"
    "sub_access (Hash_bytes u) (bo_subscribers bo) = Inr (subs, i)"
  shows "\<exists>g. (\<forall>n. n_replied (g n) = n_replied n) \<and>
     updateTimestamp e (stream_at p (u @ c # ts @ t)) bo =
       Inr (stream_at (p @ u @ c # ts) t,
            bo\<lparr>bo_current_node_hash := Some (Hash_bytes u), bo_node_hash_is_key := i,
               bo_subscribers := sub_update (Hash_bytes u) g subs\<rparr>)"
proof -
  let ?h = "Hash_bytes u"
  let ?g1 = "\<lambda>n. n\<lparr>n_last_timestamp := be64toh ts\<rparr>"
  let ?o = "ucast (e_now_recv e - n_last_timestamp (sub_node ?h (sub_update ?h ?g1 subs))) :: u16"
  have r: "read_exact F_GENERIC_HASH_LEN (stream_at p (u @ c # ts @ t)) = Inr (u, stream_at (p @ u) (c # ts @ t))"
    using assms(1) by (intro read_exact_stream_at) (simp add: hash_len)
  have s: "seekg_cur 1 (stream_at q (c # ts @ t)) = stream_at (q @ [c]) (ts @ t)" for q
    using seekg_cur_stream_at [of "[c]" 1 q "ts @ t"] by simp
  have b: "sub_update ?h f (sub_update ?h f' subs) = sub_update ?h (\<lambda>n. f (f' n)) subs" for f f'
    by (simp add: sub_update_def)
  have x: "read_exact 8 (stream_at q (ts @ t)) = Inr (ts, stream_at (q @ ts) t)" for q
    using assms(2) by (rule read_exact_stream_at)
  have subs: "(case bo_current_node_hash bo of
                  Some k \<Rightarrow> if bo_node_hash_is_key bo
                    then map (\<lambda>x. if digest (s_key x) = digest k then x\<lparr>s_freed := True\<rparr> else x) (bo_subscribers bo)
                    else bo_subscribers bo
                | None \<Rightarrow> bo_subscribers bo) = bo_subscribers bo"
    using assms(3) by (simp split: option.splits)
  show ?thesis
    unfolding updateTimestamp_def r bindE.simps prod.case s x Let_def subs assms(4) b
    by (intro exI [of _ "\<lambda>n. (?g1 n)\<lparr>n_offset := ?o\<rparr>"]) simp
qed

lemma list_ex_freed:
  "list_ex (\<lambda>x. digest (s_key x) = k) subs \<Longrightarrow> take 8 k = v \<Longrightarrow>
     list_ex (\<lambda>x. s_freed x \<and> take 8 (digest (s_key x)) = v)
       (map (\<lambda>x. if digest (s_key x) = k then x\<lparr>s_freed := True\<rparr> else x) subs)"
  by (induction subs) auto

lemma updateTimestamp_freed:
  assumes "length u = 64" "length ts = 8" "bo_node_hash_is_key bo" "bo_current_node_hash bo = Some k"
    "list_ex (\<lambda>x. digest (s_key x) = digest k) (bo_subscribers bo)" "take 8 (digest k) = take 8 u"
  shows "updateTimestamp e (stream_at p (u @ c # ts @ t)) bo = Inl Undefined_behaviour"
proof -
  have r: "read_exact F_GENERIC_HASH_LEN (stream_at p (u @ c # ts @ t)) = Inr (u, stream_at (p @ u) (c # ts @ t))"
    using assms(1) by (intro read_exact_stream_at) (simp add: hash_len)
  have s: "seekg_cur 1 (stream_at q (c # ts @ t)) = stream_at (q @ [c]) (ts @ t)" for q
    using seekg_cur_stream_at [of "[c]" 1 q "ts @ t"] by simp
  have x: "read_exact 8 (stream_at q (ts @ t)) = Inr (ts, stream_at (q @ ts) t)" for q
    using assms(2) by (rule read_exact_stream_at)
  have "digest (Hash_bytes u) = u" using assms(1) by (simp add: Hash_bytes_ok)
  then have "list_ex (\<lambda>x. s_freed x \<and> take 8 (digest (s_key x)) = take 8 (digest (Hash_bytes u)))
      (map (\<lambda>x. if digest (s_key x) = digest k then x\<lparr>s_freed := True\<rparr> else x) (bo_subscribers bo))"
    using assms(5,6) by (intro list_ex_freed) simp_all
  then have "sub_access (Hash_bytes u)
      (map (\<lambda>x. if digest (s_key x) = digest k then x\<lparr>s_freed := True\<rparr> else x) (bo_subscribers bo)) = Inl Undefined_behaviour"
    by (simp add: sub_access_def)
  then show ?thesis
    unfolding updateTimestamp_def r bindE.simps prod.case s x Let_def using assms(3,4) by simp
qed

lemma ready_100_rows:
  "get_event_by_status_code status_100 = received_heartbeat_event"
  "check_event ready_state received_heartbeat_event status_100"
  "get_new_state ready_state received_heartbeat_event status_100 = ready_state"
  by (simp_all add: fsm_step_eval)

lemma processEvent_ready_100:
  assumes "bo_state bo = ready_state"
  shows "processEvent api e status_100 s bo =
    bindE (updateTimestamp e s bo) (\<lambda>(s, bo). Inr (0, bo\<lparr>bo_stop_sync_timeout_received := False\<rparr>))"
proof (cases "updateTimestamp e s bo")
  case (Inl a)
  then show ?thesis
    by (simp add: processEvent_def assms ready_100_rows block_def received_heartbeat_def)
next
  case (Inr y)
  then obtain s1 bo1 where y: "updateTimestamp e s bo = Inr (s1, bo1)" by (cases y) simp
  then have "bo_state bo1 = ready_state" using updateTimestamp_state assms by metis
  then show ?thesis
    by (simp add: processEvent_def assms ready_100_rows block_def received_heartbeat_def y dispatch_due_def
        is_local_event_def fsm_continue_def)
qed

lemma metadata_rows:
  assumes "st = sending_file_metadata_change_state \<or> st = sending_file_metadata_change_with_more_state"
  shows "get_event_by_status_code status_141 = received_heartbeat_event"
    "check_event st received_heartbeat_event status_141"
    "\<not> check_event st (get_event_by_status_code status_174) status_174"
  using assms by (elim disjE; simp add: fsm_step_eval)+

lemma announcing_complete:
  assumes "bo_state bo = announcing_new_file_state" "updateTimestamp e s bo = Inr (s1, bo1)"
    "bo_current_node_hash bo1 = Some h"
  defines "subs \<equiv> sub_update h (\<lambda>n. n\<lparr>n_replied := True\<rparr>) (bo_subscribers bo1)"
  assumes "all_replied subs"
  shows "processEvent api e status_121 s bo =
    bindE (notify_dispatcher e status_122 s1 (bo1\<lparr>bo_subscribers := reset_replied subs, bo_file_metadata_written := False\<rparr>))
      (\<lambda>(s, b). fsm_continue e status_122 all_nodes_replied_event b)"
proof -
  let ?b = "bo1\<lparr>bo_subscribers := reset_replied subs, bo_file_metadata_written := False\<rparr>"
  have k: "sub_access h (bo_subscribers bo1) = Inr (bo_subscribers bo1, False)"
    using updateTimestamp_access [OF assms(2)] assms(3) by auto
  have st: "bo_state bo1 = announcing_new_file_state" using updateTimestamp_state [OF assms(2)] assms(1) by simp
  have "received_heartbeat api e status_121 received_heartbeat_event s bo =
      Inr (Proceed status_122 all_nodes_replied_event s1 ?b)"
    using assms(5) by (simp add: received_heartbeat_def assms(2) received_reply_def note_reply_known [OF assms(3) k]
        change_status_def status_when_all_replied_def st announcing_rows subs_def)
  then show ?thesis
    by (cases "notify_dispatcher e status_122 s1 ?b")
      (auto simp: processEvent_def assms(1) announcing_rows block_def dispatch_due_def is_local_event_def)
qed

section \<open>The current file\<close>

lemma set_current_file_image:
  assumes "set_current_file f bo = Inr bo'" "f_box_hash f = Some h" "filled h" "\<not> f_deleted f"
  shows "\<exists>m. length m = 15 \<and> bo_current_file bo' = stream_at [] (drop 32 (digest h) @ f_path f @ m)"
proof -
  define m where "m = htobe16 (f_mode f) @ byte_of (f_type f) @ htobe32 (f_mtime f) @
    htobe64 (if f_type f = regular_file then f_size f else 0)"
  have o: "file_out f = Inr (digest h @ f_path f @ m)"
    using assms(2-4) by (simp add: file_out_def getBytes_def filled_cases m_def)
  have "length (digest h) = 64" using assms(3) by (simp add: filled_cases)
  moreover have "length m = 15"
    by (simp add: m_def be16.enc_length be32.enc_length be64.enc_length byte8.enc_length)
  ultimately show ?thesis
    using assms(1) by (intro exI [of _ m]) (auto simp: set_current_file_def o stream_of_at)
qed

text \<open>Zeros where the metadata should be: no file type, so the file is neither found nor created.\<close>

lemma file_in_zeros:
  assumes "f_box_hash g \<noteq> None" "f_box_path g \<noteq> []" "length path = F_MAXIMUM_PATH_LENGTH"
    "constructPath (f_box_path g) path = Inr bp" "\<not> exists_ec api fs bp"
  shows "file_in api fs (stream_at p (path @ replicate 7 NUL @ r)) g = Inl Filesystem_error"
proof -
  have z: "replicate 7 NUL @ r = [NUL, NUL] @ [NUL] @ [NUL, NUL, NUL, NUL] @ r" by (simp add: eval_nat_numeral)
  have sk: "skipws (stream_at (p @ path) (replicate 7 NUL @ r)) = (True, stream_at (p @ path) (replicate 7 NUL @ r))"
    unfolding z by (simp add: skipws_nonspace is_space_def NUL_def)
  have "file_in api fs (stream_at p (path @ replicate 7 NUL @ r)) g =
      file_in_body api fs (stream_at (p @ path) (replicate 7 NUL @ r)) path (g\<lparr>f_path := path\<rparr>)"
    by (rule file_in_path [OF assms(1-3) sk]) (unfold z, simp add: is_space_def NUL_def)
  moreover have "of_byte [NUL] = 0" by (simp add: of_byte_def be_nat_def NUL_def)
  moreover have "checkArguments api fs bp path 0 True = Inl Filesystem_error"
    using assms(3,5) path_not_empty [OF assms(3)] by (simp add: checkArguments_def Let_def regular_file_def directory_file_def)
  ultimately show ?thesis
    unfolding z using assms(4) read_exact_stream_at [of "[NUL, NUL]" 2] read_exact_stream_at [of "[NUL]" 1]
      read_exact_stream_at [of "[NUL, NUL, NUL, NUL]" 4] by (simp add: file_in_body_def)
qed

lemma split_padding:
  assumes "f_path f = q @ replicate (128 - length q) NUL" "length q \<le> 89"
  shows "\<exists>r. f_path f = take 96 (f_path f) @ replicate 7 NUL @ r"
proof -
  have "drop 96 (f_path f) = replicate 32 NUL" using assms by simp
  then have "drop 96 (f_path f) = replicate 7 NUL @ replicate 25 NUL" by (simp add: replicate_add [symmetric])
  then show ?thesis by (metis append_take_drop_id)
qed

section \<open>File data\<close>

text \<open>A data packet when the current file can be read back, which the images the router keeps do not allow
  (\<open>received_data_fails\<close>).\<close>

lemma received_data_packet:
  assumes "bo_current_box bo = Some box" "map_of (bo_boxes bo) box = Some dir" "length box = 64"
    and "file_in api (bo_fs bo) (bo_current_file bo) (File_default dir (Some (Hash_bytes box))) = Inr (cf, f, fs)"
    and "length u = 64" "unat n = length d"
    and "storeFileData api fs f d (sint n) (sint off) = Inr (f', fs')"
  shows "\<exists>s'. received_data api status event (stream_at p (u @ htobe64 off @ htobe64 n @ byte_of m @ d @ t)) bo =
     Inr (let bo' = bo\<lparr>bo_current_file := cf, bo_fs := fs'\<rparr> in
       if m = 0 then change_status status_113 s' bo' else Proceed status event s' bo')"
proof -
  have sk: "seekg_cur (int F_GENERIC_HASH_LEN) (stream_at p (u @ r)) = stream_at (p @ u) r" for r
    using assms(5) by (intro seekg_cur_stream_at) (simp add: hash_len)
  have dir: "box_base_dir (Hash_bytes box) bo = Inr dir" using assms(2,3) by (simp add: box_base_dir_def Hash_bytes_ok)
  have r: "read_exact 8 (stream_at q (htobe64 w @ v)) = Inr (htobe64 w, stream_at (q @ htobe64 w) v)"
    "read_exact 1 (stream_at q (byte_of m @ v)) = Inr (byte_of m, stream_at (q @ byte_of m) v)"
    "read_exact (length d) (stream_at q (d @ v)) = Inr (d, stream_at (q @ d) v)" for q v w
    by (simp_all add: read_exact_stream_at be64.enc_length byte8.enc_length)
  have dc: "be64toh (htobe64 w) = w" "of_byte (byte_of m) = m" for w by (rule be64.deco_enc, rule byte8.deco_enc)
  show ?thesis
    unfolding received_data_def assms(1) option.case Let_def dir bindE.simps assms(4) prod.case sk r(1) r(2) dc assms(6) r(3)
    by (intro exI [of _ "stream_at (((((p @ u) @ htobe64 off) @ htobe64 n) @ byte_of m) @ d) t"]) (simp add: assms(7))
qed

section \<open>Properties\<close>

definition sample_bo :: "state_t \<Rightarrow> (string \<Rightarrow> string option) boxoffice" where
  "sample_bo st = (Boxoffice_init (\<lambda>_. None) [] [(replicate 64 CHR ''h'', ''/b'')])\<lparr>bo_state := st\<rparr>"

lemma sample_local_file:
  "make_local_file mem_api (int 512) ''/b'' (Hash_bytes (replicate 64 CHR ''h'')) ''/a'' bo =
   Inr ((File_default ''/b'' (Some (Hash_bytes (replicate 64 CHR ''h''))))
          \<lparr>f_deleted := True, f_path := ''/a'' @ drop 2 empty_path\<rparr>, bo)"
  by (simp add: make_local_file_def IN_DELETE_def File_deleted_def copy_path_def path_len File_default_def
      numeral_2_eq_2)

lemma sample_bo_simps [simp]:
  "bo_state (sample_bo st) = st" "bo_boxes (sample_bo st) = [(replicate 64 CHR ''h'', ''/b'')]"
  "bo_file_list_metadata (sample_bo st) = []" "bo_file_list_data (sample_bo st) = []"
  "bo_subscribers (sample_bo st) = []" "fresh (sample_bo st)"
  by (simp_all add: sample_bo_def Boxoffice_init_def fresh_def)

lemma sample_bo_ready: "sample_bo ready_state = Boxoffice_init (\<lambda>_. None) [] [(replicate 64 CHR ''h'', ''/b'')]"
  by (simp add: sample_bo_def Boxoffice_init_def)

lemma sample_chars: "\<not> is_digit (hd (replicate 64 CHR ''h''))" "list_all (\<lambda>c. \<not> is_space c) ''/a''"
  by (simp_all add: is_digit_def is_space_def)

text \<open>C21. A file that is reported while a new file is being announced is dropped: \<^verbatim>\<open>std::find\<close> looks for
  the address of the object just made, never finds it, and the report is taken for a repetition.
  In every state the router can reach, both queues, the state and the heartbeats stay as they are.\<close>

theorem announcing_drops_files:
  assumes "runRouter api vars ms (Boxoffice_init fs subs boxes) = Inr (r, bo)"
    and "bo_state bo = announcing_new_file_state" "is_local_event (get_event_by_status_code status)"
    and "processEvent api' e status s bo = Inr (v, bo')"
  shows "bo_file_list_data bo' = bo_file_list_data bo \<and> bo_file_list_metadata bo' = bo_file_list_metadata bo \<and>
    bo_state bo' = announcing_new_file_state"
proof (cases "accepts (bo_state bo) status")
  case False
  with assms processEvent_rejected [of bo status api' e s] show ?thesis by simp
next
  case True
  have "fresh (Boxoffice_init fs subs boxes)" by (simp add: fresh_def Boxoffice_init_def)
  then have f: "fresh bo" using runRouter_fresh assms(1) by blast
  from assms(4) obtain x where x: "local_file api' status (get_event_by_status_code status) s bo = Inr x"
    "(case x of Return v bo \<Rightarrow> Inr (v, bo) | Proceed st ev _ bo \<Rightarrow> fsm_continue e st ev bo) = Inr (v, bo')"
    unfolding processEvent_local [OF True assms(3)] by (auto simp: bindE_eq_Inr)
  note q = local_file_announcing [OF f assms(2) x(1)]
  have "accepted (bo_state bo) status (get_event_by_status_code status)"
    using True by (simp add: accepted_accepts)
  from local_file_ok [OF this x(1)] have "flow_ok announcing_new_file_state x" using assms(2) by simp
  with x(2) q show ?thesis by (cases x) (auto simp: announcing_301)
qed

theorem announcing_drops_files_witness:
  "\<exists>bo v bo'. runRouter mem_api (0, 0) [(sample_env, inotify_message status_300 512 (replicate 64 CHR ''h'') ''/a'')]
      (sample_bo ready_state) = Inr (None, bo) \<and>
    processEvent mem_api sample_env status_300
      (stream_at [] ('' '' @ dec_nat 512 @ replicate 64 CHR ''h'' @ '' '' @ ''/a'')) bo = Inr (v, bo') \<and>
    bo_file_list_data bo' = bo_file_list_data bo"
proof -
  let ?h = "replicate 64 CHR ''h''"
  from router_local_file [of status_300 announcing_new_file_state status_120 "sample_bo ready_state" 512
      ?h "''/a''" "''/b''", OF _ _ _ _ sample_chars _ _ _ sample_local_file, of "(0, 0)" sample_env]
  obtain bo where r: "runRouter mem_api (0, 0) [(sample_env, inotify_message status_300 512 ?h ''/a'')] (sample_bo ready_state) =
      Inr (None, bo)" and st: "bo_state bo = announcing_new_file_state" and bx: "bo_boxes bo = [(?h, ''/b'')]" by auto
  have ev: "accepts (bo_state bo) status_300" "is_local_event (get_event_by_status_code status_300)"
    by (simp_all add: st fsm_step_eval is_local_event_def)
  have "fresh bo" using runRouter_fresh [OF _ r] by simp
  then have "\<not> list_ex (\<lambda>q. fst q = bo_next_ptr bo) (file_list event (bo\<lparr>bo_current_box := c, bo_next_ptr := n\<rparr>))" for event c n
    using fresh_not_found [of bo event] by simp
  with local_file_parse [of 512 ?h "''/a''" bo "''/b''" mem_api, OF _ _ sample_chars _ _ _ sample_local_file,
      of status_300 "get_event_by_status_code status_300" "[]"] st bx
  obtain s' b where "local_file mem_api status_300 (get_event_by_status_code status_300)
      (stream_at [] ('' '' @ dec_nat 512 @ ?h @ '' '' @ ''/a'')) bo =
        Inr (Proceed status_301 (get_event_by_status_code status_301) s' b)" "bo_state b = announcing_new_file_state"
    by (auto simp: Let_def)
  then have p: "processEvent mem_api sample_env status_300
      (stream_at [] ('' '' @ dec_nat 512 @ ?h @ '' '' @ ''/a'')) bo = Inr (0, b)"
    by (simp add: processEvent_local [OF ev] announcing_301)
  from announcing_drops_files [OF r [unfolded sample_bo_ready] st ev(2) p] r p show ?thesis by blast
qed

text \<open>C22. The sender waits for everyone: when a reply 121 comes in while a new file is announced
  (\<open>announcing_new_file_state\<close>), its node is marked, and only if now every subscriber has replied
  does the router go on. It then resets the replies, tells the
  dispatcher when to fire, takes the first file off the queue and sends its metadata with heartbeat
  130; otherwise nothing is sent.\<close>

theorem announce_barrier:
  assumes "bo_state bo = announcing_new_file_state" "updateTimestamp e s bo = Inr (s1, bo1)"
    "bo_current_node_hash bo1 = Some h" "processEvent api e status_121 s bo = Inr (v, bo')"
  defines "subs \<equiv> sub_update h (\<lambda>n. n\<lparr>n_replied := True\<rparr>) (bo_subscribers bo1)"
  shows "if all_replied subs then
       bo_state bo' = sending_new_file_metadata_state \<and> list_all (\<lambda>x. \<not> n_replied (s_node x)) (bo_subscribers bo') \<and>
       (\<exists>m. bo_disp bo' = bo_disp bo @ [fsm_message status_122 m]) \<and>
       (\<exists>ptr f image t. bo_file_list_data bo = (ptr, f) # bo_file_list_data bo' \<and> file_out f = Inr image \<and>
          bo_hb bo' = bo_hb bo @ [fsm_message status_130 (image @ t)])
     else bo_state bo' = announcing_new_file_state \<and> bo_subscribers bo' = subs \<and>
       bo_hb bo' = bo_hb bo \<and> bo_disp bo' = bo_disp bo"
proof -
  note acc = sub_access_again [of h]
  have k: "sub_access h (bo_subscribers bo1) = Inr (bo_subscribers bo1, False)"
    using updateTimestamp_access [OF assms(2)] assms(3) by auto
  note nr = note_reply_known [OF assms(3) k, folded subs_def]
  have st: "bo_state bo1 = announcing_new_file_state" "bo_hb bo1 = bo_hb bo" "bo_disp bo1 = bo_disp bo"
    "bo_file_list_data bo1 = bo_file_list_data bo"
    using updateTimestamp_state [OF assms(2)] updateTimestamp_disp [OF assms(2)] helpers_queues(2) [OF assms(2)] assms(1)
    by (simp_all add: queues_def)
  show ?thesis
  proof (cases "all_replied subs")
    case False
    have "received_heartbeat api e status_121 received_heartbeat_event s bo =
        Inr (Proceed status_121 received_heartbeat_event s1 (bo1\<lparr>bo_subscribers := subs\<rparr>))"
      using False by (simp add: received_heartbeat_def assms(2) received_reply_def nr)
    with assms(4) False show ?thesis
      by (auto simp: processEvent_def assms(1) announcing_rows block_def dispatch_due_def is_local_event_def
          fsm_continue_def st)
  next
    case True
    let ?b = "bo1\<lparr>bo_subscribers := reset_replied subs, bo_file_metadata_written := False\<rparr>"
    from assms(4) obtain s2 b2 where n: "notify_dispatcher e status_122 s1 ?b = Inr (s2, b2)"
      and c: "fsm_continue e status_122 all_nodes_replied_event b2 = Inr (v, bo')"
      using announcing_complete [OF assms(1-3)] True unfolding subs_def by (auto simp: bindE_eq_Inr)
    have b2: "bo_state b2 = announcing_new_file_state" "bo_hb b2 = bo_hb bo" "bo_file_list_data b2 = bo_file_list_data bo"
      using notify_dispatcher_state [OF n] notify_dispatcher_queues [OF n] by (simp_all add: st queues_def)
    have "list_all (\<lambda>x. \<not> n_replied (s_node x)) (bo_subscribers ?b)" by (simp add: list_all_reset)
    note eff = notify_dispatcher_effect [OF n this]
    from metadata_sent [OF c b2(1)] eff b2 st True show ?thesis by auto
  qed
qed

definition sample_sub :: subscription where
  "sample_sub = \<lparr>s_key = Hash_bytes (replicate 64 CHR ''n''), s_freed = False, s_node = node_default\<rparr>"

definition sample_hb :: "string \<Rightarrow> istream" where
  "sample_hb p = stream_at p (replicate 64 CHR ''n'' @ CHR '' '' # replicate 8 NUL @ [])"

text \<open>A sender with one subscriber, the current box and one file in each queue.\<close>

definition sample_sender :: "state_t \<Rightarrow> (string \<Rightarrow> string option) boxoffice" where
  "sample_sender st = (sample_bo st)\<lparr>bo_subscribers := [sample_sub], bo_current_box := Some (replicate 64 CHR ''h''),
     bo_file_list_data := [(0, sample_file)], bo_file_list_metadata := [(1, sample_file)]\<rparr>"

lemma sample_access: "sub_access (Hash_bytes (replicate 64 CHR ''n'')) [sample_sub] = Inr ([sample_sub], False)"
  by (simp add: sub_access_def sample_sub_def)

lemma sample_sender_timestamp:
  "\<exists>g. (\<forall>n. n_replied (g n) = n_replied n) \<and> updateTimestamp sample_env (sample_hb p) (sample_sender st) =
     Inr (stream_at (p @ replicate 64 CHR ''n'' @ CHR '' '' # replicate 8 NUL) [],
       (sample_sender st)\<lparr>bo_current_node_hash := Some (Hash_bytes (replicate 64 CHR ''n'')), bo_node_hash_is_key := False,
         bo_subscribers := sub_update (Hash_bytes (replicate 64 CHR ''n'')) g [sample_sub]\<rparr>)"
  unfolding sample_hb_def
  by (rule updateTimestamp_parse) (simp_all add: sample_sender_def sample_bo_def Boxoffice_init_def sample_access)

lemma sample_all_replied:
  "all_replied (sub_update (Hash_bytes (replicate 64 CHR ''n'')) (\<lambda>n. n\<lparr>n_replied := True\<rparr>)
     (sub_update (Hash_bytes (replicate 64 CHR ''n'')) g [sample_sub]))"
  by (simp add: all_replied_def sub_update_def sample_sub_def)

lemma sample_notify:
  fixes b :: "(string \<Rightarrow> string option) boxoffice"
  assumes "seekg_beg 5 s = stream_at p (replicate 64 CHR ''n'' @ CHR '' '' # replicate 8 NUL)"
    and "sub_access (Hash_bytes (replicate 64 CHR ''n'')) (bo_subscribers b) = Inr (bo_subscribers b, False)"
    and "bo_current_box b = Some (replicate 64 CHR ''h'')" "bo_boxes b = [(replicate 64 CHR ''h'', ''/b'')]"
    and "bo_file_list_data b = [(0, sample_file)]" "bo_state b = announcing_new_file_state"
  shows "\<exists>s2 b2 bo'. notify_dispatcher sample_env status_122 s b = Inr (s2, b2) \<and>
    fsm_continue sample_env status_122 all_nodes_replied_event b2 = Inr (0, bo')"
proof -
  have rd: "read_exact F_GENERIC_HASH_LEN (stream_at p (replicate 64 CHR ''n'' @ CHR '' '' # replicate 8 NUL)) =
      Inr (replicate 64 CHR ''n'', stream_at (p @ replicate 64 CHR ''n'') (CHR '' '' # replicate 8 NUL))"
    by (intro read_exact_stream_at) (simp add: hash_len)
  obtain out where out: "file_out sample_file = Inr out"
    using file_out_regular [of sample_file sample_hash_obj] sample_props(1) by (simp add: sample_file_def File_default_def)
  have "\<exists>s2 b2. notify_dispatcher sample_env status_122 s b = Inr (s2, b2)"
    using assms by (simp add: notify_dispatcher_def rd [simplified] Let_def out box_base_dir_def Hash_bytes_ok)
  then obtain s2 b2 where n: "notify_dispatcher sample_env status_122 s b = Inr (s2, b2)" by blast
  have "bo_state b2 = announcing_new_file_state" "bo_file_list_data b2 = [(0, sample_file)]"
    using notify_dispatcher_state [OF n] notify_dispatcher_queues [OF n] assms(5,6) by (simp_all add: queues_def)
  then have "\<exists>bo'. fsm_continue sample_env status_122 all_nodes_replied_event b2 = Inr (0, bo')"
    by (simp add: fsm_continue_def announcing_rows performAction_def updateHeartbeat_def prepareHeartbeatMessage_def
        set_current_file_def out)
  with n show ?thesis by blast
qed

theorem announce_barrier_witness:
  "\<exists>v bo'. processEvent mem_api sample_env status_121 (sample_hb ''2 121'') (sample_sender announcing_new_file_state) = Inr (v, bo') \<and>
     bo_state bo' = sending_new_file_metadata_state"
proof -
  let ?bo = "sample_sender announcing_new_file_state" and ?h = "Hash_bytes (replicate 64 CHR ''n'')"
  let ?u = "replicate 64 CHR ''n'' @ CHR '' '' # replicate 8 NUL"
  obtain g bo1 where t: "updateTimestamp sample_env (sample_hb ''2 121'') ?bo = Inr (stream_at (''2 121'' @ ?u) [], bo1)"
    and bo1: "bo1 = ?bo\<lparr>bo_current_node_hash := Some ?h, bo_node_hash_is_key := False,
      bo_subscribers := sub_update ?h g [sample_sub]\<rparr>" using sample_sender_timestamp [of "''2 121''"] by blast
  have c: "bo_current_node_hash bo1 = Some ?h" by (simp add: bo1)
  have all: "all_replied (sub_update ?h (\<lambda>n. n\<lparr>n_replied := True\<rparr>) (bo_subscribers bo1))"
    using sample_all_replied [of g] by (simp add: bo1)
  have k: "sub_access ?h (bo_subscribers bo1) = Inr (bo_subscribers bo1, False)"
    using updateTimestamp_access [OF t] c by auto
  have seek: "seekg_beg 5 (stream_at (''2 121'' @ ?u) []) = stream_at ''2 121'' ?u"
    using seekg_beg_stream_at [of "''2 121''" 5 ?u "[]"] by simp
  let ?subs = "sub_update ?h (\<lambda>n. n\<lparr>n_replied := True\<rparr>) (bo_subscribers bo1)"
  let ?b = "bo1\<lparr>bo_subscribers := reset_replied ?subs, bo_file_metadata_written := False\<rparr>"
  have "sub_access ?h (reset_replied ?subs) = Inr (reset_replied ?subs, False)"
    using sub_access_update [OF k, of ?h] by (intro sub_access_reset)
  with sample_notify [OF seek, of ?b] obtain s2 b2 bo' where
    "notify_dispatcher sample_env status_122 (stream_at (''2 121'' @ ?u) []) ?b = Inr (s2, b2)"
    "fsm_continue sample_env status_122 all_nodes_replied_event b2 = Inr (0, bo')"
    by (auto simp: bo1 sample_sender_def)
  then have p: "processEvent mem_api sample_env status_121 (sample_hb ''2 121'') ?bo = Inr (0, bo')"
    using announcing_complete [OF _ t c all, of mem_api] by (auto simp: sample_sender_def)
  from announce_barrier [OF _ t c p] all p show ?thesis by (auto simp: sample_sender_def)
qed

text \<open>C26. The barrier has one other door: the router leaves the announcement for the metadata on a
  message with status 121 or with status 122, and the second, which stands for the internal event that
  all have replied, is accepted from the network as well. It sends the metadata at once, whatever the
  subscribers have replied: no reply is looked at or reset.\<close>

theorem announce_barrier_bypassed:
  assumes "bo_state bo = announcing_new_file_state" "processEvent api e status s bo = Inr (v, bo')"
  shows "(bo_state bo' = sending_new_file_metadata_state \<longrightarrow> status \<in> {status_121, status_122}) \<and>
    (status = status_122 \<longrightarrow> v = 0 \<and> bo_state bo' = sending_new_file_metadata_state \<and>
       take (length (bo_subscribers bo)) (bo_subscribers bo') = bo_subscribers bo \<and>
       (\<exists>ptr f image t. bo_file_list_data bo = (ptr, f) # bo_file_list_data bo' \<and> file_out f = Inr image \<and>
          bo_hb bo' = bo_hb bo @ [fsm_message status_130 (image @ t)]))"
proof (intro conjI impI)
  assume sent: "bo_state bo' = sending_new_file_metadata_state"
  have "accepts (bo_state bo) status"
    using sent assms processEvent_rejected [of bo status api e s] by (cases "accepts (bo_state bo) status") auto
  from processEvent_handled [OF assms(2) this] sent assms(1) obtain r where
    r: "handled_as announcing_new_file_state status r" "fsm_step announcing_new_file_state r = sending_new_file_metadata_state"
    by auto
  have "r = status_122"
    using r(2) by (auto simp: fsm_step_def fsm_simps fsm_rows get_new_state_announcing_new_file_def split: if_splits)
  then show "status \<in> {status_121, status_122}" using r(1) by (auto simp: handled_as_def split: if_splits)
next
  assume "status = status_122"
  then obtain s2 b2 where n: "notify_dispatcher e status_122 s bo = Inr (s2, b2)"
    and c: "fsm_continue e status_122 all_nodes_replied_event b2 = Inr (v, bo')"
    using assms by (auto simp: processEvent_122 bindE_eq_Inr)
  have b2: "bo_state b2 = announcing_new_file_state" "bo_hb b2 = bo_hb bo" "bo_file_list_data b2 = bo_file_list_data bo"
    using notify_dispatcher_state [OF n] notify_dispatcher_queues [OF n] assms(1) by (simp_all add: queues_def)
  note m = metadata_sent [OF c b2(1)]
  show "v = 0" "bo_state bo' = sending_new_file_metadata_state"
    "take (length (bo_subscribers bo)) (bo_subscribers bo') = bo_subscribers bo"
    "\<exists>ptr f image t. bo_file_list_data bo = (ptr, f) # bo_file_list_data bo' \<and> file_out f = Inr image \<and>
       bo_hb bo' = bo_hb bo @ [fsm_message status_130 (image @ t)]"
    using m b2 notify_dispatcher_subscribers [OF n] by auto
qed

theorem announce_barrier_bypassed_witness:
  "\<exists>bo'. processEvent mem_api sample_env status_122 (sample_hb ''2 122'') (sample_sender announcing_new_file_state) = Inr (0, bo') \<and>
     bo_state bo' = sending_new_file_metadata_state \<and> \<not> all_replied (bo_subscribers bo')"
proof -
  let ?bo = "sample_sender announcing_new_file_state" and ?u = "replicate 64 CHR ''n'' @ CHR '' '' # replicate 8 NUL"
  have seek: "seekg_beg 5 (sample_hb ''2 122'') = stream_at ''2 122'' ?u"
    unfolding sample_hb_def using seekg_beg_stream_at [of "''2 122''" 5 "[]" ?u] by simp
  have st: "bo_state ?bo = announcing_new_file_state" by (simp add: sample_sender_def)
  obtain s2 b2 bo' where
    "notify_dispatcher sample_env status_122 (sample_hb ''2 122'') ?bo = Inr (s2, b2)"
    "fsm_continue sample_env status_122 all_nodes_replied_event b2 = Inr (0, bo')"
    using sample_notify [OF seek, of ?bo] by (auto simp: sample_sender_def sample_access)
  then have p: "processEvent mem_api sample_env status_122 (sample_hb ''2 122'') ?bo = Inr (0, bo')"
    by (simp add: processEvent_122 [OF st])
  from announce_barrier_bypassed [OF st p] have
    "bo_state bo' = sending_new_file_metadata_state" "take 1 (bo_subscribers bo') = [sample_sub]"
    by (simp_all add: sample_sender_def)
  then show ?thesis using p by (cases "bo_subscribers bo'") (auto simp: all_replied_def sample_sub_def node_default_def)
qed

text \<open>C23. File data never reaches a file with a path of at most 89 bytes. The image of the current
  file is cut behind 32 of the 64 bytes of the box hash, so the path read back from it is the rest
  of the hash followed by the path, the metadata is read from the padding, and unless a file of that
  mangled name happens to exist the packet ends in a file system error.\<close>

theorem received_data_fails:
  assumes "set_current_file f bo0 = Inr bo" "f_box_hash f = Some h" "filled h" "\<not> f_deleted f"
    and "f_path f = q @ replicate (128 - length q) NUL" "length q \<le> 89"
    and "bo_current_box bo = Some (digest h)" "map_of (bo_boxes bo) (digest h) = Some dir" "dir \<noteq> []"
    and "constructPath dir (drop 32 (digest h) @ take 96 (f_path f)) = Inr bp" "\<not> exists_ec api (bo_fs bo) bp"
    and "accepts (bo_state bo) status_200"
  shows "processEvent api e status_200 s bo = Inl Filesystem_error"
proof -
  obtain m where cf: "bo_current_file bo = stream_at [] (drop 32 (digest h) @ f_path f @ m)"
    using set_current_file_image [OF assms(1-4)] by blast
  obtain r where r: "f_path f = take 96 (f_path f) @ replicate 7 NUL @ r" using split_padding [OF assms(5,6)] by blast
  let ?p = "drop 32 (digest h) @ take 96 (f_path f)" and ?g = "File_default dir (Some (Hash_bytes (digest h)))"
  have l: "length (digest h) = 64" using assms(3) by (simp add: filled_cases)
  have lp: "length ?p = F_MAXIMUM_PATH_LENGTH" using l assms(5,6) by (simp add: path_len)
  have cf': "bo_current_file bo = stream_at [] (?p @ replicate 7 NUL @ r @ m)" unfolding cf by (subst r) simp
  have "file_in api (bo_fs bo) (bo_current_file bo) ?g = Inl Filesystem_error"
    unfolding cf' using assms(9-11) lp by (intro file_in_zeros [where bp = bp]) (simp_all add: File_default_def)
  then have "received_data api status_200 received_file_data_event s bo = Inl Filesystem_error"
    using assms(7,8) l by (simp add: received_data_def box_base_dir_def Hash_bytes_ok)
  moreover have "get_event_by_status_code status_200 = received_file_data_event" by (simp add: get_event_by_status_code_def)
  ultimately show ?thesis
    using assms(12) by (simp add: processEvent_def accepts_def block_def dispatch_due_def is_local_event_def)
qed

theorem received_data_fails_witness:
  "\<exists>bo. set_current_file sample_file ((sample_bo sending_fake_file_state)\<lparr>bo_current_box := Some (replicate 64 CHR ''h'')\<rparr>) = Inr bo \<and>
     processEvent mem_api sample_env status_200 (stream_of []) bo = Inl Filesystem_error"
proof -
  let ?b = "(sample_bo sending_fake_file_state)\<lparr>bo_current_box := Some (replicate 64 CHR ''h'')\<rparr>"
  let ?p = "drop 32 (digest sample_hash_obj) @ take 96 (f_path sample_file)"
  have f: "f_box_hash sample_file = Some sample_hash_obj" "\<not> f_deleted sample_file" "f_path sample_file = sample_path"
    "f_path sample_file = ''a'' @ replicate (128 - length ''a'') NUL"
    by (simp_all add: sample_file_def File_default_def sample_path_def)
  have d: "digest sample_hash_obj = replicate 64 CHR ''h''" by (simp add: sample_hash_obj_def Hash_bytes_ok)
  obtain bo where bo: "set_current_file sample_file ?b = Inr bo"
    using file_out_regular [OF f(1) sample_props(1) f(2)] by (simp add: set_current_file_def sample_file_def File_default_def)
  then have b: "bo_current_box bo = Some (digest sample_hash_obj)" "map_of (bo_boxes bo) (digest sample_hash_obj) = Some ''/b''"
    "bo_state bo = sending_fake_file_state" "bo_fs bo = (\<lambda>_. None)"
    by (auto simp: set_current_file_def bindE_eq_Inr d sample_bo_def Boxoffice_init_def)
  have cp: "constructPath ''/b'' ?p = Inr (''/b/'' @ ?p)" by (simp add: constructPath_def d)
  have ex: "\<not> exists_ec mem_api (bo_fs bo) (''/b/'' @ ?p)"
    by (simp add: exists_ec_def mem_api_def b(4) c_str_def NUL_def)
  have "accepts (bo_state bo) status_200" by (simp add: b(3) fsm_step_eval)
  from received_data_fails [OF bo f(1) sample_props(1) f(2,4) _ b(1,2) _ cp ex this] bo show ?thesis by auto
qed

text \<open>C24. A heartbeat of a node that is not among the subscribers is entered into their map under
  the very object that the next heartbeat deletes: the second heartbeat of that node reads freed
  memory.\<close>

theorem unknown_node_use_after_free:
  assumes "bo_state bo = ready_state" "length u = 64" "length ts = 8" "length ts' = 8" "\<not> bo_node_hash_is_key bo"
    "list_all (\<lambda>x. take 8 (digest (s_key x)) \<noteq> take 8 u) (bo_subscribers bo)"
  shows "\<exists>bo1. processEvent api e status_100 (stream_at p (u @ c # ts @ t)) bo = Inr (0, bo1) \<and>
     processEvent api e' status_100 (stream_at p' (u @ c' # ts' @ t')) bo1 = Inl Undefined_behaviour"
proof -
  have d: "digest (Hash_bytes u) = u" using assms(2) by (simp add: Hash_bytes_ok)
  have n: "\<not> list_ex (\<lambda>x. digest (s_key x) = digest (Hash_bytes u)) (bo_subscribers bo)"
    "\<not> list_ex (\<lambda>x. s_freed x \<and> take 8 (digest (s_key x)) = take 8 (digest (Hash_bytes u))) (bo_subscribers bo)"
    using assms(6) d by (auto simp: list_ex_iff list_all_iff)
  then have "sub_access (Hash_bytes u) (bo_subscribers bo) =
      Inr (bo_subscribers bo @ [\<lparr>s_key = Hash_bytes u, s_freed = False, s_node = node_default\<rparr>], True)"
    by (simp add: sub_access_def)
  from updateTimestamp_parse [OF assms(2,3,5) this, of e p c t] obtain g where
    u: "updateTimestamp e (stream_at p (u @ c # ts @ t)) bo = Inr (stream_at (p @ u @ c # ts) t,
       bo\<lparr>bo_current_node_hash := Some (Hash_bytes u), bo_node_hash_is_key := True,
          bo_subscribers := sub_update (Hash_bytes u) g
            (bo_subscribers bo @ [\<lparr>s_key = Hash_bytes u, s_freed = False, s_node = node_default\<rparr>])\<rparr>)"
    (is "_ = Inr (_, ?b)") by blast
  let ?b' = "?b\<lparr>bo_stop_sync_timeout_received := False\<rparr>"
  have "list_ex (\<lambda>x. digest (s_key x) = digest (Hash_bytes u)) (bo_subscribers ?b')"
    by (simp add: list_ex_sub_update)
  then have "updateTimestamp e' (stream_at p' (u @ c' # ts' @ t')) ?b' = Inl Undefined_behaviour"
    using d by (intro updateTimestamp_freed [where k = "Hash_bytes u"] assms(2,4)) simp_all
  moreover have "bo_state ?b' = ready_state" using assms(1) by simp
  ultimately show ?thesis
    using u by (intro exI [of _ ?b']) (simp add: processEvent_ready_100 assms(1))
qed

theorem unknown_node_use_after_free_witness:
  "\<exists>bo1. processEvent mem_api sample_env status_100 (stream_at ''2 100'' (replicate 64 CHR ''n'' @ CHR '' '' # replicate 8 NUL @ []))
       (sample_bo ready_state) = Inr (0, bo1) \<and>
     processEvent mem_api sample_env status_100 (stream_at ''2 100'' (replicate 64 CHR ''n'' @ CHR '' '' # replicate 8 NUL @ [])) bo1 =
       Inl Undefined_behaviour"
  using unknown_node_use_after_free [of "sample_bo ready_state" "replicate 64 CHR ''n''" "replicate 8 NUL" "replicate 8 NUL"
      mem_api sample_env "''2 100''" "CHR '' ''" "[]" sample_env "''2 100''" "CHR '' ''" "[]"]
  by (simp add: sample_bo_def Boxoffice_init_def)

text \<open>C25. With more metadata left to send, the last reply 141 ends the router: the status 174 it is
  turned into is not accepted while metadata is being sent, and the event returns 1.\<close>

theorem metadata_queue_ends_router:
  assumes "bo_state bo = sending_file_metadata_change_state \<or> bo_state bo = sending_file_metadata_change_with_more_state"
    and "bo_file_list_metadata bo \<noteq> []" "updateTimestamp e s bo = Inr (s1, bo1)" "bo_current_node_hash bo1 = Some h"
    and "all_replied (sub_update h (\<lambda>n. n\<lparr>n_replied := True\<rparr>) (bo_subscribers bo1))"
  shows "\<exists>bo'. processEvent api e status_141 s bo = Inr (1, bo') \<and> bo_state bo' = bo_state bo"
proof -
  let ?subs = "sub_update h (\<lambda>n. n\<lparr>n_replied := True\<rparr>) (bo_subscribers bo1)"
  have k: "sub_access h (bo_subscribers bo1) = Inr (bo_subscribers bo1, False)"
    using updateTimestamp_access [OF assms(3)] assms(4) by auto
  have nr: "note_reply bo1 = Inr (True, bo1\<lparr>bo_subscribers := reset_replied ?subs\<rparr>)"
    using note_reply_known [OF assms(4) k] assms(5) by simp
  have st: "bo_state bo1 = bo_state bo" "bo_file_list_metadata bo1 = bo_file_list_metadata bo"
    using updateTimestamp_state [OF assms(3)] helpers_queues(2) [OF assms(3)] by (simp_all add: queues_def)
  have "received_heartbeat api e status_141 received_heartbeat_event s bo =
      Inr (Return 1 (bo1\<lparr>bo_subscribers := reset_replied ?subs\<rparr>))"
    using assms(2) metadata_rows(3) [OF assms(1)]
    by (simp add: received_heartbeat_def assms(3) received_reply_def nr change_status_def status_when_all_replied_def st Let_def)
  then show ?thesis
    using metadata_rows(1,2) [OF assms(1)] st by (simp add: processEvent_def block_def)
qed

theorem metadata_queue_ends_router_witness:
  "\<exists>bo'. processEvent mem_api sample_env status_141 (sample_hb ''2 141'') (sample_sender sending_file_metadata_change_state) =
     Inr (1, bo')"
proof -
  let ?bo = "sample_sender sending_file_metadata_change_state"
  obtain g where t: "updateTimestamp sample_env (sample_hb ''2 141'') ?bo =
     Inr (stream_at (''2 141'' @ replicate 64 CHR ''n'' @ CHR '' '' # replicate 8 NUL) [],
       ?bo\<lparr>bo_current_node_hash := Some (Hash_bytes (replicate 64 CHR ''n'')), bo_node_hash_is_key := False,
         bo_subscribers := sub_update (Hash_bytes (replicate 64 CHR ''n'')) g [sample_sub]\<rparr>)"
    using sample_sender_timestamp by blast
  show ?thesis
    using metadata_queue_ends_router [OF _ _ t, of _ mem_api] sample_all_replied [of g] by (auto simp: sample_sender_def)
qed

text \<open>The file \<^verbatim>\<open>/b/a\<close> as a receiver knows it, three bytes long.\<close>

definition sample_received :: File where
  "sample_received = (File_default ''/b'' (Some (Hash_bytes (replicate 64 CHR ''h''))))
     \<lparr>f_path := f_path sample_file, f_bpath := ''/b/'' @ sample_path, f_mode := f_mode sample_file,
      f_type := f_type sample_file, f_mtime := f_mtime sample_file, f_size := f_size sample_file\<rparr>"

lemma sample_received_props:
  "usable sample_received" "f_size sample_received = 3" "c_str (f_bpath sample_received) = ''/b/a''"
  "store_law mem_api (\<lambda>fs. fs p \<noteq> None) p" "fs_content mem_api = (\<lambda>fs. fs)"
proof -
  show "usable sample_received" "f_size sample_received = 3"
    by (simp_all add: usable_def sample_received_def File_default_def fstream_closed_def sample_file_def)
  show "c_str (f_bpath sample_received) = ''/b/a''"
    unfolding sample_received_def by (simp add: sample_props [simplified])
  show "store_law mem_api (\<lambda>fs. fs p \<noteq> None) p" "fs_content mem_api = (\<lambda>fs. fs)" by (simp_all add: store_law_def mem_api_def)
qed

end
