(* ===== verification/Transport.thy ===== *)
theory Transport
  imports Boxoffice
begin

text \<open>
  The threads between the routers: the receive wrappers of \<^verbatim>\<open>src/constants.cpp\<close>, the signals of
  \<^verbatim>\<open>Transmitter\<close>, and the loops of \<^verbatim>\<open>Heartbeater\<close>, \<^verbatim>\<open>Publisher\<close>, \<^verbatim>\<open>Subscriber\<close>
  and \<^verbatim>\<open>Dispatcher\<close>, each as a step on what its sockets have ready. A \<^verbatim>\<open>zmqpp\<close> message is its
  first part with the others. A step returns the new state and the messages it sends, nothing
  when the loop is left on an interrupt, or the exception. The one-byte buffer
  \<^verbatim>\<open>new char(8)\<close> of the heartbeater is taken for the eight bytes that are written to it.
\<close>

section \<open>Receiving\<close>

type_synonym zmsg = "string \<times> string list"

definition all_parts :: "zmsg \<Rightarrow> string" where
  "all_parts m = fst m @ concat (snd m)"

definition when_ready :: "(zmsg \<Rightarrow> string) \<Rightarrow> zmsg option \<Rightarrow> string" where
  "when_ready f m = (case m of None \<Rightarrow> [] | Some z \<Rightarrow> f z)"

definition s_recv2 :: "zmsg option \<Rightarrow> zmsg option \<Rightarrow> string" where
  "s_recv2 socket broadcast =
    (case socket of Some z \<Rightarrow> all_parts z | None \<Rightarrow> when_ready fst broadcast)"

definition s_recv3 :: "zmsg option \<Rightarrow> zmsg option \<Rightarrow> zmsg option \<Rightarrow> string" where
  "s_recv3 socket broadcast heartbeat =
    when_ready all_parts socket @ when_ready fst broadcast @ when_ready fst heartbeat"

definition s_recv4 :: "zmsg option \<Rightarrow> zmsg option \<Rightarrow> zmsg option \<Rightarrow> zmsg option \<Rightarrow> string" where
  "s_recv4 socket broadcast heartbeat dispatch =
    when_ready all_parts socket @ when_ready fst broadcast @ when_ready fst heartbeat @ when_ready fst dispatch"

text \<open>Of the second socket the first part is taken as often as there are parts.\<close>

definition s_recv_noblock :: "zmsg option \<Rightarrow> zmsg option \<Rightarrow> zmsg option \<Rightarrow> int \<times> string" where
  "s_recv_noblock socket socket2 broadcast =
    (if socket = None \<and> socket2 = None \<and> broadcast = None then (0, [])
     else (1, when_ready all_parts socket @
              when_ready (\<lambda>z. concat (replicate (Suc (length (snd z))) (fst z))) socket2 @
              when_ready fst broadcast))"

text \<open>An inotify event is its mask, watch descriptor and name. The third branch receives from the
  broadcast once more: \<open>None\<close> when nothing comes and the call blocks.\<close>

type_synonym inotify_event = "nat \<times> int \<times> string"

fun inotify_text :: "inotify_event list \<Rightarrow> string" where
  "inotify_text [] = []"
| "inotify_text [(m, wd, name)] = dec_nat m @ '' '' @ dec wd @ '' '' @ name"
| "inotify_text ((m, wd, name) # es) = dec_nat m @ '' '' @ dec wd @ '' '' @ name @ [CHR 0x0A] @ inotify_text es"

definition s_recv_in :: "inotify_event list option \<Rightarrow> zmsg list \<Rightarrow> zmsg option \<Rightarrow> string option" where
  "s_recv_in events broadcast socket =
    (let t0 = (case events of None \<Rightarrow> [] | Some es \<Rightarrow> dec F_SIGTYPE_INOTIFY @ '' '' @ inotify_text es);
         (t1, bs) = (case broadcast of [] \<Rightarrow> ([], []) | b # bs \<Rightarrow> (fst b, bs))
     in if socket = None then Some (t0 @ t1)
        else (case bs of [] \<Rightarrow> None | b # _ \<Rightarrow> Some (t0 @ t1 @ fst b)))"

section \<open>Transmitter\<close>

definition alive_signal :: string where
  "alive_signal = signal F_SIGTYPE_LIFE F_SIGLIFE_ALIVE"

definition exit_signal :: string where
  "exit_signal = signal F_SIGTYPE_LIFE F_SIGLIFE_EXIT"

text \<open>The main thread broadcasts the interrupt.\<close>

definition interrupt_signal :: zmsg where
  "interrupt_signal = (signal F_SIGTYPE_LIFE F_SIGLIFE_INTERRUPT, [])"

definition is_interrupt :: "int \<times> int \<Rightarrow> bool" where
  "is_interrupt v \<longleftrightarrow> v = (F_SIGTYPE_LIFE, F_SIGLIFE_INTERRUPT)"

section \<open>Heartbeater\<close>

record heartbeater =
  hb_status :: status_t
  hb_message :: string
  hb_vars :: "int \<times> int"

definition Heartbeater_init :: "status_t \<Rightarrow> int \<times> int \<Rightarrow> heartbeater" where
  "Heartbeater_init status vars = \<lparr>hb_status = status, hb_message = [], hb_vars = vars\<rparr>"

definition hb_receive :: "string \<Rightarrow> heartbeater \<Rightarrow> heartbeater option" where
  "hb_receive msg h =
    (case read_signal (hb_vars h) msg of
       (v, s) \<Rightarrow>
         if is_interrupt v then None
         else if fst v = F_SIGTYPE_FSM
           then Some (h\<lparr>hb_vars := v, hb_status := status_of_int (snd v),
                        hb_message := fst (getline (CHR 0x0A) (hb_message h) s)\<rparr>)
         else Some (h\<lparr>hb_vars := v\<rparr>))"

definition hb_text :: "u64 \<Rightarrow> heartbeater \<Rightarrow> string" where
  "hb_text now h =
    signal F_SIGTYPE_PUB (status_code (hb_status h)) @ '' '' @ htobe64 now @ hb_message h"

definition heartbeater_step :: "heartbeater \<Rightarrow> (zmsg option \<times> zmsg option \<times> zmsg option) \<times> u64 \<Rightarrow>
    (heartbeater \<times> string list) option result" where
  "heartbeater_step h i =
    (case i of ((socket, hb_push, broadcast), now) \<Rightarrow>
     let (z_return, msg) = s_recv_noblock socket hb_push broadcast in
     case (if z_return \<noteq> 0 then hb_receive msg h else Some h) of
       None \<Rightarrow> Inr None
     | Some h' \<Rightarrow> Inr (Some (h', [hb_text now h'])))"

section \<open>Publisher\<close>

definition F_MINIMUM_HB_WIDTH :: int where "F_MINIMUM_HB_WIDTH = 256"

definition pad_to :: "int \<Rightarrow> string \<Rightarrow> string" where
  "pad_to width m = (if width - int (length m) > 0 then m @ blanks (width - int (length m)) else m)"

text \<open>\<^verbatim>\<open>substr(n)\<close> throws when the text is shorter.\<close>

definition substrE :: "nat \<Rightarrow> string \<Rightarrow> string result" where
  "substrE n s = (if n \<le> length s then Inr (drop n s) else Inl Out_of_range)"

definition publisher_step :: "int \<times> int \<Rightarrow> zmsg option \<times> zmsg option \<times> zmsg option \<times> zmsg option \<Rightarrow>
    ((int \<times> int) \<times> string list) option result" where
  "publisher_step vars i =
    (case i of (socket, broadcast, heartbeat, dispatch) \<Rightarrow>
     let msg = s_recv4 socket broadcast heartbeat dispatch; v = fst (read_signal vars msg) in
     if is_interrupt v then Inr None
     else bindE (substrE 5 msg) (\<lambda>infomessage.
       Inr (Some (v, [pad_to F_MINIMUM_HB_WIDTH (dec (snd v) @ infomessage)]))))"

section \<open>Subscriber\<close>

definition subscriber_step :: "string \<Rightarrow> int \<times> int \<Rightarrow> zmsg option \<times> zmsg option \<times> zmsg option \<Rightarrow>
    ((int \<times> int) \<times> string list) option result" where
  "subscriber_step uid vars i =
    (case i of (socket, broadcast, subscriber) \<Rightarrow>
     let msg = s_recv3 socket broadcast subscriber;
         (msg_type, s) = extract_int (fst vars) (stream_of msg);
         msg_signal = (if msg_type = F_SIGTYPE_LIFE then fst (extract_int (snd vars) s) else msg_type)
     in if msg_type = F_SIGTYPE_LIFE \<and> msg_signal = F_SIGLIFE_INTERRUPT then Inr None
        else bindE (substrE 3 msg) (\<lambda>infomessage.
          Inr (Some ((msg_type, msg_signal), [signal F_SIGTYPE_SUB msg_signal @ uid @ infomessage]))))"

section \<open>Dispatcher\<close>

datatype disp_out = To_boxoffice string | To_publisher string

text \<open>The two loops of the dispatcher: waiting for an order, and sending fake data until the
  stop (\<open>synchronizingStop\<close>).\<close>

datatype disp_mode = Waiting | Stopping

record dispatcher =
  d_status :: status_t
  d_timing_offset :: u64
  d_waiting_for_stop :: bool
  d_mode :: disp_mode
  d_vars :: "int \<times> int"

definition Dispatcher_init :: "status_t \<Rightarrow> int \<times> int \<Rightarrow> dispatcher" where
  "Dispatcher_init status vars =
    \<lparr>d_status = status, d_timing_offset = -1, d_waiting_for_stop = False, d_mode = Waiting, d_vars = vars\<rparr>"

definition sendFakeData :: "dispatcher \<Rightarrow> string" where
  "sendFakeData d =
    (let m = signal F_SIGTYPE_PUB (status_code (d_status d)) in
     m @ blanks (4096 + 22 - int (length m)))"

text \<open>The loop over the packages. \<^verbatim>\<open>write(contents, data_size)\<close> with more bytes than were read into
  the fresh buffer has no meaning; \<open>None\<close> when the loop takes more than \<open>fuel\<close> rounds.\<close>

fun dispatch_loop :: "'fs fs_api \<Rightarrow> 'fs \<Rightarrow> nat \<Rightarrow> string \<Rightarrow> File \<Rightarrow> u64 \<Rightarrow> u64 \<Rightarrow> bool \<Rightarrow> string list result option" where
  "dispatch_loop api fs 0 message f data_size offset more0 = None"
| "dispatch_loop api fs (Suc fuel) message f data_size offset more0 =
     (if \<not> more0 then Some (Inr [])
      else
        case readFileData api fs f F_MAXIMUM_FILE_PACKAGE_SIZE offset more0 of (contents, n, more1, f') \<Rightarrow>
        let data_size' = data_size + n in
        if unat data_size' > length contents then Some (Inl Undefined_behaviour)
        else
          let packet = pad_to (4096 + 22) (message @ htobe64 offset @ htobe64 data_size' @
                byte_of (if more1 then 1 else 0) @ take (unat data_size') contents)
          in map_option (\<lambda>r. bindE r (\<lambda>ps. Inr (packet # ps)))
               (dispatch_loop api fs fuel [] f' data_size' (offset + F_MAXIMUM_FILE_PACKAGE_SIZE) more1))"

text \<open>The order to send a file: when to fire, the box, its directory and the file.\<close>

definition dispatch_file :: "'fs fs_api \<Rightarrow> 'fs \<Rightarrow> nat \<Rightarrow> istream \<Rightarrow> string list result option" where
  "dispatch_file api fs fuel s =
    (case bindE (read_exact F_GENERIC_HASH_LEN s) (\<lambda>(box_hash, s).
       let (box_dir, s) = extract_word [] s in
       file_in api fs (seekg_cur 1 s) (File_default box_dir (Some (Hash_bytes box_hash)))) of
       Inl err \<Rightarrow> Some (Inl err)
     | Inr (s, f, fs) \<Rightarrow>
         dispatch_loop api fs fuel (signal F_SIGTYPE_PUB (status_code status_200)) f 0 0 True)"

definition tick :: "status_t \<Rightarrow> disp_out" where
  "tick status = To_boxoffice (signal F_SIGTYPE_FSM (status_code status))"

text \<open>One round of the outer loop; the clock is read when the deadline is computed.\<close>

definition dispatcher_order :: "'fs fs_api \<Rightarrow> 'fs \<Rightarrow> nat \<Rightarrow> dispatcher \<Rightarrow> string \<Rightarrow> u64 \<Rightarrow>
    (dispatcher \<times> disp_out list) option result option" where
  "dispatcher_order api fs fuel d msg now =
    (case read_signal (d_vars d) msg of
       (v, s) \<Rightarrow>
         if is_interrupt v then Some (Inr None)
         else
           let d = (if fst v = F_SIGTYPE_FSM then d\<lparr>d_vars := v, d_status := status_of_int (snd v)\<rparr> else d\<lparr>d_vars := v\<rparr>) in
           if d_status d \<in> {status_122, status_177} then
             (case read_exact 8 (seekg_cur 1 s) of
                Inl err \<Rightarrow> Some (Inl err)
              | Inr (timing_offset, s) \<Rightarrow>
                  map_option (\<lambda>r. bindE r (\<lambda>packets.
                    Inr (Some (d\<lparr>d_timing_offset := be64toh timing_offset - now, d_status := status_210, d_mode := Stopping\<rparr>,
                               tick status_132 # map To_publisher packets))))
                    (dispatch_file api fs fuel s))
           else if d_status d = status_130 then
             (case read_exact 8 (seekg_cur 1 s) of
                Inl err \<Rightarrow> Some (Inl err)
              | Inr (timing_offset, s) \<Rightarrow>
                  Some (Inr (Some (d\<lparr>d_timing_offset := be64toh timing_offset - now, d_status := status_210, d_mode := Stopping\<rparr>,
                    [tick status_132]))))
           else Some (Inr (Some (d, []))))"

text \<open>One round of \<open>synchronizingStop\<close>; with the tick 156 the outer loop goes on. \<open>junk\<close> is what the
  two uninitialised variables of the round hold.\<close>

definition synchronizingStop_round :: "dispatcher \<Rightarrow> int \<Rightarrow> string \<Rightarrow> u64 \<Rightarrow> int \<times> int \<Rightarrow>
    (dispatcher \<times> disp_out list) option result" where
  "synchronizingStop_round d z_return msg now junk =
    (if z_return \<noteq> 0 then
       (case read_signal junk msg of
          (v, s) \<Rightarrow>
            if is_interrupt v then Inr None
            else if v = (F_SIGTYPE_FSM, status_code status_155) then
              bindE (read_exact 8 (seekg_cur 1 s)) (\<lambda>(timing_offset, s).
                let d = d\<lparr>d_timing_offset := be64toh timing_offset, d_waiting_for_stop := True\<rparr> in
                Inr (Some (d, [To_publisher (sendFakeData d)])))
            else Inr (Some (d, [To_publisher (sendFakeData d)])))
     else if d_waiting_for_stop d \<and> now - d_timing_offset d \<le> 1000000 then
       Inr (Some (d\<lparr>d_mode := Waiting\<rparr>, [tick status_156]))
     else Inr (Some (d, [To_publisher (sendFakeData d)])))"

definition dispatcher_step :: "'fs fs_api \<Rightarrow> 'fs \<Rightarrow> nat \<Rightarrow> dispatcher \<Rightarrow> 
    (zmsg option \<times> zmsg option \<times> zmsg option) \<times> u64 \<times> int \<times> int \<Rightarrow> (dispatcher \<times> disp_out list) option result option" where
  "dispatcher_step api fs fuel d i =
    (case i of ((socket, disp_push, broadcast), now, junk) \<Rightarrow>
     case d_mode d of
       Waiting \<Rightarrow> dispatcher_order api fs fuel d (s_recv3 socket disp_push broadcast) now
     | Stopping \<Rightarrow>
         let (z_return, msg) = s_recv_noblock socket disp_push broadcast in
         Some (synchronizingStop_round d z_return msg now junk))"

section \<open>The loops\<close>

text \<open>\<^verbatim>\<open>while(true)\<close> of the four \<^verbatim>\<open>run\<close> methods over the inputs at hand: the messages sent, the state,
  and whether the loop has been left.\<close>

fun run_loop :: "('s \<Rightarrow> 'i \<Rightarrow> ('s \<times> 'o list) option result option) \<Rightarrow> 's \<Rightarrow> 'i list \<Rightarrow> ('o list \<times> 's \<times> bool) result option" where
  "run_loop step s [] = Some (Inr ([], s, False))"
| "run_loop step s (i # is) =
     (case step s i of
        None \<Rightarrow> None
      | Some (Inl err) \<Rightarrow> Some (Inl err)
      | Some (Inr None) \<Rightarrow> Some (Inr ([], s, True))
      | Some (Inr (Some (s', os))) \<Rightarrow>
          map_option (\<lambda>r. bindE r (\<lambda>(os', t, left). Inr (os @ os', t, left))) (run_loop step s' is))"

definition heartbeater_run :: "heartbeater \<Rightarrow> ((zmsg option \<times> zmsg option \<times> zmsg option) \<times> u64) list \<Rightarrow>
    (string list \<times> heartbeater \<times> bool) result option" where
  "heartbeater_run = run_loop (\<lambda>h i. Some (heartbeater_step h i))"

definition publisher_run :: "int \<times> int \<Rightarrow> (zmsg option \<times> zmsg option \<times> zmsg option \<times> zmsg option) list \<Rightarrow>
    (string list \<times> (int \<times> int) \<times> bool) result option" where
  "publisher_run = run_loop (\<lambda>v i. Some (publisher_step v i))"

definition subscriber_run :: "string \<Rightarrow> int \<times> int \<Rightarrow> (zmsg option \<times> zmsg option \<times> zmsg option) list \<Rightarrow>
    (string list \<times> (int \<times> int) \<times> bool) result option" where
  "subscriber_run uid = run_loop (\<lambda>v i. Some (subscriber_step uid v i))"

definition dispatcher_run :: "'fs fs_api \<Rightarrow> 'fs \<Rightarrow> nat \<Rightarrow> dispatcher \<Rightarrow>
    ((zmsg option \<times> zmsg option \<times> zmsg option) \<times> u64 \<times> int \<times> int) list \<Rightarrow> (disp_out list \<times> dispatcher \<times> bool) result option" where
  "dispatcher_run api fs fuel = run_loop (dispatcher_step api fs fuel)"

section \<open>The threads\<close>

text \<open>What a thread sends to the router: that it is alive, what its loop sends there, and its exit when the
  loop has been left.\<close>

definition thread :: "('o \<Rightarrow> string list) \<Rightarrow> ('o list \<times> 's \<times> bool) result option \<Rightarrow> string list result option" where
  "thread to_router r =
    map_option (\<lambda>r. bindE r (\<lambda>(os, s, left).
      Inr (alive_signal # concat (map to_router os) @ (if left then [exit_signal] else [])))) r"

fun to_boxoffice :: "disp_out \<Rightarrow> string list" where
  "to_boxoffice (To_boxoffice m) = [m]"
| "to_boxoffice (To_publisher m) = []"

definition publisher_thread :: "int \<times> int \<Rightarrow> (zmsg option \<times> zmsg option \<times> zmsg option \<times> zmsg option) list \<Rightarrow>
    string list result option" where
  "publisher_thread v is = thread (\<lambda>_. []) (publisher_run v is)"

definition heartbeater_thread :: "status_t \<Rightarrow> int \<times> int \<Rightarrow> ((zmsg option \<times> zmsg option \<times> zmsg option) \<times> u64) list \<Rightarrow>
    string list result option" where
  "heartbeater_thread status v is = thread (\<lambda>_. []) (heartbeater_run (Heartbeater_init status v) is)"

definition dispatcher_thread :: "'fs fs_api \<Rightarrow> 'fs \<Rightarrow> nat \<Rightarrow> status_t \<Rightarrow> int \<times> int \<Rightarrow>
    ((zmsg option \<times> zmsg option \<times> zmsg option) \<times> u64 \<times> int \<times> int) list \<Rightarrow> string list result option" where
  "dispatcher_thread api fs fuel status v is = thread to_boxoffice (dispatcher_run api fs fuel (Dispatcher_init status v) is)"

definition subscriber_thread :: "string \<Rightarrow> int \<times> int \<Rightarrow> (zmsg option \<times> zmsg option \<times> zmsg option) list \<Rightarrow>
    string list result option" where
  "subscriber_thread uid v is = thread (\<lambda>m. [m]) (subscriber_run uid v is)"

end
