(* ===== verification/Transport_Laws.thy ===== *)
theory Transport_Laws
  imports Transport Boxoffice_Protocol
begin

text \<open>
  What the threads between the routers promise. A loop that ends on an interrupt is the interface
  \<open>worker\<close>, interpreted for the four \<^verbatim>\<open>run\<close> methods. The heartbeat of a node reaches the router of
  another node through heartbeater, publisher and subscriber; the order with which a router tells its
  dispatcher to send a file cannot be read by the dispatcher; packets have one length, and a
  transmission stops as the code stops it.
\<close>

section \<open>Loops that end on an interrupt\<close>

locale worker =
  fixes step :: "'s \<Rightarrow> 'i \<Rightarrow> ('s \<times> 'o list) option result option"
    and interrupt :: "'i \<Rightarrow> bool"
  assumes interrupted: "interrupt i \<Longrightarrow> step s i = Some (Inr None)"
begin

lemma run_append:
  "run_loop step s is = Some (Inr (os, t, False)) \<Longrightarrow>
     run_loop step s (is @ js) = map_option (\<lambda>r. bindE r (\<lambda>(os', t, left). Inr (os @ os', t, left))) (run_loop step t js)"
proof (induction "is" arbitrary: s os)
  case Nil
  have "bindE r (\<lambda>(os', t, left). Inr (os', t, left)) = r" for r :: "('o list \<times> 's \<times> bool) result"
    by (cases r) auto
  with Nil show ?case by (simp add: option.map_ident)
next
  case (Cons i "is")
  then obtain s' os1 os2 where st: "step s i = Some (Inr (Some (s', os1)))"
    "run_loop step s' is = Some (Inr (os2, t, False))" "os = os1 @ os2"
    by (auto split: option.splits sum.splits simp: bindE_eq_Inr)
  from Cons.IH [OF st(2)] st(1,3) show ?case
    by (cases "run_loop step t js"; cases "the (run_loop step t js)") auto
qed

lemma run_interrupt:
  "run_loop step s is = Some (Inr (os, t, False)) \<Longrightarrow> interrupt i \<Longrightarrow>
     run_loop step s (is @ i # js) = Some (Inr (os, t, True))"
  using run_append [of s "is" os t "i # js"] by (simp add: interrupted)

end

lemma extract_int_end:
  assumes "is_space b" "n \<le> 2147483647"
  shows "fst (extract_int old (stream_at p (b # dec_nat n))) = int n"
    "\<not> good (snd (extract_int old (stream_at p (b # dec_nat n))))"
proof -
  have d: "takeWhile is_digit (dec_nat n) = dec_nat n" by (rule takeWhile_all) simp
  have h: "hd (dec_nat n) \<noteq> CHR ''-''" "hd (dec_nat n) \<noteq> CHR ''+''" using dec_nat_hd is_digit_not_special by auto
  have s: "skipws (stream_at p (b # dec_nat n)) = (True, stream_at (p @ [b]) (dec_nat n))"
    using skipws_dec_nat(2) [OF assms(1), of p n "[]"] by simp
  show "fst (extract_int old (stream_at p (b # dec_nat n))) = int n"
    "\<not> good (snd (extract_int old (stream_at p (b # dec_nat n))))"
    using assms(2) by (simp_all add: extract_int_def Let_def s h d good_def at_end_def)
qed

lemma read_signal_end:
  assumes "0 \<le> a" "a \<le> 2147483647" "0 \<le> b" "b \<le> 2147483647"
  shows "fst (read_signal vars (signal a b)) = (a, b)" "\<not> good (snd (read_signal vars (signal a b)))"
proof -
  have s: "stream_of (signal a b) = stream_at [] (dec_nat (nat a) @ CHR '' '' # dec_nat (nat b))"
    using assms by (simp add: signal_def dec_def stream_of_at)
  show "fst (read_signal vars (signal a b)) = (a, b)" "\<not> good (snd (read_signal vars (signal a b)))"
    unfolding read_signal_def s using assms extract_int_end [of "CHR '' ''" "nat b"] space_no_digit
    by (simp_all add: extract_int_dec_nat nat_le_iff split_def)
qed

lemma read_interrupt: "is_interrupt (fst (read_signal vars (fst interrupt_signal)))"
  by (simp add: interrupt_signal_def is_interrupt_def read_signal_end sig_defs)

lemma read_interrupt_subscriber:
  "extract_int a (stream_of (fst interrupt_signal)) = (0, stream_at ''0'' '' 2'')"
  "fst (extract_int b (stream_at ''0'' '' 2'')) = 2"
proof -
  have d: "dec_nat 0 = ''0''" "dec_nat 2 = ''2''" by (simp_all add: dec_nat.simps digit_def char_of_eq_iff)
  show "extract_int a (stream_of (fst interrupt_signal)) = (0, stream_at ''0'' '' 2'')"
    using extract_int_dec_nat(1) [OF space_no_digit(1), of 0 a "[]" "''2''"]
    by (simp add: d interrupt_signal_def signal_def dec_def sig_defs stream_of_at)
  show "fst (extract_int b (stream_at ''0'' '' 2'')) = 2"
    using extract_int_end(1) [OF space_no_digit(2), of 2 b "''0''"] by (simp add: d)
qed

interpretation hb: worker "\<lambda>h i. Some (heartbeater_step h i)" "\<lambda>i. fst i = (None, None, Some interrupt_signal)"
  using read_interrupt by unfold_locales
    (auto simp: heartbeater_step_def s_recv_noblock_def when_ready_def hb_receive_def split_def)

interpretation pub: worker "\<lambda>v i. Some (publisher_step v i)" "\<lambda>i. i = (None, Some interrupt_signal, None, None)"
  using read_interrupt by unfold_locales (auto simp: publisher_step_def s_recv4_def when_ready_def Let_def)

interpretation sub: worker "\<lambda>v i. Some (subscriber_step uid v i)" "\<lambda>i. i = (None, Some interrupt_signal, None)" for uid
  by unfold_locales (auto simp: subscriber_step_def s_recv3_def when_ready_def read_interrupt_subscriber sig_defs)

interpretation dis: worker "dispatcher_step api fs fuel" "\<lambda>i. fst i = (None, None, Some interrupt_signal)" for api fs fuel
  using read_interrupt by unfold_locales
    (auto simp: dispatcher_step_def dispatcher_order_def synchronizingStop_round_def s_recv3_def s_recv_noblock_def
      when_ready_def split_def split: disp_mode.splits)

section \<open>From thread to thread\<close>

lemma pad_to_eq: "pad_to w m = m @ replicate (nat (w - int (length m))) CHR '' ''"
proof (cases "w - int (length m) > 0")
  case True
  then have "max (w - int (length m)) 1 = w - int (length m)" by simp
  with True show ?thesis by (simp add: pad_to_def blanks_def)
qed (simp add: pad_to_def)

lemma pad_to_blanks: "\<exists>t. pad_to w m = m @ t \<and> set t \<subseteq> {CHR '' ''} \<and> w \<le> int (length (m @ t))"
  by (intro exI [of _ "replicate (nat (w - int (length m))) CHR '' ''"]) (auto simp: pad_to_eq)

lemma fst_getline: "fst (getline d old (stream_at p w)) = takeWhile (\<lambda>c. c \<noteq> d) w"
  by (simp add: getline_def Let_def)

lemma dec_3:
  assumes "100 \<le> code" "code \<le> 999"
  shows "length (dec code) = 3" "dec code = dec_nat (nat code)"
  using assms length_dec_nat_3 [of "nat code"] by (simp_all add: dec_def)

lemma length_signal_3:
  assumes "100 \<le> code" "code \<le> 999" "ty \<in> {0..9}"
  shows "length (signal ty code) = 5"
proof -
  have "nat ty < 10" using assms(3) by auto
  then have "length (dec ty) = 1" using assms(3) by (simp add: dec_def dec_nat.simps)
  then show ?thesis using dec_3(1) [OF assms(1,2)] by (simp add: signal_def)
qed

text \<open>The publisher drops the type of a message and the subscriber puts its own and the node in front.\<close>

lemma publisher_relay:
  assumes "100 \<le> code" "code \<le> 999" "\<not> is_digit c"
    and "s_recv4 socket broadcast heartbeat dispatch = signal F_SIGTYPE_PUB code @ c # t"
  shows "publisher_step vars (socket, broadcast, heartbeat, dispatch) =
     Inr (Some ((F_SIGTYPE_PUB, code), [pad_to F_MINIMUM_HB_WIDTH (dec code @ c # t)]))"
proof -
  have r: "fst (read_signal vars (signal F_SIGTYPE_PUB code @ c # t)) = (F_SIGTYPE_PUB, code)"
    using assms(1-3) by (simp add: read_signal_message sig_defs)
  have "length (signal F_SIGTYPE_PUB code) = 5" using assms(1,2) by (simp add: length_signal_3 sig_defs)
  moreover have "\<not> is_interrupt (F_SIGTYPE_PUB, code)" by (simp add: is_interrupt_def sig_defs)
  ultimately show ?thesis by (simp add: publisher_step_def assms(4) r substrE_def Let_def)
qed

lemma subscriber_relay:
  assumes "100 \<le> code" "code \<le> 999" "\<not> is_digit c"
    and "s_recv3 socket broadcast subscriber = dec code @ c # t"
  shows "subscriber_step uid vars (socket, broadcast, subscriber) =
     Inr (Some ((code, code), [signal F_SIGTYPE_SUB code @ uid @ c # t]))"
proof -
  have "extract_int (fst vars) (stream_of (dec code @ c # t)) = (code, stream_at (dec code) (c # t))"
    using assms(1-3) extract_int_dec_nat(1) [OF assms(3), of "nat code" "fst vars" "[]" t]
    by (simp add: dec_3 stream_of_at nat_le_iff)
  then show ?thesis
    using assms(1,2) dec_3(1) [OF assms(1,2)]
    by (simp add: subscriber_step_def assms(4) substrE_def sig_defs Let_def)
qed

lemma subscriber_read:
  assumes "100 \<le> code" "code \<le> 999" "uid \<noteq> []" "\<not> is_digit (hd uid)"
  shows "read_signal vars (signal F_SIGTYPE_SUB code @ uid @ t) =
     ((F_SIGTYPE_SUB, code), stream_at (signal F_SIGTYPE_SUB code) (uid @ t))"
  using assms by (cases uid) (simp_all add: read_signal_message sig_defs)

lemmas recv_defs = s_recv3_def s_recv4_def s_recv_noblock_def when_ready_def all_parts_def

subsection \<open>Heartbeats\<close>

lemma heartbeater_message:
  assumes "0 \<le> status_code st" "status_code st \<le> 2147483647"
  shows "\<exists>h'. heartbeater_step h ((None, Some (fsm_message st payload, []), None), now) = Inr (Some (h', [hb_text now h'])) \<and>
     status_code (hb_status h') = status_code st \<and>
     hb_message h' = '' '' @ takeWhile (\<lambda>c. c \<noteq> CHR 0x0A) payload"
proof -
  have r: "read_signal (hb_vars h) (fsm_message st payload) =
      ((F_SIGTYPE_FSM, status_code st), stream_at (signal F_SIGTYPE_FSM (status_code st)) (CHR '' '' # payload))"
    using assms by (simp add: fsm_message_def read_signal_message space_no_digit sig_defs)
  show ?thesis
    by (simp add: heartbeater_step_def recv_defs hb_receive_def r fst_getline is_interrupt_def sig_defs)
qed

lemma hb_text_eq:
  "hb_text now h = signal F_SIGTYPE_PUB (status_code (hb_status h)) @ CHR '' '' # htobe64 now @ hb_message h"
  by (simp add: hb_text_def)

lemma heartbeater_quiet: "heartbeater_step h ((None, None, None), now) = Inr (Some (h, [hb_text now h]))"
  by (simp add: heartbeater_step_def recv_defs)

subsection \<open>File data\<close>

lemma be_bytes_0: "be_bytes k 0 = replicate k NUL"
proof (induction k)
  case (Suc k)
  have "char_of (0::nat) = NUL" by (simp add: NUL_def char_of_eq_iff)
  with Suc show ?case by (simp add: replicate_append_same)
qed simp

lemma byte_zeros: "htobe64 0 = NUL # replicate 7 NUL"
  using replicate_Suc [of 7 NUL] by (simp add: htobe64_def be_bytes_0)

lemma NUL_no_digit: "\<not> is_digit NUL"
  by (simp add: is_digit_def NUL_def)

text \<open>One round of the loop over the packages.\<close>

lemma dispatch_round:
  assumes "usable f" "fs_content api fs (c_str (f_bpath f)) = Some c" "length c = unat (f_size f)" "length c < 2 ^ 62"
  shows "\<exists>f'. readFileData api fs f F_MAXIMUM_FILE_PACKAGE_SIZE 0 m =
      (package c 0, word_of_nat (length (package c 0)), 4096 < length c, f') \<and>
     f_size f' = f_size f \<and> f_bpath f' = f_bpath f \<and> (4096 < length c \<longrightarrow> usable f')"
  using readFileData_package [OF assms, of 0 m] by (simp add: readFileData_more_def)

lemma dispatch_single:
  assumes "usable f" "fs_content api fs (c_str (f_bpath f)) = Some c" "length c = unat (f_size f)" "length c \<le> 4096"
  shows "dispatch_loop api fs (Suc (Suc fuel)) message f 0 0 True =
     Some (Inr [pad_to (4096 + 22) (message @ htobe64 0 @ htobe64 (word_of_nat (length c)) @ byte_of 0 @ c)])"
proof -
  have p: "package c 0 = c" "unat (word_of_nat (length c) :: u64) = length c"
    using assms(4) by (simp_all add: package_def unat_of_nat)
  obtain f' where "readFileData api fs f F_MAXIMUM_FILE_PACKAGE_SIZE 0 True = (c, word_of_nat (length c), False, f')"
    using dispatch_round [OF assms(1-3), of True] assms(4) by (auto simp: p(1))
  then show ?thesis by (simp add: p(2))
qed

lemma dispatch_second:
  assumes "usable f" "fs_content api fs (c_str (f_bpath f)) = Some c" "length c = unat (f_size f)" "length c < 2 ^ 62"
    and "4096 < length c"
  shows "dispatch_loop api fs (Suc (Suc fuel)) message f 0 0 True = Some (Inl Undefined_behaviour)"
proof -
  have p: "length (package c 0) = 4096" using assms(5) by (simp add: length_package)
  obtain f' where f': "readFileData api fs f F_MAXIMUM_FILE_PACKAGE_SIZE 0 True = (package c 0, 4096, True, f')"
    "f_size f' = f_size f" "f_bpath f' = f_bpath f" "usable f'"
    using dispatch_round [OF assms(1-4), of True] assms(5) by (auto simp: p)
  have o: "unat F_MAXIMUM_FILE_PACKAGE_SIZE = 4096" by (simp add: package_size)
  obtain f'' where f'': "readFileData api fs f' F_MAXIMUM_FILE_PACKAGE_SIZE F_MAXIMUM_FILE_PACKAGE_SIZE True =
      (package c 4096, word_of_nat (length (package c 4096)), 4096 + 4096 < length c, f'')"
    using readFileData_package [of f' api fs c F_MAXIMUM_FILE_PACKAGE_SIZE True] f'(2-4) assms(2-5) o
    by (auto simp: readFileData_more_def)
  have l: "length (package c 4096) \<le> 4096" by (simp add: length_package)
  then have "unat (4096 + word_of_nat (length (package c 4096)) :: u64) = 4096 + length (package c 4096)"
    using unat_sum_small [of 4096 "length (package c 4096)"] by simp
  then show ?thesis using f'(1) f'' p by (simp add: package_size)
qed

subsection \<open>Node hashes that begin with a digit\<close>

lemma digits_val_append: "digits_val ds * 10 ^ length es \<le> digits_val (ds @ es)"
proof (induction es rule: rev_induct)
  case (snoc e es)
  have "digits_val (ds @ es @ [e]) = 10 * digits_val (ds @ es) + (of_char e - 48)"
    using digits_val_snoc [of "ds @ es" e] by simp
  with snoc show ?case by simp
qed simp

lemma extract_int_more_digits:
  assumes "1 \<le> n" "n \<le> 999" "is_digit c" "is_space b"
  shows "10 * n \<le> fst (extract_int old (stream_at p (b # dec_nat (nat n) @ c # t)))"
proof -
  let ?r = "dec_nat (nat n) @ c # t" and ?es = "c # takeWhile is_digit t"
  have s: "skipws (stream_at p (b # ?r)) = (True, stream_at (p @ [b]) ?r)" by (rule skipws_dec_nat(2) [OF assms(4)])
  have tw: "takeWhile is_digit ?r = dec_nat (nat n) @ ?es"
    using dec_nat_digits(1) [of "nat n"] assms(3) by (simp add: list_all_iff)
  have h: "hd (dec_nat (nat n)) \<noteq> CHR ''-''" "hd (dec_nat (nat n)) \<noteq> CHR ''+''"
    using dec_nat_hd [of "nat n"] is_digit_not_special by auto
  have "nat n * 10 ^ 1 \<le> nat n * 10 ^ length ?es" by (intro mult_left_mono power_increasing) simp_all
  also have "\<dots> \<le> digits_val (dec_nat (nat n) @ ?es)" using digits_val_append [of "dec_nat (nat n)" ?es] by simp
  finally have "nat n * 10 \<le> digits_val (dec_nat (nat n) @ ?es)" by simp
  then have "10 * n \<le> int (digits_val (dec_nat (nat n) @ ?es))" using assms(1) by linarith
  then show ?thesis using assms(2) unfolding extract_int_def s prod.case bool.case stream_at_sel
    by (simp only: Let_def) (simp add: h tw)
qed

lemma accepts_other: "\<not> accepts s (Other_status n)"
  by (cases s) (simp_all add: fsm_step_eval)

lemma status_of_int_other: "999 < n \<Longrightarrow> \<exists>m. status_of_int n = Other_status m"
  by (simp add: status_of_int_def)

lemma signal_eq: "0 \<le> a \<Longrightarrow> 0 \<le> b \<Longrightarrow> signal a b = dec_nat (nat a) @ CHR '' '' # dec_nat (nat b)"
  by (simp add: signal_def dec_def)

lemma read_signal_swallowed:
  assumes "100 \<le> code" "code \<le> 999" "is_digit c"
  shows "\<exists>n s. read_signal vars (signal F_SIGTYPE_SUB code @ c # t) = ((F_SIGTYPE_SUB, n), s) \<and> 999 < n"
proof -
  let ?m = "signal F_SIGTYPE_SUB code @ c # t"
  have e: "extract_int (fst vars) (stream_of ?m) = (F_SIGTYPE_SUB, stream_at (dec_nat 2) (CHR '' '' # dec_nat (nat code) @ c # t))"
    using assms(1) extract_int_dec_nat(1) [OF space_no_digit(1), of 2 "fst vars" "[]" "dec_nat (nat code) @ c # t"]
    by (simp add: signal_eq sig_defs stream_of_at)
  have "999 < fst (extract_int (snd vars) (stream_at (dec_nat 2) (CHR '' '' # dec_nat (nat code) @ c # t)))"
    using extract_int_more_digits [OF _ assms(2,3) space_no_digit(2), of "snd vars" "dec_nat 2" t] assms(1) by simp
  then show ?thesis by (auto simp: read_signal_def e split_def Let_def)
qed

subsection \<open>The end of a transmission\<close>

lemma stop_window:
  assumes "unat T + 1000000 < 2 ^ 64"
  shows "now - T \<le> (1000000 :: u64) \<longleftrightarrow> unat T \<le> unat now \<and> unat now \<le> unat T + 1000000"
proof (cases "T \<le> now")
  case True
  then have "unat (now - T) = unat now - unat T" by (rule unat_sub)
  with True show ?thesis by (auto simp: word_le_nat_alt)
next
  case False
  then have "unat (now - T) = unat now + 2 ^ 64 - unat T" by (simp add: unat_sub_if' word_le_nat_alt)
  with False assms show ?thesis by (auto simp: word_le_nat_alt)
qed

text \<open>A quiet poll of the sockets.\<close>

definition quiet :: "u64 \<times> int \<times> int \<Rightarrow> (zmsg option \<times> zmsg option \<times> zmsg option) \<times> u64 \<times> int \<times> int" where
  "quiet t = ((None, None, None), t)"

lemma stop_quiet:
  "d_mode d = Stopping \<Longrightarrow> dispatcher_step api fs fuel d (quiet (now, j)) =
     Some (Inr (if d_waiting_for_stop d \<and> now - d_timing_offset d \<le> 1000000
       then Some (d\<lparr>d_mode := Waiting\<rparr>, [tick status_156]) else Some (d, [To_publisher (sendFakeData d)])))"
  by (simp add: dispatcher_step_def quiet_def recv_defs synchronizingStop_round_def)

lemma stop_waits:
  assumes "d_mode d = Stopping" "\<forall>t\<in>set ts. \<not> (d_waiting_for_stop d \<and> fst t - d_timing_offset d \<le> 1000000)"
  shows "run_loop (dispatcher_step api fs fuel) d (map quiet ts) =
     Some (Inr (replicate (length ts) (To_publisher (sendFakeData d)), d, False))"
  using assms(2)
proof (induction ts)
  case (Cons t ts)
  obtain now j where t: "t = (now, j)" by (cases t)
  with Cons stop_quiet [OF assms(1), of api fs fuel now j] show ?case by auto
qed simp

lemma stop_order:
  assumes "d_mode d = Stopping"
  shows "dispatcher_step api fs fuel d ((None, Some (fsm_message status_155 (htobe64 T), []), None), now, j) =
     Some (Inr (Some (d\<lparr>d_timing_offset := T, d_waiting_for_stop := True\<rparr>, [To_publisher (sendFakeData d)])))"
proof -
  have r: "read_signal j (fsm_message status_155 (htobe64 T)) =
      ((F_SIGTYPE_FSM, 155), stream_at (signal F_SIGTYPE_FSM 155) (CHR '' '' # htobe64 T))"
    by (simp add: fsm_message_def read_signal_message space_no_digit sig_defs)
  have s: "seekg_cur 1 (stream_at p (CHR '' '' # x)) = stream_at (p @ '' '') x" for p x
    using seekg_cur_stream_at [of "'' ''" 1 p x] by simp
  have x: "read_exact 8 (stream_at p (htobe64 T)) = Inr (htobe64 T, stream_at (p @ htobe64 T) [])" for p
    using read_exact_stream_at [of "htobe64 T" 8 p "[]"] by (simp add: be64.enc_length)
  show ?thesis
    using assms by (simp add: dispatcher_step_def recv_defs synchronizingStop_round_def r s x be64.deco_enc
        is_interrupt_def sig_defs sendFakeData_def)
qed

subsection \<open>The order to send a file\<close>

lemma file_out_cut:
  assumes "file_out f = Inr cf" "f_box_hash f = Some h" "filled h" "\<not> f_deleted f"
  shows "\<exists>w. drop 32 cf = drop 32 (digest h) @ f_path f @ w"
  using assms by (auto simp: file_out_def getBytes_def filled_cases)

lemma notify_dispatcher_message:
  assumes "notify_dispatcher e status s bo = Inr (s', bo')" "bo_file_list_data bo = (ptr, f) # fl"
    "bo_current_box bo = Some box" "length box = 64" "map_of (bo_boxes bo) box = Some dir"
  shows "\<exists>t cf. file_out f = Inr cf \<and>
    bo_disp bo' = bo_disp bo @ [fsm_message status (htobe64 t @ box @ dir @ '' '' @ drop 32 cf)]"
  using assms by (auto simp: notify_dispatcher_def bindE_eq_Inr Let_def send_disp_def box_base_dir_def Hash_bytes_ok)

lemma dispatcher_order_error:
  assumes "status \<in> {status_122, status_177}" "length box = 64" "dir \<noteq> []" "list_all (\<lambda>c. \<not> is_space c) dir"
    and "\<And>x. file_in api fs (stream_at x w) (File_default dir (Some (Hash_bytes box))) = Inl err"
  shows "dispatcher_order api fs fuel d (fsm_message status (htobe64 t @ box @ dir @ '' '' @ w)) now = Some (Inl err)"
proof -
  let ?c = "status_code status"
  have c: "0 \<le> ?c" "?c \<le> 2147483647" "status_of_int ?c = status" using assms(1) by (auto simp: status_of_int_def)
  have r: "read_signal v (fsm_message status x) = ((F_SIGTYPE_FSM, ?c), stream_at (signal F_SIGTYPE_FSM ?c) (CHR '' '' # x))" for v x
    using c by (simp add: fsm_message_def read_signal_message space_no_digit sig_defs)
  have s: "seekg_cur 1 (stream_at p (CHR '' '' # x)) = stream_at (p @ '' '') x" for p x
    using seekg_cur_stream_at [of "'' ''" 1 p x] by simp
  have x: "read_exact 8 (stream_at p (htobe64 T @ y)) = Inr (htobe64 T, stream_at (p @ htobe64 T) y)"
    "read_exact F_GENERIC_HASH_LEN (stream_at p (box @ y)) = Inr (box, stream_at (p @ box) y)" for p T y
    using assms(2) by (simp_all add: read_exact_stream_at be64.enc_length hash_len)
  have w: "extract_word [] (stream_at p (dir @ CHR '' '' # y)) = (dir, stream_at (p @ dir) (CHR '' '' # y))" for p y
    using assms(3,4) by (intro extract_word_stream_at) (simp_all add: is_space_def)
  have i: "\<not> is_interrupt (F_SIGTYPE_FSM, ?c)" by (simp add: is_interrupt_def sig_defs)
  show ?thesis
    using assms(1,5) by (simp add: dispatcher_order_def r i c(3) s x w dispatch_file_def)
qed

section \<open>Properties\<close>

text \<open>C27. The heartbeat the router of one node sets reaches the router of another: the heartbeater
  stamps it with its clock, the publisher pads it to at least 256 bytes, the subscriber puts the uid of the
  node in front, and the other router reads the same status, the uid, the clock and the message
  up to its first line feed (behind it the message is lost), followed by blanks. Until the
  next message the heartbeater sends the same text at every clock.\<close>

theorem heartbeat_end_to_end:
  assumes "100 \<le> status_code st" "status_code st \<le> 999" "length uid = 64" "\<not> is_digit (hd uid)"
  shows "\<exists>h' pv' m2 sv' m3 t.
     heartbeater_step h ((None, Some (fsm_message st payload, []), None), now) = Inr (Some (h', [hb_text now h'])) \<and>
     publisher_step pv (None, None, Some (hb_text now h', []), None) = Inr (Some (pv', [m2])) \<and> 256 \<le> length m2 \<and>
     subscriber_step uid sv (None, None, Some (m2, [])) = Inr (Some (sv', [m3])) \<and>
     read_signal rv m3 = ((F_SIGTYPE_SUB, status_code st), stream_at (signal F_SIGTYPE_SUB (status_code st))
       (uid @ '' '' @ htobe64 now @ '' '' @ takeWhile (\<lambda>c. c \<noteq> CHR 0x0A) payload @ t)) \<and> set t \<subseteq> {CHR '' ''} \<and>
     heartbeater_run h' (map (\<lambda>t. ((None, None, None), t)) ts) = Some (Inr (map (\<lambda>t. hb_text t h') ts, h', False))"
proof -
  let ?code = "status_code st"
  obtain h' where h': "heartbeater_step h ((None, Some (fsm_message st payload, []), None), now) = Inr (Some (h', [hb_text now h']))"
    "status_code (hb_status h') = ?code" "hb_message h' = '' '' @ takeWhile (\<lambda>c. c \<noteq> CHR 0x0A) payload"
    using heartbeater_message [of st h payload now] assms(1,2) by auto
  let ?r = "htobe64 now @ hb_message h'"
  obtain t where t: "pad_to F_MINIMUM_HB_WIDTH (dec ?code @ CHR '' '' # ?r) = dec ?code @ CHR '' '' # ?r @ t"
    "set t \<subseteq> {CHR '' ''}" "256 \<le> length (dec ?code @ CHR '' '' # ?r @ t)"
    using pad_to_blanks [of F_MINIMUM_HB_WIDTH "dec ?code @ CHR '' '' # ?r"] by (auto simp: F_MINIMUM_HB_WIDTH_def)
  have "publisher_step pv (None, None, Some (hb_text now h', []), None) =
      Inr (Some ((F_SIGTYPE_PUB, ?code), [dec ?code @ CHR '' '' # ?r @ t]))"
    unfolding t(1) [symmetric] using assms(1,2)
    by (intro publisher_relay) (simp_all add: recv_defs hb_text_eq h'(2) space_no_digit)
  moreover have "subscriber_step uid sv (None, None, Some (dec ?code @ CHR '' '' # ?r @ t, [])) =
      Inr (Some ((?code, ?code), [signal F_SIGTYPE_SUB ?code @ uid @ CHR '' '' # ?r @ t]))"
    using assms(1,2) by (intro subscriber_relay) (simp_all add: recv_defs space_no_digit)
  moreover have "read_signal rv (signal F_SIGTYPE_SUB ?code @ uid @ CHR '' '' # ?r @ t) =
      ((F_SIGTYPE_SUB, ?code), stream_at (signal F_SIGTYPE_SUB ?code) (uid @ CHR '' '' # ?r @ t))"
    using assms by (intro subscriber_read) auto
  moreover have "run_loop (\<lambda>h i. Some (heartbeater_step h i)) h' (map (\<lambda>t. ((None, None, None), t)) ts) =
      Some (Inr (map (\<lambda>t. hb_text t h') ts, h', False))"
    by (induction ts) (simp_all add: heartbeater_quiet)
  ultimately show ?thesis using h'(1) t(2,3) unfolding heartbeater_run_def by (auto simp: h'(3))
qed

theorem heartbeat_end_to_end_witness:
  "\<exists>h' pv' m2 sv' m3 t. heartbeater_step (Heartbeater_init status_100 (0, 0))
       ((None, Some (fsm_message status_120 ''x'', []), None), 7) = Inr (Some (h', [hb_text 7 h'])) \<and>
     publisher_step (0, 0) (None, None, Some (hb_text 7 h', []), None) = Inr (Some (pv', [m2])) \<and>
     subscriber_step (replicate 64 CHR ''n'') (0, 0) (None, None, Some (m2, [])) = Inr (Some (sv', [m3])) \<and>
     read_signal (0, 0) m3 = ((F_SIGTYPE_SUB, 120), stream_at (signal F_SIGTYPE_SUB 120)
       (replicate 64 CHR ''n'' @ '' '' @ htobe64 7 @ '' x'' @ t))"
proof -
  have n: "length (replicate 64 CHR ''n'') = 64" "\<not> is_digit (hd (replicate 64 CHR ''n''))" by (simp_all add: is_digit_def)
  show ?thesis
    using heartbeat_end_to_end [OF _ _ n, of status_120 "Heartbeater_init status_100 (0, 0)" "''x''" 7 "(0, 0)" "(0, 0)" "(0, 0)" "[]"]
    by simp blast
qed

text \<open>C29. The order to send a file fails. The order with which the router tells the dispatcher to send the first file of its
  queue (122 or 177) carries the image of the file cut behind 32 of the 64 bytes of the box hash, so the
  dispatcher reads the rest of the hash as the beginning of the path and the padding as the metadata. For a path of at
  most 89 bytes in a known box (whose directory has no white space), and unless a file of that mangled name happens to exist, the
  order ends in a file system error before the first packet.\<close>

theorem dispatch_order_fails:
  assumes "bo_file_list_data bo = (ptr, f) # fl" "f_box_hash f = Some h" "filled h" "\<not> f_deleted f"
    and "f_path f = q @ replicate (128 - length q) NUL" "length q \<le> 89"
    and "bo_current_box bo = Some box" "length box = 64" "map_of (bo_boxes bo) box = Some dir"
    and "dir \<noteq> []" "list_all (\<lambda>c. \<not> is_space c) dir"
    and "constructPath dir (drop 32 (digest h) @ take 96 (f_path f)) = Inr bp" "\<not> exists_ec api fs bp"
    and "status \<in> {status_122, status_177}" "notify_dispatcher e status s bo = Inr (s', bo')" "d_mode d = Waiting"
  shows "\<exists>m. bo_disp bo' = bo_disp bo @ [m] \<and>
    dispatcher_step api fs fuel d ((None, Some (m, []), None), now, j) = Some (Inl Filesystem_error)"
proof -
  obtain t cf where cf: "file_out f = Inr cf"
    and m: "bo_disp bo' = bo_disp bo @ [fsm_message status (htobe64 t @ box @ dir @ '' '' @ drop 32 cf)]"
    using notify_dispatcher_message [OF assms(15,1,7,8,9)] by blast
  obtain w where i: "drop 32 cf = drop 32 (digest h) @ f_path f @ w"
    using file_out_cut [OF cf assms(2-4)] by blast
  obtain r where r: "f_path f = take 96 (f_path f) @ replicate 7 NUL @ r" using split_padding [OF assms(5,6)] by blast
  let ?p = "drop 32 (digest h) @ take 96 (f_path f)"
  have "length ?p = F_MAXIMUM_PATH_LENGTH" using assms(3,5,6) by (simp add: path_len filled_cases)
  then have "file_in api fs (stream_at x (?p @ replicate 7 NUL @ r @ w)) (File_default dir (Some (Hash_bytes box))) =
      Inl Filesystem_error" for x
    using assms(10,12,13) by (intro file_in_zeros [where bp = bp]) (simp_all add: File_default_def)
  moreover have "drop 32 cf = ?p @ replicate 7 NUL @ r @ w" unfolding i by (subst r) simp
  ultimately have f: "file_in api fs (stream_at x (drop 32 cf)) (File_default dir (Some (Hash_bytes box))) = Inl Filesystem_error" for x
    by simp
  have "dispatcher_order api fs fuel d (fsm_message status (htobe64 t @ box @ dir @ '' '' @ drop 32 cf)) now =
      Some (Inl Filesystem_error)"
    by (rule dispatcher_order_error [OF assms(14,8,10,11) f])
  then show ?thesis using m assms(16) by (intro exI conjI) (auto simp: dispatcher_step_def recv_defs)
qed

theorem dispatch_order_fails_witness:
  "\<exists>s bo m. notify_dispatcher sample_env status_122 (sample_hb ''2 121'') (sample_sender announcing_new_file_state) = Inr (s, bo) \<and>
     bo_disp bo = [m] \<and>
     dispatcher_step mem_api ((\<lambda>_. None)(''/b/a'' \<mapsto> ''xyz'')) 9 (Dispatcher_init status_100 (0, 0)) ((None, Some (m, []), None), 0, 0, 0) =
       Some (Inl Filesystem_error)"
proof -
  let ?bo = "sample_sender announcing_new_file_state" and ?h = "replicate 64 CHR ''h''"
  have seek: "seekg_beg 5 (sample_hb ''2 121'') = stream_at ''2 121'' (replicate 64 CHR ''n'' @ CHR '' '' # replicate 8 NUL)"
    unfolding sample_hb_def using seekg_beg_stream_at [of "''2 121''" 5 "[]"] by simp
  obtain s bo where n: "notify_dispatcher sample_env status_122 (sample_hb ''2 121'') ?bo = Inr (s, bo)"
    using sample_notify [OF seek, of ?bo] by (auto simp: sample_sender_def sample_access)
  have b: "bo_file_list_data ?bo = [(0, sample_file)]" "bo_current_box ?bo = Some ?h" "bo_disp ?bo = []"
    "map_of (bo_boxes ?bo) ?h = Some ''/b''"
    by (simp_all add: sample_sender_def sample_bo_def Boxoffice_init_def)
  have f: "f_box_hash sample_file = Some sample_hash_obj" "\<not> f_deleted sample_file"
    "f_path sample_file = ''a'' @ replicate (128 - length ''a'') NUL"
    by (simp_all add: sample_file_def File_default_def sample_path_def)
  let ?p = "drop 32 (digest sample_hash_obj) @ take 96 (f_path sample_file)"
  have d: "digest sample_hash_obj = ?h" by (simp add: sample_hash_obj_def Hash_bytes_ok)
  have cp: "constructPath ''/b'' ?p = Inr (''/b/'' @ ?p)" by (simp add: constructPath_def d)
  have hd: "drop 32 ?h = CHR ''h'' # replicate 31 CHR ''h''" by (simp add: eval_nat_numeral)
  have "\<exists>w. c_str (''/b/'' @ ?p) = ''/b/h'' @ w" unfolding d hd by (simp add: c_str_def NUL_def)
  then have ex: "\<not> exists_ec mem_api ((\<lambda>_. None)(''/b/a'' \<mapsto> ''xyz'')) (''/b/'' @ ?p)"
    by (auto simp: exists_ec_def mem_api_def)
  have dir: "''/b'' \<noteq> []" "list_all (\<lambda>c. \<not> is_space c) ''/b''" by (simp_all add: is_space_def)
  have "status_122 \<in> {status_122, status_177}" "d_mode (Dispatcher_init status_100 (0, 0)) = Waiting" "length ''a'' \<le> 89" "length ?h = 64"
    by (simp_all add: Dispatcher_init_def)
  from dispatch_order_fails [OF b(1) f(1) sample_props(1) f(2,3) this(3) b(2) this(4) b(4) dir cp ex this(1) n this(2), of 9 0 "(0, 0)"]
  show ?thesis using n b(3) by auto
qed

text \<open>A file of more than one package cannot be sent: the size of the packages is summed up over
  the rounds and the second round writes more bytes than were read into its buffer.\<close>

lemma second_package_undefined:
  assumes "usable f" "fs_content api fs (c_str (f_bpath f)) = Some c" "length c = unat (f_size f)" "length c < 2 ^ 62"
    and "4096 < length c" "2 \<le> fuel"
  shows "dispatch_loop api fs fuel message f 0 0 True = Some (Inl Undefined_behaviour)"
proof -
  obtain k where "fuel = Suc (Suc k)" using assms(6) by (metis add_2_eq_Suc le_Suc_ex)
  then show ?thesis using dispatch_second [OF assms(1-5)] by simp
qed

text \<open>C30. Fake data covers the transmission until the agreed stop: once the dispatcher has been told the
  deadline (status 155) it sends fake data at every poll outside the window of 1000000 milliseconds
  behind the deadline, and at the first quiet poll inside the window it tells the router with
  status 156 and waits for its next order.\<close>

theorem transmission_stops_in_window:
  assumes "d_mode d = Stopping" "unat T + 1000000 < 2 ^ 64"
    and "\<forall>t\<in>set ts. unat (fst t) < unat T \<or> unat T + 1000000 < unat (fst t)"
    and "unat T \<le> unat now" "unat now \<le> unat T + 1000000"
  shows "\<exists>d'. dispatcher_run api fs fuel d
       (((None, Some (fsm_message status_155 (htobe64 T), []), None), t0) # map quiet ts @ [quiet (now, j)]) =
     Some (Inr (replicate (Suc (length ts)) (To_publisher (sendFakeData d)) @ [tick status_156], d', False)) \<and> d_mode d' = Waiting"
proof -
  let ?d = "d\<lparr>d_timing_offset := T, d_waiting_for_stop := True\<rparr>"
  let ?step = "dispatcher_step api fs fuel"
  have m: "d_mode ?d = Stopping" using assms(1) by simp
  have "\<forall>t\<in>set ts. \<not> (d_waiting_for_stop ?d \<and> fst t - d_timing_offset ?d \<le> 1000000)"
    using assms(3) stop_window [OF assms(2)] by auto
  from stop_waits [OF m this] have r: "run_loop ?step ?d (map quiet ts) =
      Some (Inr (replicate (length ts) (To_publisher (sendFakeData ?d)), ?d, False))" .
  have s: "sendFakeData ?d = sendFakeData d" by (simp add: sendFakeData_def)
  have "now - T \<le> 1000000" using stop_window [OF assms(2)] assms(4,5) by simp
  then have "run_loop ?step ?d [quiet (now, j)] = Some (Inr ([tick status_156], ?d\<lparr>d_mode := Waiting\<rparr>, False))"
    using stop_quiet [OF m, of api fs fuel now j] by simp
  with dis.run_append [OF r, of "[quiet (now, j)]"] have "run_loop ?step ?d (map quiet ts @ [quiet (now, j)]) =
      Some (Inr (replicate (length ts) (To_publisher (sendFakeData d)) @ [tick status_156], ?d\<lparr>d_mode := Waiting\<rparr>, False))"
    by (simp add: s)
  then show ?thesis using stop_order [OF assms(1), of api fs fuel T "fst t0" "snd t0"] by (simp add: dispatcher_run_def)
qed

theorem transmission_stops_in_window_witness:
  "\<exists>d'. dispatcher_run mem_api (\<lambda>_. None) 0 ((Dispatcher_init status_210 (0, 0))\<lparr>d_mode := Stopping\<rparr>)
       [((None, Some (fsm_message status_155 (htobe64 5), []), None), 1, 0, 0), quiet (4, 0, 0), quiet (6, 0, 0)] =
     Some (Inr ([To_publisher (sendFakeData (Dispatcher_init status_210 (0, 0))), To_publisher (sendFakeData (Dispatcher_init status_210 (0, 0))),
       tick status_156], d', False)) \<and> d_mode d' = Waiting"
proof -
  have s: "sendFakeData ((Dispatcher_init status_210 (0, 0))\<lparr>d_mode := Stopping\<rparr>) = sendFakeData (Dispatcher_init status_210 (0, 0))"
    by (simp add: sendFakeData_def)
  show ?thesis
    using transmission_stops_in_window [of "(Dispatcher_init status_210 (0, 0))\<lparr>d_mode := Stopping\<rparr>" 5 "[(4, 0, 0)]" 6 mem_api "\<lambda>_. None" 0
        "(1, 0, 0)" "(0, 0)"] by (simp add: s)
qed

text \<open>C31. Fake data and file data look alike on the wire: the packet of a file of one package and the fake
  packet are both 4118 bytes long and the publisher sends both as 4116 bytes.\<close>

theorem packets_of_one_length:
  assumes "usable f" "fs_content api fs (c_str (f_bpath f)) = Some c" "length c = unat (f_size f)" "length c \<le> 4096"
    and "d_status d = status_210"
  shows "\<exists>packet m1 m2.
     dispatch_loop api fs 2 (signal F_SIGTYPE_PUB (status_code status_200)) f 0 0 True = Some (Inr [packet]) \<and>
     length packet = 4118 \<and> length (sendFakeData d) = 4118 \<and>
     publisher_step pv (None, None, None, Some (packet, [])) = Inr (Some ((F_SIGTYPE_PUB, 200), [m1])) \<and>
     publisher_step pv (None, None, None, Some (sendFakeData d, [])) = Inr (Some ((F_SIGTYPE_PUB, 210), [m2])) \<and>
     length m1 = 4116 \<and> length m2 = 4116"
proof -
  let ?r = "htobe64 (word_of_nat (length c)) @ byte_of 0 @ c"
  let ?b = "replicate (4096 - length c) CHR '' ''" and ?f = "replicate 4113 CHR '' ''"
  have sl: "length (signal F_SIGTYPE_PUB 200) = 5" "length (signal F_SIGTYPE_PUB 210) = 5"
    by (simp_all add: length_signal_3 sig_defs)
  have d: "dispatch_loop api fs 2 (signal F_SIGTYPE_PUB (status_code status_200)) f 0 0 True =
      Some (Inr [pad_to (4096 + 22) (signal F_SIGTYPE_PUB 200 @ htobe64 0 @ ?r)])"
    using dispatch_single [OF assms(1-4), of 0 "signal F_SIGTYPE_PUB 200"] by (simp only: numeral_2_eq_2 status_code.simps)
  have p: "pad_to (4096 + 22) (signal F_SIGTYPE_PUB 200 @ htobe64 0 @ ?r) = signal F_SIGTYPE_PUB 200 @ NUL # replicate 7 NUL @ ?r @ ?b"
    using assms(4) by (simp add: pad_to_eq sl be64.enc_length byte8.enc_length byte_zeros of_nat_diff nat_diff_distrib)
  have f: "sendFakeData d = signal F_SIGTYPE_PUB 210 @ CHR '' '' # replicate 4112 CHR '' ''"
    using replicate_Suc [of 4112 "CHR '' ''"] by (simp add: sendFakeData_def assms(5) sl blanks_def)
  have l3: "length (dec 200) = 3" "length (dec 210) = 3" by (rule dec_3(1); simp)+
  have "publisher_step pv (None, None, None, Some (signal F_SIGTYPE_PUB 200 @ NUL # replicate 7 NUL @ ?r @ ?b, [])) =
      Inr (Some ((F_SIGTYPE_PUB, 200), [pad_to F_MINIMUM_HB_WIDTH (dec 200 @ NUL # replicate 7 NUL @ ?r @ ?b)]))"
    by (rule publisher_relay) (simp_all add: recv_defs NUL_no_digit)
  moreover have "publisher_step pv (None, None, None, Some (sendFakeData d, [])) =
      Inr (Some ((F_SIGTYPE_PUB, 210), [pad_to F_MINIMUM_HB_WIDTH (dec 210 @ CHR '' '' # replicate 4112 CHR '' '')]))"
    by (rule publisher_relay) (simp_all add: recv_defs space_no_digit f)
  ultimately show ?thesis
    using assms(4) unfolding d p
    by (simp add: f sl l3 pad_to_eq be64.enc_length byte8.enc_length F_MINIMUM_HB_WIDTH_def)
qed

theorem packets_of_one_length_witness:
  "\<exists>packet. dispatch_loop mem_api ((\<lambda>_. None)(''/b/a'' \<mapsto> ''xyz'')) 2 (signal F_SIGTYPE_PUB (status_code status_200)) sample_received 0 0 True =
       Some (Inr [packet]) \<and> length packet = length (sendFakeData (Dispatcher_init status_210 (0, 0)))"
proof -
  have c: "fs_content mem_api ((\<lambda>_. None)(''/b/a'' \<mapsto> ''xyz'')) (c_str (f_bpath sample_received)) = Some ''xyz''"
    "length ''xyz'' = unat (f_size sample_received)" "length ''xyz'' \<le> 4096"
    by (simp_all add: sample_received_props)
  show ?thesis
    using packets_of_one_length [OF sample_received_props(1) c, of "Dispatcher_init status_210 (0, 0)" "(0, 0)"]
    by (auto simp: Dispatcher_init_def)
qed

text \<open>A node whose uid begins with a digit is not heard: the subscriber writes the uid directly behind the
  status, the router reads both as one number above 999, and drops the message in every state.\<close>

lemma digit_node_unheard:
  assumes "100 \<le> code" "code \<le> 999" "\<not> is_digit c" "is_digit b"
  shows "\<exists>v m. subscriber_step (b # uid) sv (None, None, Some (dec code @ c # t, [])) = Inr (Some (v, [m])) \<and>
     runRouter api rv [(e, m)] bo = Inr (None, bo)"
proof -
  let ?m = "signal F_SIGTYPE_SUB code @ (b # uid) @ c # t"
  have s: "subscriber_step (b # uid) sv (None, None, Some (dec code @ c # t, [])) = Inr (Some ((code, code), [?m]))"
    using assms(1-3) by (intro subscriber_relay) (simp_all add: recv_defs)
  obtain n s where r: "read_signal rv ?m = ((F_SIGTYPE_SUB, n), s)" "999 < n"
    using read_signal_swallowed [OF assms(1,2,4), of rv "uid @ c # t"] by auto
  obtain k where "status_of_int n = Other_status k" using status_of_int_other [OF r(2)] ..
  then have "processEvent api e (status_of_int n) s bo = Inr (0, bo)"
    using processEvent_rejected accepts_other by metis
  then have "runRouter api rv [(e, ?m)] bo = Inr (None, bo)" using r(1) by (simp add: sig_defs)
  with s show ?thesis by blast
qed

end
