(* ===== verification/Directory.thy ===== *)
theory Directory
  imports Hash_Tree
begin

text \<open>
  The classes \<^verbatim>\<open>Directory\<close> (\<^verbatim>\<open>src/directory.cpp\<close>) and the scan of a \<^verbatim>\<open>Box\<close>
  (\<^verbatim>\<open>src/box.cpp\<close>): every directory below the base path of a box gets a hash tree over its files
  and a directory hash, and the box a hash tree over its directories. What
  \<^verbatim>\<open>boost::filesystem\<close> answers is a parameter (the record \<open>dir_api\<close>). An unordered map is an
  association list; \<^verbatim>\<open>insert\<close> keeps an entry that is there. Following symbolic links and
  descending into directories are \<open>partial_function\<close>s: the value \<open>None\<close> is a scan that never ends. The
  reference is a tree of files and directories (\<open>fnode\<close>).
\<close>

section \<open>The file system\<close>

record 'fs dir_api =
  dir_iterator :: "'fs \<Rightarrow> string \<Rightarrow> string list result"
  dir_symlink_type :: "'fs \<Rightarrow> string \<Rightarrow> u8 result"
  dir_read_symlink :: "'fs \<Rightarrow> string \<Rightarrow> string result"
  dir_is_directory :: "'fs \<Rightarrow> string \<Rightarrow> bool result"
  dir_is_regular_file :: "'fs \<Rightarrow> string \<Rightarrow> bool result"
  dir_last_write_time :: "'fs \<Rightarrow> string \<Rightarrow> int result"
  dir_filename :: "string \<Rightarrow> string"

datatype symlink_handling = F_SYMLINK_FOLLOW | F_SYMLINK_IGNORE | F_SYMLINK_COPY

definition F_SYMLINK_DEFAULT :: symlink_handling where
  "F_SYMLINK_DEFAULT = F_SYMLINK_FOLLOW"

section \<open>Directory\<close>

text \<open>The pointer to the hash tree is null until the directory is filled.\<close>

record directory =
  dir_path :: string
  dir_entries :: "(string \<times> string) list"
  dir_hash_tree :: "hash_tree option"
  dir_hash :: sptr
  dir_symlinks :: symlink_handling

text \<open>\<^verbatim>\<open>std::unordered_map::insert\<close>\<close>

definition map_insert :: "'k \<Rightarrow> 'v \<Rightarrow> ('k \<times> 'v) list \<Rightarrow> ('k \<times> 'v) list" where
  "map_insert k v m = (if map_of m k = None then m @ [(k, v)] else m)"

text \<open>The constructor, with the address of the new hash.\<close>

definition Directory_default :: "nat \<Rightarrow> directory" where
  "Directory_default ptr =
    \<lparr>dir_path = [], dir_entries = [], dir_hash_tree = None, dir_hash = (ptr, Hash_default),
     dir_symlinks = F_SYMLINK_DEFAULT\<rparr>"

definition setSymlinkHandling :: "symlink_handling \<Rightarrow> directory \<Rightarrow> directory" where
  "setSymlinkHandling s d = d\<lparr>dir_symlinks := s\<rparr>"

definition getAbsolutePath :: "directory \<Rightarrow> string" where
  "getAbsolutePath d = dir_path d"

definition dir_getPath :: "'fs dir_api \<Rightarrow> directory \<Rightarrow> string" where
  "dir_getPath api d = dir_filename api (dir_path d)"

definition getNumberOfEntries :: "directory \<Rightarrow> nat" where
  "getNumberOfEntries d = length (dir_entries d)"

text \<open>The text that is hashed for a file: its name, its path relative to the directory without the name,
  and the time. \<^verbatim>\<open>substr(pos, n)\<close> throws when the position is behind the text; a count
  below 0 wraps around and takes the rest.\<close>

definition file_hash_text :: "string \<Rightarrow> string \<Rightarrow> string \<Rightarrow> int \<Rightarrow> string result" where
  "file_hash_text root f filename time =
    (let n = int (length f) - int (length filename) - int (length root) in
     if length root > length f then Inl Out_of_range
     else Inr (filename @ (if n < 0 then drop (length root) f else take (nat n) (drop (length root) f)) @ dec time))"

text \<open>What filling a directory carries along: the directory, the hashes of its files, the directories
  found, and the next free address.\<close>

record fill_state =
  fs_dir :: directory
  fs_hashes :: "sptr list"
  fs_dirs :: "string list"
  fs_next :: nat

definition processRegularFileEntry :: "(string \<Rightarrow> string) \<Rightarrow> 'fs dir_api \<Rightarrow> 'fs \<Rightarrow> string \<Rightarrow> fill_state \<Rightarrow> fill_state result" where
  "processRegularFileEntry gh api fs entry st =
    bindE (if length (dir_path (fs_dir st)) > length entry then Inl Out_of_range else dir_last_write_time api fs entry) (\<lambda>time.
    bindE (file_hash_text (dir_path (fs_dir st)) entry (dir_filename api entry) time) (\<lambda>text.
    let h = Hash_string gh text in
    Inr (st\<lparr>fs_hashes := fs_hashes st @ [(fs_next st, h)], fs_next := Suc (fs_next st),
            fs_dir := (fs_dir st)\<lparr>dir_entries := map_insert (getString h) entry (dir_entries (fs_dir st))\<rparr>\<rparr>)))"

definition symlink_file :: u8 where "symlink_file = 4"

partial_function (option) processDirectoryEntry ::
  "(string \<Rightarrow> string) \<Rightarrow> 'fs dir_api \<Rightarrow> 'fs \<Rightarrow> string \<Rightarrow> fill_state \<Rightarrow> fill_state result option" where
  "processDirectoryEntry gh api fs entry st =
    (case dir_symlink_type api fs entry of
       Inl err \<Rightarrow> Some (Inl err)
     | Inr ty \<Rightarrow>
         if ty = symlink_file \<and> dir_symlinks (fs_dir st) = F_SYMLINK_FOLLOW then
           (case dir_read_symlink api fs entry of
              Inl err \<Rightarrow> Some (Inl err)
            | Inr sl \<Rightarrow> processDirectoryEntry gh api fs sl st)
         else if ty = symlink_file \<and> dir_symlinks (fs_dir st) = F_SYMLINK_COPY then
           Some (processRegularFileEntry gh api fs entry st)
         else
           Some (bindE (dir_is_directory api fs entry) (\<lambda>d.
             if d \<and> ty \<noteq> symlink_file then Inr (st\<lparr>fs_dirs := fs_dirs st @ [entry]\<rparr>)
             else bindE (dir_is_regular_file api fs entry) (\<lambda>r.
               if r \<and> ty \<noteq> symlink_file then processRegularFileEntry gh api fs entry st
               else Inr st))))"

declare processDirectoryEntry.simps [code]

fun process_entries :: "(string \<Rightarrow> string) \<Rightarrow> 'fs dir_api \<Rightarrow> 'fs \<Rightarrow> string list \<Rightarrow> fill_state \<Rightarrow> fill_state result option" where
  "process_entries gh api fs [] st = Some (Inr st)"
| "process_entries gh api fs (entry # es) st =
     (case processDirectoryEntry gh api fs entry st of
        None \<Rightarrow> None
      | Some (Inl err) \<Rightarrow> Some (Inl err)
      | Some (Inr st) \<Rightarrow> process_entries gh api fs es st)"

definition makeDirectoryHash :: "(string \<Rightarrow> string) \<Rightarrow> 'fs dir_api \<Rightarrow> directory \<Rightarrow> directory result" where
  "makeDirectoryHash gh api d =
    (case dir_hash_tree d of
       None \<Rightarrow> Inl Undefined_behaviour
     | Some t \<Rightarrow> Inr (d\<lparr>dir_hash := (fst (dir_hash d), makeHash gh (getString (getTopHash t) @ dir_getPath api d) (snd (dir_hash d)))\<rparr>))"

definition fillDirectory :: "(string \<Rightarrow> string) \<Rightarrow> 'fs dir_api \<Rightarrow> 'fs \<Rightarrow> nat \<Rightarrow> string \<Rightarrow> string list \<Rightarrow> directory \<Rightarrow>
    (directory \<times> string list \<times> nat) result option" where
  "fillDirectory gh api fs nxt document_root dirs d =
    (case dir_iterator api fs document_root of
       Inl err \<Rightarrow> Some (Inl err)
     | Inr es \<Rightarrow>
         map_option (\<lambda>r. bindE r (\<lambda>st.
           bindE (makeHashTree gh (fs_next st) (fs_hashes st)) (\<lambda>(t, nxt).
           bindE (makeDirectoryHash gh api ((fs_dir st)\<lparr>dir_hash_tree := Some t\<rparr>)) (\<lambda>d.
           Inr (d, fs_dirs st, nxt)))))
         (process_entries gh api fs es
           \<lparr>fs_dir = d\<lparr>dir_path := document_root\<rparr>, fs_hashes = [], fs_dirs = dirs, fs_next = nxt\<rparr>))"

text \<open>The constructor with a path: the directories found are not kept.\<close>

definition Directory_path :: "(string \<Rightarrow> string) \<Rightarrow> 'fs dir_api \<Rightarrow> 'fs \<Rightarrow> nat \<Rightarrow> string \<Rightarrow> (directory \<times> nat) result option" where
  "Directory_path gh api fs nxt p =
    map_option (\<lambda>r. bindE r (\<lambda>(d, dirs, nxt). Inr (d, nxt)))
      (fillDirectory gh api fs (Suc nxt) p [] ((Directory_default nxt)\<lparr>dir_path := p\<rparr>))"

definition checkDirectoryChange :: "directory \<Rightarrow> directory \<Rightarrow> bool result" where
  "checkDirectoryChange self left =
    bindE (hash_equal (snd (dir_hash left)) (snd (dir_hash self))) (\<lambda>b. Inr (if b then False else True))"

definition getChangedEntryHashes :: "directory \<Rightarrow> directory \<Rightarrow> sptr list \<Rightarrow> (bool \<times> sptr list) result" where
  "getChangedEntryHashes self left changed_hashes =
    (case (dir_hash_tree self, dir_hash_tree left) of
       (Some t, Some u) \<Rightarrow> getChangedHashes t u changed_hashes
     | _ \<Rightarrow> Inl Undefined_behaviour)"

section \<open>The scan of a box\<close>

text \<open>The directories by the text of their hash, the hashes in the order found, the next free address.\<close>

record scan =
  sc_entries :: "(string \<times> directory) list"
  sc_hashes :: "sptr list"
  sc_next :: nat

definition scan_add :: "directory \<Rightarrow> nat \<Rightarrow> scan \<Rightarrow> scan" where
  "scan_add d nxt sc =
    \<lparr>sc_entries = map_insert (getString (snd (dir_hash d))) d (sc_entries sc),
     sc_hashes = sc_hashes sc @ [dir_hash d], sc_next = nxt\<rparr>"

partial_function (option) recursiveDirectoryFill ::
  "(string \<Rightarrow> string) \<Rightarrow> 'fs dir_api \<Rightarrow> 'fs \<Rightarrow> string list \<Rightarrow> scan \<Rightarrow> scan result option" where
  "recursiveDirectoryFill gh api fs dirs sc =
    (case dirs of
       [] \<Rightarrow> Some (Inr sc)
     | p # ps \<Rightarrow>
         Option.bind (fillDirectory gh api fs (Suc (sc_next sc)) p [] (Directory_default (sc_next sc))) (\<lambda>r.
         case r of
           Inl err \<Rightarrow> Some (Inl err)
         | Inr (d, temp_dirs, nxt) \<Rightarrow>
             Option.bind (recursiveDirectoryFill gh api fs temp_dirs (scan_add d nxt sc)) (\<lambda>r.
             case r of
               Inl err \<Rightarrow> Some (Inl err)
             | Inr sc \<Rightarrow> recursiveDirectoryFill gh api fs ps sc)))"

declare recursiveDirectoryFill.simps [code]

record box =
  box_path :: string
  box_entries :: "(string \<times> directory) list"
  box_hash_tree :: hash_tree
  box_watch_descriptors :: "(int \<times> directory) list"
  box_hash :: string

text \<open>The constructor, from the next free address on.\<close>

definition Box_new :: "(string \<Rightarrow> string) \<Rightarrow> 'fs dir_api \<Rightarrow> 'fs \<Rightarrow> nat \<Rightarrow> string \<Rightarrow> string \<Rightarrow> (box \<times> nat) result option" where
  "Box_new gh api fs nxt p hash_bytes =
    Option.bind (fillDirectory gh api fs (Suc nxt) p [] (Directory_default nxt)) (\<lambda>r.
    case r of
      Inl err \<Rightarrow> Some (Inl err)
    | Inr (base_dir, dirs, nxt) \<Rightarrow>
        map_option (\<lambda>r. bindE r (\<lambda>sc.
          bindE (makeHashTree gh (sc_next sc) (sc_hashes sc)) (\<lambda>(t, nxt).
          Inr (\<lparr>box_path = p, box_entries = sc_entries sc, box_hash_tree = t, box_watch_descriptors = [],
                 box_hash = take F_GENERIC_HASH_LEN hash_bytes\<rparr>, nxt))))
        (recursiveDirectoryFill gh api fs dirs (scan_add base_dir nxt \<lparr>sc_entries = [], sc_hashes = [], sc_next = nxt\<rparr>)))"

definition getBaseDir :: "box \<Rightarrow> string" where
  "getBaseDir b = box_path b"

text \<open>\<^verbatim>\<open>==\<close> of two shared pointers compares the addresses; the top hash of an empty tree is a new
  object.\<close>

definition checkBoxChange :: "box \<Rightarrow> box \<Rightarrow> bool" where
  "checkBoxChange self left =
    (let t = ht_hashes (box_hash_tree self); u = ht_hashes (box_hash_tree left) in
     if t \<noteq> [] \<and> u \<noteq> [] \<and> fst (last u) = fst (last t) then False else True)"

definition getChangedDirHashes :: "box \<Rightarrow> box \<Rightarrow> sptr list \<Rightarrow> (bool \<times> sptr list) result" where
  "getChangedDirHashes self left changed_hashes = getChangedHashes (box_hash_tree self) (box_hash_tree left) changed_hashes"

end
