(* ===== verification/Directory_Laws.thy ===== *)
theory Directory_Laws
  imports Directory
begin

text \<open>
  What a scan of a directory or a box yields. Following symbolic links returns exactly when the
  chain of links ends. For a file system that shows a tree of files and directories, the scan of a
  box returns the hash tree over the directories in the order of the tree, and keeps one directory per hash;
  the directory hash does not depend on the order in which the files are listed.
\<close>

section \<open>Symbolic links\<close>

definition follow :: "'fs dir_api \<Rightarrow> 'fs \<Rightarrow> string \<Rightarrow> string option" where
  "follow api fs e =
    (if dir_symlink_type api fs e = Inr symlink_file
     then (case dir_read_symlink api fs e of Inl _ \<Rightarrow> None | Inr t \<Rightarrow> Some t) else None)"

fun follow_n :: "'fs dir_api \<Rightarrow> 'fs \<Rightarrow> nat \<Rightarrow> string \<Rightarrow> string option" where
  "follow_n api fs 0 e = Some e"
| "follow_n api fs (Suc n) e = Option.bind (follow api fs e) (follow_n api fs n)"

lemma processDirectoryEntry_follow:
  "dir_symlinks (fs_dir st) = F_SYMLINK_FOLLOW \<Longrightarrow> follow api fs e = Some t \<Longrightarrow>
     processDirectoryEntry gh api fs e st = processDirectoryEntry gh api fs t st"
  by (subst processDirectoryEntry.simps) (auto simp: follow_def split: if_splits sum.splits)

lemma processDirectoryEntry_stops:
  "dir_symlinks (fs_dir st) \<noteq> F_SYMLINK_FOLLOW \<or> follow api fs e = None \<Longrightarrow>
     \<exists>r. processDirectoryEntry gh api fs e st = Some r"
  by (subst processDirectoryEntry.simps) (auto simp: follow_def split: if_splits sum.splits)

lemma follow_n_returns:
  "follow_n api fs n e = None \<Longrightarrow> \<exists>r. processDirectoryEntry gh api fs e st = Some r"
proof (induction n arbitrary: e)
  case (Suc n)
  show ?case
  proof (cases "dir_symlinks (fs_dir st) = F_SYMLINK_FOLLOW \<and> follow api fs e \<noteq> None")
    case True
    then obtain t where t: "follow api fs e = Some t" by auto
    with Suc have "\<exists>r. processDirectoryEntry gh api fs t st = Some r" by simp
    with True t show ?thesis by (simp add: processDirectoryEntry_follow)
  qed (intro processDirectoryEntry_stops, auto)
qed simp

lemma returns_follow_n:
  assumes "processDirectoryEntry gh api fs e st = Some r"
  shows "dir_symlinks (fs_dir st) = F_SYMLINK_FOLLOW \<longrightarrow> (\<exists>n. follow_n api fs n e = None)"
  using assms
proof (induction rule: processDirectoryEntry.raw_induct [rotated, consumes 1])
  case (1 f gh api fs e st r)
  show ?case
  proof
    assume s: "dir_symlinks (fs_dir st) = F_SYMLINK_FOLLOW"
    show "\<exists>n. follow_n api fs n e = None"
    proof (cases "follow api fs e")
      case None
      then show ?thesis by (intro exI [of _ 1]) simp
    next
      case (Some t)
      then have "f gh api fs t st = Some r" using 1(2) s by (auto simp: follow_def split: if_splits sum.splits)
      then obtain n where "follow_n api fs n t = None" using 1(1) s by blast
      with Some show ?thesis by (intro exI [of _ "Suc n"]) simp
    qed
  qed
qed

section \<open>The reference: a tree of files and directories\<close>

datatype fnode = FFile string int | FDir string "fnode list"

fun node_name :: "fnode \<Rightarrow> string" where
  "node_name (FFile n t) = n"
| "node_name (FDir n cs) = n"

fun is_dir :: "fnode \<Rightarrow> bool" where
  "is_dir (FFile n t) = False"
| "is_dir (FDir n cs) = True"

definition child_path :: "string \<Rightarrow> fnode \<Rightarrow> string" where
  "child_path p c = p @ ''/'' @ node_name c"

text \<open>The file system shows the node at a path, without symbolic links.\<close>

fun shows_node :: "'fs dir_api \<Rightarrow> 'fs \<Rightarrow> string \<Rightarrow> fnode \<Rightarrow> bool" where
  "shows_node api fs p (FFile n t) \<longleftrightarrow>
     dir_symlink_type api fs p = Inr 2 \<and> dir_is_directory api fs p = Inr False \<and> dir_is_regular_file api fs p = Inr True \<and>
     dir_last_write_time api fs p = Inr t \<and> dir_filename api p = n"
| "shows_node api fs p (FDir n cs) \<longleftrightarrow>
     dir_symlink_type api fs p = Inr 3 \<and> dir_is_directory api fs p = Inr True \<and> dir_filename api p = n \<and>
     dir_iterator api fs p = Inr (map (child_path p) cs) \<and> list_all (\<lambda>c. shows_node api fs (child_path p c) c) cs"

definition file_digest :: "(string \<Rightarrow> string) \<Rightarrow> string \<Rightarrow> int \<Rightarrow> hash" where
  "file_digest gh n t = Hash_string gh (n @ ''/'' @ dec t)"

fun file_digests :: "(string \<Rightarrow> string) \<Rightarrow> fnode list \<Rightarrow> hash list" where
  "file_digests gh [] = []"
| "file_digests gh (FFile n t # cs) = file_digest gh n t # file_digests gh cs"
| "file_digests gh (FDir n ds # cs) = file_digests gh cs"

definition root_hash :: "(string \<Rightarrow> string) \<Rightarrow> hash list \<Rightarrow> hash" where
  "root_hash gh hs = merkle_root (join_hashes gh) (sort_by (\<lambda>a b. digest_less (digest a) (digest b)) hs)"

definition dir_digest :: "(string \<Rightarrow> string) \<Rightarrow> string \<Rightarrow> fnode list \<Rightarrow> hash" where
  "dir_digest gh n cs =
    (let hs = file_digests gh cs in Hash_string gh ((if hs = [] then [] else getString (root_hash gh hs)) @ n))"

text \<open>All directories of a tree with their paths and hashes, parents first.\<close>

fun dirs_in :: "(string \<Rightarrow> string) \<Rightarrow> string \<Rightarrow> fnode \<Rightarrow> (string \<times> hash) list" where
  "dirs_in gh p (FFile n t) = []"
| "dirs_in gh p (FDir n cs) = (p, dir_digest gh n cs) # concat (map (\<lambda>c. dirs_in gh (child_path p c) c) cs)"

text \<open>The hash trees count in \<^verbatim>\<open>int\<close>: a directory may have $2^{29}$ files, a box $2^{29}$
  directories (see \<open>makeHashTree_merkle\<close>).\<close>

fun files_fit :: "fnode \<Rightarrow> bool" where
  "files_fit (FFile n t) = True"
| "files_fit (FDir n cs) \<longleftrightarrow> length (filter (\<lambda>c. \<not> is_dir c) cs) \<le> 2 ^ 29 \<and> list_all files_fit cs"

fun dir_count :: "fnode \<Rightarrow> nat" where
  "dir_count (FFile n t) = 0"
| "dir_count (FDir n cs) = Suc (sum_list (map dir_count cs))"

definition tree_fits :: "fnode \<Rightarrow> bool" where
  "tree_fits c \<longleftrightarrow> files_fit c \<and> dir_count c \<le> 2 ^ 29"

lemma length_file_digests: "length (file_digests gh cs) = length (filter (\<lambda>c. \<not> is_dir c) cs)"
  by (induction gh cs rule: file_digests.induct) simp_all

lemma length_dirs_in: "length (dirs_in gh p c) = dir_count c"
proof (induction gh p c rule: dirs_in.induct)
  case (2 gh p n cs)
  then show ?case by (auto simp: length_concat comp_def intro!: arg_cong [of _ _ sum_list] map_cong)
qed simp

section \<open>New addresses\<close>

text \<open>The pointers of \<open>hs'\<close> are pointers of \<open>hs\<close> or new ones, from \<open>n\<close> up to the next free address \<open>n'\<close>.\<close>

definition new_from :: "nat \<Rightarrow> nat \<Rightarrow> sptr list \<Rightarrow> sptr list \<Rightarrow> bool" where
  "new_from n n' hs hs' \<longleftrightarrow> n \<le> n' \<and> fst ` set hs' \<subseteq> fst ` set hs \<union> {n..<n'}"

lemma new_from_refl: "new_from n n hs hs"
  by (simp add: new_from_def)

lemma new_from_trans: "new_from n n' hs hs' \<Longrightarrow> new_from n' n'' hs' hs'' \<Longrightarrow> new_from n n'' hs hs''"
proof -
  assume a: "new_from n n' hs hs'" "new_from n' n'' hs' hs''"
  then have "{n..<n'} \<union> {n'..<n''} = {n..<n''}" by (simp add: new_from_def ivl_disj_un_two)
  moreover have "fst ` set hs'' \<subseteq> fst ` set hs \<union> ({n..<n'} \<union> {n'..<n''})" using a unfolding new_from_def by blast
  moreover have "n \<le> n''" using a by (simp add: new_from_def)
  ultimately show ?thesis by (simp add: new_from_def)
qed

lemma level_step_new:
  "level_step gh nc back (hs, c, n) j = Inr (hs', c', n') \<Longrightarrow> new_from n n' hs hs'"
  by (auto simp: level_step_def Let_def bindE_eq_Inr new_from_def split: if_splits)

lemma level_fold_new:
  "foldE (level_step gh nc back) (hs, c, n) js = Inr (hs', c', n') \<Longrightarrow> new_from n n' hs hs'"
proof (induction js arbitrary: hs c n)
  case (Cons j js)
  then obtain h1 c1 n1 where "level_step gh nc back (hs, c, n) j = Inr (h1, c1, n1)"
    "foldE (level_step gh nc back) (h1, c1, n1) js = Inr (hs', c', n')"
    by (auto simp: bindE_eq_Inr)
  then show ?case using Cons.IH level_step_new new_from_trans by blast
qed (simp add: new_from_refl)

lemma upper_levels_new:
  "upper_levels gh i hs per nc n = Inr (hs', per', n') \<Longrightarrow> new_from n n' hs hs'"
proof (induction i arbitrary: hs per nc n)
  case (Suc i)
  then obtain h1 c1 n1 where "foldE (level_step gh nc (last per)) (hs, 0, n) [0..<2 ^ i] = Inr (h1, c1, n1)"
    "upper_levels gh i h1 (per @ [c1]) (nc + last per) n1 = Inr (hs', per', n')"
    by (auto simp: bindE_eq_Inr)
  then show ?case using Suc.IH level_fold_new new_from_trans by blast
qed (simp add: new_from_refl)

lemma sort_insert_set: "sort_insert lt x ys = Inr zs \<Longrightarrow> set zs = insert x (set ys)"
  by (induction ys arbitrary: zs) (auto simp: bindE_eq_Inr split: if_splits)

lemma std_sort_set: "std_sort lt xs = Inr ys \<Longrightarrow> set ys = set xs"
  unfolding std_sort_def
  by (induction xs arbitrary: ys rule: rev_induct) (auto simp: foldE_snoc bindE_eq_Inr dest!: sort_insert_set)

lemma unique_ptrs_set: "set (unique_ptrs xs) \<subseteq> set xs"
  by (induction xs rule: unique_ptrs.induct) auto

lemma makeHashTree_new: "makeHashTree gh n ps = Inr (t, n') \<Longrightarrow> new_from n n' ps (ht_hashes t)"
proof -
  assume m: "makeHashTree gh n ps = Inr (t, n')"
  then obtain ss where ss: "std_sort hashSharedPointerLessThanFunctor ps = Inr ss" by (auto simp: makeHashTree_def bindE_eq_Inr)
  have ps: "new_from n n ps (unique_ptrs ss)"
    using unique_ptrs_set [of ss] std_sort_set [OF ss] by (auto simp: new_from_def)
  show ?thesis
  proof (cases "unique_ptrs ss = []")
    case True
    then show ?thesis using m by (auto simp: makeHashTree_def ss Let_def new_from_def bindE_eq_Inr split: if_splits)
  next
    case False
    then obtain d pl where "upper_levels gh d (unique_ptrs ss) [length (unique_ptrs ss)] 0 n = Inr (ht_hashes t, pl, n')"
      using m by (auto simp: makeHashTree_def ss Let_def bindE_eq_Inr split: if_splits)
    then show ?thesis using upper_levels_new new_from_trans ps by blast
  qed
qed

section \<open>Filling a directory\<close>

lemma sort_by_snd: "map snd (sort_by key_less ps) = sort_by (\<lambda>a b. digest_less (digest a) (digest b)) (map snd ps)"
  using map_sort_by [of snd "\<lambda>a b. digest_less (digest a) (digest b)" ps] by (simp add: key_less_def [abs_def] key_def)

lemma file_hash_text_child:
  "file_hash_text p (p @ ''/'' @ n) n t = Inr (n @ ''/'' @ dec t)"
  by (simp add: file_hash_text_def)

lemma Hash_string_filled: "\<forall>s. length (gh s) = 64 \<Longrightarrow> filled (Hash_string gh s)"
  by (simp add: filled_def hash_ok_def Hash_string_def makeHash_def hash_len)

lemma file_digests_filled: "\<forall>s. length (gh s) = 64 \<Longrightarrow> list_all filled (file_digests gh cs)"
  by (induction gh cs rule: file_digests.induct) (auto simp: file_digest_def Hash_string_filled)

lemma process_file:
  assumes "shows_node api fs (child_path p (FFile n t)) (FFile n t)" "dir_path (fs_dir st) = p"
  shows "\<exists>es. processDirectoryEntry gh api fs (child_path p (FFile n t)) st =
     Some (Inr (st\<lparr>fs_hashes := fs_hashes st @ [(fs_next st, file_digest gh n t)], fs_next := Suc (fs_next st),
       fs_dir := (fs_dir st)\<lparr>dir_entries := es\<rparr>\<rparr>))"
  using assms
  by (subst processDirectoryEntry.simps)
    (simp add: child_path_def processRegularFileEntry_def file_hash_text_child [simplified] symlink_file_def file_digest_def Let_def,
      blast)

lemma process_dir:
  assumes "shows_node api fs q (FDir n ds)"
  shows "processDirectoryEntry gh api fs q st = Some (Inr (st\<lparr>fs_dirs := fs_dirs st @ [q]\<rparr>))"
  using assms by (subst processDirectoryEntry.simps) (simp add: symlink_file_def)

lemma process_nodes:
  assumes "list_all (\<lambda>c. shows_node api fs (child_path p c) c) cs" "dir_path (fs_dir st) = p"
  shows "\<exists>es. process_entries gh api fs (map (child_path p) cs) st =
     Some (Inr (st\<lparr>fs_hashes := fs_hashes st @ alloc (fs_next st) (file_digests gh cs),
       fs_dirs := fs_dirs st @ map (child_path p) (filter is_dir cs),
       fs_next := fs_next st + length (file_digests gh cs), fs_dir := (fs_dir st)\<lparr>dir_entries := es\<rparr>\<rparr>))"
  using assms
proof (induction gh cs arbitrary: st rule: file_digests.induct)
  case (1 gh)
  have "st\<lparr>fs_hashes := fs_hashes st, fs_dirs := fs_dirs st, fs_next := fs_next st,
      fs_dir := (fs_dir st)\<lparr>dir_entries := dir_entries (fs_dir st)\<rparr>\<rparr> = st" by simp
  then show ?case by (intro exI [of _ "dir_entries (fs_dir st)"]) (simp add: alloc_def)
next
  case (2 gh n t cs)
  obtain es where e: "processDirectoryEntry gh api fs (child_path p (FFile n t)) st =
     Some (Inr (st\<lparr>fs_hashes := fs_hashes st @ [(fs_next st, file_digest gh n t)], fs_next := Suc (fs_next st),
       fs_dir := (fs_dir st)\<lparr>dir_entries := es\<rparr>\<rparr>))" (is "_ = Some (Inr ?st)")
    using process_file [of api fs p n t st gh] 2(2,3) by auto
  have "alloc k (h # hs) = (k, h) # alloc (Suc k) hs" for k h and hs :: "hash list" by (simp add: alloc_def upt_rec)
  with 2(1) [of ?st] 2(2,3) e show ?case by (auto simp del: shows_node.simps)
next
  case (3 gh n ds cs)
  have e: "processDirectoryEntry gh api fs (child_path p (FDir n ds)) st =
      Some (Inr (st\<lparr>fs_dirs := fs_dirs st @ [child_path p (FDir n ds)]\<rparr>))" (is "_ = Some (Inr ?st)")
    using 3(2) by (intro process_dir [of _ _ _ n ds]) simp
  with 3(1) [of ?st] 3(2,3) show ?case by (auto simp del: shows_node.simps)
qed

lemma makeHashTree_root:
  assumes "\<forall>s. length (gh s) = 64" "list_all filled hs" "distinct (map fst ps)" "map snd ps = hs"
    "length hs \<le> 2 ^ 29"
  shows "\<exists>t nxt'. makeHashTree gh nxt ps = Inr (t, nxt') \<and>
     getString (getTopHash t) = (if hs = [] then [] else getString (root_hash gh hs)) \<and>
     (hs \<noteq> [] \<longrightarrow> getTopHash t = root_hash gh hs)"
proof (cases "hs = []")
  case True
  then have "ps = []" using assms(4) by simp
  then show ?thesis using True
    by (auto simp: makeHashTree_def std_sort_def getTopHash_def getString_def Hash_default_def depth_loop.simps INT_MAX_def)
next
  case False
  have "all_filled ps"
    using assms(2) unfolding assms(4) [symmetric] by (simp add: all_filled_def list.pred_map comp_def)
  then have g: "good_leaves ps" using False assms(3,4) by (auto simp: good_leaves_def)
  obtain t n where m: "makeHashTree gh nxt ps = Inr (t, n)"
    using makeHashTree_filled [of ps gh nxt] g assms(4,5) by (auto simp: good_leaves_def)
  then have "tree_of gh ps t" by (auto simp: tree_of_def)
  from tree_of_facts(4) [OF this g] m False show ?thesis
    using assms(4) by (auto simp: root_hash_def sort_by_snd)
qed

lemma fillDirectory_node:
  assumes "\<forall>s. length (gh s) = 64" "shows_node api fs p (FDir n cs)" "files_fit (FDir n cs)"
  shows "\<exists>d nxt'. fillDirectory gh api fs nxt p [] (Directory_default ptr) =
       Some (Inr (d, map (child_path p) (filter is_dir cs), nxt')) \<and>
     dir_path d = p \<and> dir_hash d = (ptr, dir_digest gh n cs) \<and> nxt \<le> nxt'"
proof -
  let ?hs = "file_digests gh cs"
  let ?st = "\<lparr>fs_dir = (Directory_default ptr)\<lparr>dir_path := p\<rparr>, fs_hashes = [], fs_dirs = [], fs_next = nxt\<rparr>"
  have c: "list_all (\<lambda>c. shows_node api fs (child_path p c) c) cs" using assms(2) by simp
  have d: "dir_path (fs_dir ?st) = p" by simp
  obtain es where e: "process_entries gh api fs (map (child_path p) cs) ?st =
      Some (Inr (?st\<lparr>fs_hashes := alloc nxt ?hs, fs_dirs := map (child_path p) (filter is_dir cs),
        fs_next := nxt + length ?hs, fs_dir := ((Directory_default ptr)\<lparr>dir_path := p\<rparr>)\<lparr>dir_entries := es\<rparr>\<rparr>))"
    using process_nodes [OF c d, of gh] by auto
  have "distinct (map fst (alloc nxt ?hs))" by (simp add: alloc_def)
  then obtain t n' where t: "makeHashTree gh (nxt + length ?hs) (alloc nxt ?hs) = Inr (t, n')"
    "getString (getTopHash t) = (if ?hs = [] then [] else getString (root_hash gh ?hs))"
    using makeHashTree_root [OF assms(1) file_digests_filled [OF assms(1)], of "alloc nxt ?hs" cs "nxt + length ?hs"] assms(3)
    by (auto simp: length_file_digests)
  have "nxt \<le> n'" using makeHashTree_new [OF t(1)] by (simp add: new_from_def)
  moreover have "makeHash gh x Hash_default = Hash_string gh x" for x by (simp add: Hash_string_def Hash_default_def)
  ultimately show ?thesis
    using assms(2) e t
    by (simp add: fillDirectory_def makeDirectoryHash_def dir_getPath_def Directory_default_def dir_digest_def Let_def)
qed

section \<open>Scanning a box\<close>

definition insert_all :: "('k \<times> 'v) list \<Rightarrow> ('k \<times> 'v) list \<Rightarrow> ('k \<times> 'v) list" where
  "insert_all m kvs = foldl (\<lambda>m (k, v). map_insert k v m) m kvs"

lemma insert_all_simps [simp]:
  "insert_all m [] = m" "insert_all m (kv # kvs) = insert_all (map_insert (fst kv) (snd kv) m) kvs"
  "insert_all m (xs @ ys) = insert_all (insert_all m xs) ys"
  by (simp_all add: insert_all_def split_def)

lemma map_insert_image:
  "map (\<lambda>(k, v). (k, f v)) (map_insert k v m) = map_insert k (f v) (map (\<lambda>(k, v). (k, f v)) m)"
  by (simp add: map_insert_def map_of_map)

definition entry_paths :: "(string \<times> directory) list \<Rightarrow> (string \<times> string) list" where
  "entry_paths m = map (\<lambda>(k, d). (k, dir_path d)) m"

text \<open>The scan went from \<open>sc\<close> to \<open>sc'\<close> over the directories \<open>ds\<close>.\<close>

definition scanned :: "(string \<times> hash) list \<Rightarrow> scan \<Rightarrow> scan \<Rightarrow> bool" where
  "scanned ds sc sc' \<longleftrightarrow> sc_next sc \<le> sc_next sc' \<and>
    (\<exists>hs. sc_hashes sc' = sc_hashes sc @ hs \<and> map snd hs = map snd ds \<and> distinct (map fst hs) \<and>
       fst ` set hs \<subseteq> {sc_next sc..<sc_next sc'}) \<and>
    entry_paths (sc_entries sc') = insert_all (entry_paths (sc_entries sc)) (map (\<lambda>(p, h). (getString h, p)) ds)"

lemma scanned_nil: "scanned [] sc sc"
  by (simp add: scanned_def)

lemma scanned_trans:
  assumes "scanned ds sc sc'" "scanned es sc' sc''"
  shows "scanned (ds @ es) sc sc''"
proof -
  obtain hs where hs: "sc_hashes sc' = sc_hashes sc @ hs" "map snd hs = map snd ds" "distinct (map fst hs)"
    "fst ` set hs \<subseteq> {sc_next sc..<sc_next sc'}" using assms(1) by (auto simp: scanned_def)
  obtain ks where ks: "sc_hashes sc'' = sc_hashes sc' @ ks" "map snd ks = map snd es" "distinct (map fst ks)"
    "fst ` set ks \<subseteq> {sc_next sc'..<sc_next sc''}" using assms(2) by (auto simp: scanned_def)
  have n: "sc_next sc \<le> sc_next sc'" "sc_next sc' \<le> sc_next sc''" using assms by (auto simp: scanned_def)
  have "fst ` set hs \<inter> fst ` set ks = {}" using hs(4) ks(4) by fastforce
  moreover have "fst ` set (hs @ ks) \<subseteq> {sc_next sc..<sc_next sc''}" using hs(4) ks(4) n by (auto simp: subset_iff)
  ultimately have "\<exists>gs. sc_hashes sc'' = sc_hashes sc @ gs \<and> map snd gs = map snd (ds @ es) \<and> distinct (map fst gs) \<and>
       fst ` set gs \<subseteq> {sc_next sc..<sc_next sc''}"
    using hs(1-3) ks(1-3) by (intro exI [of _ "hs @ ks"]) simp
  then show ?thesis using assms n by (simp add: scanned_def)
qed

lemma scanned_add:
  assumes "dir_path d = p" "dir_hash d = (sc_next sc, h)" "Suc (sc_next sc) \<le> nxt"
  shows "scanned [(p, h)] sc (scan_add d nxt sc)"
  using assms by (auto simp: scanned_def scan_add_def entry_paths_def map_insert_image)

lemma size_dirs: "sum_list (map size (filter is_dir cs)) \<le> size_list size cs"
  by (induction cs) auto

lemma dirs_in_children:
  "concat (map (\<lambda>(q, c). dirs_in gh q c) (map (\<lambda>c. (child_path p c, c)) (filter is_dir cs))) =
     concat (map (\<lambda>c. dirs_in gh (child_path p c) c) cs)"
proof (induction cs)
  case (Cons c cs)
  then show ?case by (cases c) auto
qed simp

lemma recursive_scan:
  assumes gh: "\<forall>s. length (gh s) = 64"
  shows "list_all (\<lambda>(q, c). is_dir c \<and> shows_node api fs q c \<and> files_fit c) qs \<Longrightarrow>
     \<exists>sc'. recursiveDirectoryFill gh api fs (map fst qs) sc = Some (Inr sc') \<and>
       scanned (concat (map (\<lambda>(q, c). dirs_in gh q c) qs)) sc sc'"
proof (induction "sum_list (map (\<lambda>(q, c). size c) qs)" arbitrary: qs sc rule: less_induct)
  case less
  show ?case
  proof (cases qs)
    case Nil
    then show ?thesis by (subst recursiveDirectoryFill.simps) (simp add: scanned_nil)
  next
    case (Cons qc rest)
    obtain p c where qc: "qc = (p, c)" by (cases qc)
    then obtain n cs where c: "c = FDir n cs" using less.prems Cons by (cases c) auto
    have s: "shows_node api fs p (FDir n cs)" and fit: "files_fit (FDir n cs)" using less.prems Cons qc c by simp_all
    let ?ch = "map (\<lambda>c. (child_path p c, c)) (filter is_dir cs)"
    obtain d nxt where f: "fillDirectory gh api fs (Suc (sc_next sc)) p [] (Directory_default (sc_next sc)) =
         Some (Inr (d, map (child_path p) (filter is_dir cs), nxt))"
      "dir_path d = p" "dir_hash d = (sc_next sc, dir_digest gh n cs)" "Suc (sc_next sc) \<le> nxt"
      using fillDirectory_node [OF gh s fit, of "Suc (sc_next sc)" "sc_next sc"] by blast
    note add = scanned_add [OF f(2-4)]
    have l: "list_all (\<lambda>(q, c). is_dir c \<and> shows_node api fs q c \<and> files_fit c) ?ch"
      using s fit by (auto simp: list_all_iff)
    have m: "map fst ?ch = map (child_path p) (filter is_dir cs)" by simp
    have sz: "sum_list (map (\<lambda>(q, c). size c) ?ch) = sum_list (map size (filter is_dir cs))" by (simp add: comp_def)
    have "sum_list (map (\<lambda>(q, c). size c) ?ch) < sum_list (map (\<lambda>(q, c). size c) qs)"
      using size_dirs [of cs] Cons qc c unfolding sz by simp
    from less.hyps [OF this l, of "scan_add d nxt sc"] obtain sc1 where
      r1: "recursiveDirectoryFill gh api fs (map (child_path p) (filter is_dir cs)) (scan_add d nxt sc) = Some (Inr sc1)"
      "scanned (concat (map (\<lambda>(q, c). dirs_in gh q c) ?ch)) (scan_add d nxt sc) sc1" unfolding m by blast
    have "sum_list (map (\<lambda>(q, c). size c) rest) < sum_list (map (\<lambda>(q, c). size c) qs)" using Cons qc c by simp
    from less.hyps [OF this, of sc1] less.prems Cons obtain sc2 where
      r2: "recursiveDirectoryFill gh api fs (map fst rest) sc1 = Some (Inr sc2)"
      "scanned (concat (map (\<lambda>(q, c). dirs_in gh q c) rest)) sc1 sc2" by auto
    have "recursiveDirectoryFill gh api fs (map fst qs) sc = Some (Inr sc2)"
      using Cons qc f(1) r1(1) r2(1) by (subst recursiveDirectoryFill.simps) simp
    moreover have "scanned (concat (map (\<lambda>(q, c). dirs_in gh q c) qs)) sc sc2"
      using scanned_trans [OF scanned_trans [OF add r1(2)] r2(2)] Cons qc c unfolding dirs_in_children by simp
    ultimately show ?thesis by blast
  qed
qed

lemma dirs_in_filled: "\<forall>s. length (gh s) = 64 \<Longrightarrow> list_all filled (map snd (dirs_in gh p c))"
  by (induction gh p c rule: dirs_in.induct) (auto simp: list_all_iff dir_digest_def Let_def Hash_string_filled)

lemma box_scan:
  assumes gh: "\<forall>s. length (gh s) = 64" and s: "shows_node api fs p (FDir n cs)" and fit: "tree_fits (FDir n cs)"
  defines "ds \<equiv> dirs_in gh p (FDir n cs)"
  shows "\<exists>b nxt'. Box_new gh api fs nxt p hash_bytes = Some (Inr (b, nxt')) \<and> box_path b = p \<and>
     getTopHash (box_hash_tree b) = root_hash gh (map snd ds) \<and>
     entry_paths (box_entries b) = insert_all [] (map (\<lambda>(p, h). (getString h, p)) ds) \<and>
     ht_hashes (box_hash_tree b) \<noteq> [] \<and> fst ` set (ht_hashes (box_hash_tree b)) \<subseteq> {nxt..<nxt'}"
proof -
  let ?sc = "\<lparr>sc_entries = [], sc_hashes = [], sc_next = nxt\<rparr>"
  let ?ch = "map (\<lambda>c. (child_path p c, c)) (filter is_dir cs)"
  obtain d nxt1 where f: "fillDirectory gh api fs (Suc nxt) p [] (Directory_default nxt) =
       Some (Inr (d, map (child_path p) (filter is_dir cs), nxt1))"
    "dir_path d = p" "dir_hash d = (nxt, dir_digest gh n cs)" "Suc nxt \<le> nxt1"
    using fillDirectory_node [OF gh s fit [unfolded tree_fits_def, THEN conjunct1]] by blast
  have add: "scanned [(p, dir_digest gh n cs)] ?sc (scan_add d nxt1 ?sc)"
    using f(2-4) by (intro scanned_add) simp_all
  have sa: "scan_add d nxt1 \<lparr>sc_entries = [], sc_hashes = [], sc_next = nxt1\<rparr> = scan_add d nxt1 ?sc"
    by (simp add: scan_add_def)
  have l: "list_all (\<lambda>(q, c). is_dir c \<and> shows_node api fs q c \<and> files_fit c) ?ch"
    using s fit by (auto simp: list_all_iff tree_fits_def)
  have m: "map fst ?ch = map (child_path p) (filter is_dir cs)" by simp
  obtain sc where r: "recursiveDirectoryFill gh api fs (map (child_path p) (filter is_dir cs)) (scan_add d nxt1 ?sc) = Some (Inr sc)"
    "scanned (concat (map (\<lambda>(q, c). dirs_in gh q c) ?ch)) (scan_add d nxt1 ?sc) sc"
    using recursive_scan [OF gh l] unfolding m by blast
  have "scanned ds ?sc sc"
    using scanned_trans [OF add r(2)] unfolding dirs_in_children by (simp add: ds_def)
  then have sc: "map snd (sc_hashes sc) = map snd ds" "distinct (map fst (sc_hashes sc))"
    "fst ` set (sc_hashes sc) \<subseteq> {nxt..<sc_next sc}" "nxt \<le> sc_next sc"
    "entry_paths (sc_entries sc) = insert_all [] (map (\<lambda>(p, h). (getString h, p)) ds)"
    by (auto simp: scanned_def entry_paths_def)
  have ne: "map snd ds \<noteq> []" by (simp add: ds_def)
  have fl: "list_all filled (map snd ds)" unfolding ds_def by (rule dirs_in_filled [OF gh])
  obtain t nxt' where t: "makeHashTree gh (sc_next sc) (sc_hashes sc) = Inr (t, nxt')"
    "getTopHash t = root_hash gh (map snd ds)"
    using makeHashTree_root [OF gh fl sc(2,1), of "sc_next sc"] ne fit
    by (auto simp: ds_def length_dirs_in tree_fits_def simp del: dirs_in.simps)
  have "good_leaves (sc_hashes sc)"
    using fl sc(1,2) ne unfolding good_leaves_def all_filled_def
    by (metis (no_types, lifting) list.map_disc_iff list.pred_map list_all_cong comp_apply)
  then have "ht_hashes t \<noteq> []" using t(1) by (intro tree_of_facts(7)) (auto simp: tree_of_def)
  moreover have "new_from nxt (sc_next sc) [] (sc_hashes sc)" using sc(3,4) by (simp add: new_from_def)
  then have "new_from nxt nxt' [] (ht_hashes t)" using makeHashTree_new [OF t(1)] by (rule new_from_trans)
  then have "fst ` set (ht_hashes t) \<subseteq> {nxt..<nxt'}" by (simp add: new_from_def)
  ultimately show ?thesis using f(1) r(1) t sc(5) by (simp add: Box_new_def sa)
qed

lemma root_hash_mset:
  assumes "list_all filled hs" "list_all filled ks" "mset hs = mset ks"
  shows "root_hash gh hs = root_hash gh ks"
proof -
  let ?p = "map (Pair 0) hs" and ?q = "map (Pair 0) ks"
  have k: "map key (map (Pair 0) xs) = map digest xs" for xs by (simp add: key_def)
  have "mset (map key ?p) = mset (map key ?q)" unfolding k using assms(3) by (metis mset_map)
  then have "map snd (sort_by key_less ?p) = map snd (sort_by key_less ?q)"
    using assms(1,2) by (intro sorted_leaves_by_mset) (auto simp: all_filled_def list_all_iff)
  then show ?thesis by (simp add: root_hash_def sort_by_snd comp_def)
qed

lemma file_digests_mset: "mset (file_digests gh cs) =
    image_mset (\<lambda>c. case c of FFile n t \<Rightarrow> file_digest gh n t | FDir n ds \<Rightarrow> Hash_default) (filter_mset (\<lambda>c. \<not> is_dir c) (mset cs))"
  by (induction gh cs rule: file_digests.induct) auto

lemma dir_digest_mset:
  assumes "\<forall>s. length (gh s) = 64" "mset cs = mset cs'"
  shows "dir_digest gh n cs = dir_digest gh n cs'"
proof -
  have m: "mset (file_digests gh cs) = mset (file_digests gh cs')" using assms(2) by (simp add: file_digests_mset)
  then have "file_digests gh cs = [] \<longleftrightarrow> file_digests gh cs' = []" by (metis mset_zero_iff)
  then show ?thesis
    using root_hash_mset [OF file_digests_filled [OF assms(1)] file_digests_filled [OF assms(1)] m] by (simp add: dir_digest_def)
qed

lemma dir_digest_filled: "\<forall>s. length (gh s) = 64 \<Longrightarrow> filled (dir_digest gh n cs)"
  by (simp add: dir_digest_def Hash_string_filled Let_def)

lemma hash_equal_refl: "filled h \<Longrightarrow> hash_equal h h = Inr True"
proof -
  have "memcmp s s k = 0" for s k by (induction s s k rule: memcmp.induct) auto
  then show "filled h \<Longrightarrow> hash_equal h h = Inr True"
    using filled_cases [of h] by (simp add: hash_equal_def compare_guard_def getBytes_def)
qed

lemma insert_all_keys: "set (map fst (insert_all m kvs)) = set (map fst m) \<union> set (map fst kvs)"
proof (induction kvs arbitrary: m)
  case (Cons kv kvs)
  have "set (map fst (map_insert k v m)) = insert k (set (map fst m))" for k v
    by (auto simp: map_insert_def map_of_eq_None_iff image_iff)
  with Cons show ?case by simp
qed simp

lemma insert_all_values: "set (map snd (insert_all m kvs)) \<subseteq> set (map snd m) \<union> set (map snd kvs)"
proof (induction kvs arbitrary: m)
  case (Cons kv kvs)
  have "set (map snd (map_insert k v m)) \<subseteq> insert v (set (map snd m))" for k v by (auto simp: map_insert_def)
  with Cons [of "map_insert (fst kv) (snd kv) m"] show ?case unfolding insert_all_simps list.map list.set by blast
qed simp

section \<open>A small file system\<close>

text \<open>For concrete inputs: one directory \<^verbatim>\<open>/b\<close> with a file and two empty directories of the same name
  further down, and a link to itself.\<close>

definition sample_tree :: fnode where
  "sample_tree = FDir ''b'' [FFile ''a'' 5, FDir ''p'' [FDir ''x'' []], FDir ''q'' [FDir ''x'' []]]"

definition tree_api :: "unit dir_api" where
  "tree_api =
    \<lparr>dir_iterator = (\<lambda>_ p. if p = ''/b'' then Inr [''/b/a'', ''/b/p'', ''/b/q''] else if p = ''/b/p'' then Inr [''/b/p/x'']
        else if p = ''/b/q'' then Inr [''/b/q/x''] else Inr []),
     dir_symlink_type = (\<lambda>_ p. Inr (if p = ''/l'' then 4 else if p = ''/b/a'' then 2 else 3)),
     dir_read_symlink = (\<lambda>_ p. Inr p),
     dir_is_directory = (\<lambda>_ p. Inr (p \<noteq> ''/b/a'')),
     dir_is_regular_file = (\<lambda>_ p. Inr (p = ''/b/a'')),
     dir_last_write_time = (\<lambda>_ p. Inr 5),
     dir_filename = (\<lambda>p. rev (takeWhile (\<lambda>c. c \<noteq> CHR ''/'') (rev p)))\<rparr>"

lemma tree_api_shows: "shows_node tree_api () ''/b'' sample_tree"
  by (simp add: tree_api_def sample_tree_def child_path_def)

lemma sample_tree_fits: "tree_fits sample_tree"
  by (simp add: tree_fits_def sample_tree_def)

section \<open>Properties\<close>

text \<open>C32. The scan of a box is the scan of its tree: when the file system shows a tree of files and
  directories below the base path, with at most $2^{29}$ files in each directory and at most
  $2^{29}$ directories (beyond that a hash tree cannot be built, see C11), the constructor of the box returns, its top hash is the root of the Merkle
  tree over the hashes of all directories, and of the directories with the same hash text it keeps the
  first, with its path.\<close>

theorem box_scan_reference:
  assumes "\<forall>s. length (gh s) = 64" "shows_node api fs p (FDir n cs)" "tree_fits (FDir n cs)"
  shows "\<exists>b nxt'. Box_new gh api fs nxt p hash_bytes = Some (Inr (b, nxt')) \<and> getBaseDir b = p \<and>
     getTopHash (box_hash_tree b) = root_hash gh (map snd (dirs_in gh p (FDir n cs))) \<and>
     map (\<lambda>(k, d). (k, getAbsolutePath d)) (box_entries b) =
       insert_all [] (map (\<lambda>(q, h). (getString h, q)) (dirs_in gh p (FDir n cs)))"
  using box_scan [OF assms, of nxt hash_bytes] by (auto simp: getBaseDir_def getAbsolutePath_def entry_paths_def)

theorem box_scan_reference_witness:
  "\<exists>b nxt'. Box_new sample_hash tree_api () 0 ''/b'' [] = Some (Inr (b, nxt')) \<and>
     getTopHash (box_hash_tree b) = root_hash sample_hash (map snd (dirs_in sample_hash ''/b'' sample_tree))"
  using box_scan_reference [of sample_hash tree_api "()" "''/b''" "''b''"
      "[FFile ''a'' 5, FDir ''p'' [FDir ''x'' []], FDir ''q'' [FDir ''x'' []]]" 0 "[]"]
    tree_api_shows sample_tree_fits length_sample_hash unfolding sample_tree_def by blast

text \<open>C33. Following symbolic links ends exactly when the chain of links ends: an entry is processed, with
  whatever result, unless links are followed and every link of the chain can be read and leads to
  another link. A link to itself, or a circle of links, is never left.\<close>

theorem symlink_chain_termination:
  "processDirectoryEntry gh api fs entry st = None \<longleftrightarrow>
     dir_symlinks (fs_dir st) = F_SYMLINK_FOLLOW \<and> (\<forall>n. follow_n api fs n entry \<noteq> None)"
proof (cases "processDirectoryEntry gh api fs entry st")
  case None
  then have "dir_symlinks (fs_dir st) = F_SYMLINK_FOLLOW"
    using processDirectoryEntry_stops [of st api fs entry gh] by auto
  moreover have "follow_n api fs n entry \<noteq> None" for n using follow_n_returns [of api fs n entry gh st] None by auto
  ultimately show ?thesis using None by simp
next
  case (Some r)
  then show ?thesis using returns_follow_n [OF Some] by auto
qed

text \<open>The order in which a directory lists its entries does not matter: two scans of the same entries,
  listed in any order, yield directories that compare as unchanged.\<close>

lemma directory_listing_order:
  assumes "\<forall>s. length (gh s) = 64" "shows_node api fs p (FDir n cs)" "shows_node api' fs' p' (FDir n cs')" "mset cs = mset cs'"
    "files_fit (FDir n cs)"
  shows "\<exists>d nxt1 d' nxt2. Directory_path gh api fs nxt p = Some (Inr (d, nxt1)) \<and>
     Directory_path gh api' fs' nxt' p' = Some (Inr (d', nxt2)) \<and> checkDirectoryChange d d' = Inr False"
proof -
  have fit': "files_fit (FDir n cs')"
    using assms(4,5) mset_eq_setD [OF assms(4)] mset_eq_length [of "filter (\<lambda>c. \<not> is_dir c) cs" "filter (\<lambda>c. \<not> is_dir c) cs'"]
    by (simp add: list_all_iff)
  have q: "fillDirectory g a f k r [] (x\<lparr>dir_path := y\<rparr>) = fillDirectory g a f k r [] x" for g a f k r y x
    by (cases "dir_iterator a f r") (simp_all add: fillDirectory_def)
  obtain d n1 where d: "Directory_path gh api fs nxt p = Some (Inr (d, n1))" "dir_hash d = (nxt, dir_digest gh n cs)"
    using fillDirectory_node [OF assms(1,2,5), of "Suc nxt" nxt] by (auto simp: Directory_path_def q)
  obtain d' n2 where d': "Directory_path gh api' fs' nxt' p' = Some (Inr (d', n2))" "dir_hash d' = (nxt', dir_digest gh n cs')"
    using fillDirectory_node [OF assms(1,3) fit', of "Suc nxt'" nxt'] by (auto simp: Directory_path_def q)
  have "checkDirectoryChange d d' = Inr False"
    using d(2) d'(2) dir_digest_mset [OF assms(1,4), of n] hash_equal_refl [OF dir_digest_filled [OF assms(1)]]
    by (simp add: checkDirectoryChange_def)
  with d(1) d'(1) show ?thesis by blast
qed

text \<open>A box that is scanned again counts as changed although nothing changed: its top hash is the
  same, yet \<open>checkBoxChange\<close> compares the pointers to the top hashes and reports a change, while
  \<open>getChangedDirHashes\<close>, which compares the hashes, reports none.\<close>

lemma rescan_counts_as_change:
  assumes "\<forall>s. length (gh s) = 64" "shows_node api fs p (FDir n cs)" "tree_fits (FDir n cs)"
  shows "\<exists>b nxt1 b' nxt2. Box_new gh api fs nxt p hash_bytes = Some (Inr (b, nxt1)) \<and>
     Box_new gh api fs nxt1 p hash_bytes = Some (Inr (b', nxt2)) \<and>
     getTopHash (box_hash_tree b) = getTopHash (box_hash_tree b') \<and>
     checkBoxChange b' b = True \<and> checkBoxChange b b = False \<and> getChangedDirHashes b' b old = Inr (False, old)"
proof -
  obtain b n1 where b: "Box_new gh api fs nxt p hash_bytes = Some (Inr (b, n1))"
    "getTopHash (box_hash_tree b) = root_hash gh (map snd (dirs_in gh p (FDir n cs)))"
    "ht_hashes (box_hash_tree b) \<noteq> []" "fst ` set (ht_hashes (box_hash_tree b)) \<subseteq> {nxt..<n1}"
    using box_scan [OF assms] by blast
  obtain b' n2 where b': "Box_new gh api fs n1 p hash_bytes = Some (Inr (b', n2))"
    "getTopHash (box_hash_tree b') = root_hash gh (map snd (dirs_in gh p (FDir n cs)))"
    "ht_hashes (box_hash_tree b') \<noteq> []" "fst ` set (ht_hashes (box_hash_tree b')) \<subseteq> {n1..<n2}"
    using box_scan [OF assms, of n1] by blast
  have "fst (last (ht_hashes (box_hash_tree b))) \<in> {nxt..<n1}" "fst (last (ht_hashes (box_hash_tree b'))) \<in> {n1..<n2}"
    using b(3,4) b'(3,4) last_in_set by blast+
  then have "checkBoxChange b' b = True" by (auto simp: checkBoxChange_def Let_def)
  moreover have "checkBoxChange b b = False" using b(3) by (simp add: checkBoxChange_def)
  moreover have "getChangedDirHashes b' b old = Inr (False, old)"
    using b(2,3) b'(2,3) by (simp add: getChangedDirHashes_def getChangedHashes_def checkHashTreeChange_def getTopHash_def)
  ultimately show ?thesis using b(1,2) b'(1,2) by auto
qed

end
