(* ===== verification/Box.thy ===== *)
theory Box
  imports Transport_Laws Directory_Laws
begin

text \<open>
  The thread of a \<^verbatim>\<open>Box\<close> (\<^verbatim>\<open>src/box.cpp\<close>): one inotify watch per directory of the scan, and the
  loop that turns inotify events into messages for the router; and the end of the loops of all
  threads. \<^verbatim>\<open>inotify_add_watch\<close> is a
  parameter, a function from paths to watch descriptors.
\<close>

section \<open>Watches\<close>

definition add_watches :: "(string \<Rightarrow> int) \<Rightarrow> box \<Rightarrow> box" where
  "add_watches watch b =
    b\<lparr>box_watch_descriptors :=
        foldl (\<lambda>m (k, d). map_insert (watch (getAbsolutePath d)) d m) (box_watch_descriptors b) (box_entries b)\<rparr>"

definition getPathOfDirectory :: "box \<Rightarrow> int \<Rightarrow> string result" where
  "getPathOfDirectory b wd =
    (case map_of (box_watch_descriptors b) wd of
       None \<Rightarrow> Inl Out_of_range
     | Some d \<Rightarrow> substrE (length (getBaseDir b)) (getAbsolutePath d))"

definition getAbsolutePathOfDirectory :: "box \<Rightarrow> int \<Rightarrow> string result" where
  "getAbsolutePathOfDirectory b wd =
    (case map_of (box_watch_descriptors b) wd of None \<Rightarrow> Inl Out_of_range | Some d \<Rightarrow> Inr (getAbsolutePath d))"

section \<open>Events\<close>

definition IN_MODIFY :: int where "IN_MODIFY = 0x2"
definition IN_ATTRIB :: int where "IN_ATTRIB = 0x4"
definition IN_MOVE :: int where "IN_MOVE = 0xC0"
definition IN_CREATE :: int where "IN_CREATE = 0x100"
definition IN_DELETE_SELF :: int where "IN_DELETE_SELF = 0x400"
definition IN_MOVE_SELF :: int where "IN_MOVE_SELF = 0x800"

lemmas in_defs = IN_MODIFY_def IN_ATTRIB_def IN_MOVE_def IN_CREATE_def IN_DELETE_def IN_DELETE_SELF_def IN_MOVE_SELF_def

text \<open>The status of a mask; \<open>None\<close>: the variable is not assigned.\<close>

definition event_status :: "int \<Rightarrow> status_t option" where
  "event_status inotify_mask =
    (if and inotify_mask IN_MODIFY = IN_MODIFY \<or> and inotify_mask IN_MOVE = IN_MOVE \<or> and inotify_mask IN_MOVE_SELF = IN_MOVE_SELF
     then Some status_300
     else if and inotify_mask IN_CREATE = IN_CREATE \<or> and inotify_mask IN_ATTRIB = IN_ATTRIB \<or> and inotify_mask IN_DELETE = IN_DELETE
     then Some status_320
     else None)"

text \<open>One round of the loop; \<open>None\<close> when the call that receives blocks. \<open>junk\<close> is what the uninitialised
  watch descriptor holds.\<close>

definition box_step :: "box \<Rightarrow> int \<times> int \<Rightarrow> (inotify_event list option \<times> zmsg list \<times> zmsg option) \<times> int \<Rightarrow>
    ((int \<times> int) \<times> string list) option result option" where
  "box_step b vars i =
    (case i of ((events, broadcast, socket), junk) \<Rightarrow>
     case s_recv_in events broadcast socket of
       None \<Rightarrow> None
     | Some msg \<Rightarrow>
         Some (case read_signal vars msg of (v, s) \<Rightarrow>
           if is_interrupt v then Inr None
           else
             let (wd, s) = extract_int junk s; (name, s) = extract_word [] s; inotify_mask = snd v in
             bindE (getPathOfDirectory b wd) (\<lambda>dir_path.
             if and inotify_mask IN_DELETE_SELF \<noteq> IN_DELETE_SELF then
               (case event_status inotify_mask of
                  None \<Rightarrow> Inl Undefined_behaviour
                | Some status \<Rightarrow>
                    Inr (Some (v, [signal F_SIGTYPE_INOTIFY (status_code status) @ '' '' @ dec inotify_mask @ box_hash b @
                      '' '' @ dir_path @ ''/'' @ c_str name])))
             else Inr (Some (v, [])))))"

definition box_run :: "(string \<Rightarrow> int) \<Rightarrow> box \<Rightarrow> int \<times> int \<Rightarrow>
    ((inotify_event list option \<times> zmsg list \<times> zmsg option) \<times> int) list \<Rightarrow> (string list \<times> (int \<times> int) \<times> bool) result option" where
  "box_run watch b = run_loop (box_step (add_watches watch b))"

definition box_thread :: "(string \<Rightarrow> int) \<Rightarrow> box \<Rightarrow> int \<times> int \<Rightarrow>
    ((inotify_event list option \<times> zmsg list \<times> zmsg option) \<times> int) list \<Rightarrow> string list result option" where
  "box_thread watch b v is = thread (\<lambda>m. [m]) (box_run watch b v is)"

interpretation bx: worker "box_step b" "\<lambda>i. fst i = (None, [interrupt_signal], None)" for b
  using read_interrupt by unfold_locales (auto simp: box_step_def s_recv_in_def split_def Let_def)

section \<open>Lemmas\<close>

lemma inotify_message_eq:
  "0 \<le> im \<Longrightarrow> signal F_SIGTYPE_INOTIFY (status_code status) @ '' '' @ dec im @ h @ '' '' @ path =
     inotify_message status (nat im) h path"
  by (simp add: inotify_message_def dec_def)

text \<open>The first event of a batch, up to its name.\<close>

lemma inotify_text_first:
  "\<exists>t. inotify_text ((m, wd, name) # es) = dec_nat m @ '' '' @ dec wd @ '' '' @ name @ t \<and> (t = [] \<or> hd t = CHR 0x0A)"
  by (cases es) auto

lemma extract_word_first:
  assumes "list_all (\<lambda>c. \<not> is_space c) w" "w \<noteq> []" "t = [] \<or> is_space (hd t)"
  shows "fst (extract_word old (stream_at p (CHR '' '' # w @ t))) = w"
proof (cases t)
  case Nil
  then show ?thesis using extract_word_after_space [OF assms(1,2) space_no_digit(2)] by simp
next
  case (Cons b u)
  obtain c v where w: "w = c # v" using assms(2) by (cases w) auto
  have "skipws (stream_at p (CHR '' '' # w @ t)) = (True, stream_at (p @ '' '') (w @ t))"
    using assms(1) w skipws_space [OF space_no_digit(2), of c p "v @ t"] by simp
  moreover have "takeWhile (\<lambda>c. \<not> is_space c) (w @ b # u) = w" using assms Cons by (intro takeWhile_append_stop) auto
  ultimately show ?thesis using Cons by (simp add: extract_word_def Let_def)
qed

lemma read_event:
  assumes "m \<le> 2147483647" "0 \<le> wd" "wd \<le> 2147483647" "list_all (\<lambda>c. \<not> is_space c) name" "name \<noteq> []"
  shows "\<exists>s s'. read_signal vars (dec F_SIGTYPE_INOTIFY @ '' '' @ inotify_text ((m, wd, name) # es)) = ((F_SIGTYPE_INOTIFY, int m), s) \<and>
     extract_int junk s = (wd, s') \<and> fst (extract_word [] s') = name"
proof -
  obtain t where t: "inotify_text ((m, wd, name) # es) = dec_nat m @ '' '' @ dec wd @ '' '' @ name @ t" "t = [] \<or> hd t = CHR 0x0A"
    using inotify_text_first by blast
  let ?r = "CHR '' '' # name @ t"
  have d: "dec wd = dec_nat (nat wd)" "dec 3 = dec_nat 3" using assms(2) by (simp_all add: dec_def)
  have r: "read_signal vars (dec_nat 3 @ '' '' @ dec_nat m @ CHR '' '' # dec_nat (nat wd) @ ?r) =
      ((3, int m), stream_at (dec_nat 3 @ '' '' @ dec_nat m) (CHR '' '' # dec_nat (nat wd) @ ?r))"
    using read_signal_numbers [of 3 m "CHR '' ''" vars "dec_nat (nat wd) @ ?r"] assms(1) space_no_digit by simp
  have "extract_int junk (stream_at p (CHR '' '' # dec_nat (nat wd) @ ?r)) = (wd, stream_at (p @ CHR '' '' # dec_nat (nat wd)) ?r)" for p
    using extract_int_dec_nat(2) [OF space_no_digit(1), of "nat wd" "CHR '' ''" junk p "name @ t"] assms(2,3) space_no_digit by simp
  moreover have "fst (extract_word [] (stream_at q ?r)) = name" for q
    using t(2) assms(4,5) by (intro extract_word_first) (auto simp: is_space_def)
  ultimately show ?thesis using r by (simp add: t(1) d F_SIGTYPE_INOTIFY_def)
qed

lemma box_step_event:
  assumes "m \<le> 2147483647" "0 \<le> wd" "wd \<le> 2147483647" "list_all (\<lambda>c. \<not> is_space c) name" "name \<noteq> []" "NUL \<notin> set name"
    and "getPathOfDirectory b wd = Inr dir" "and (int m) IN_DELETE_SELF \<noteq> IN_DELETE_SELF"
  shows "box_step b vars ((Some ((m, wd, name) # es), [], None), junk) =
     Some (case event_status (int m) of None \<Rightarrow> Inl Undefined_behaviour
       | Some status \<Rightarrow> Inr (Some ((F_SIGTYPE_INOTIFY, int m), [inotify_message status m (box_hash b) (dir @ ''/'' @ name)])))"
proof -
  obtain s s' where r: "read_signal vars (dec F_SIGTYPE_INOTIFY @ '' '' @ inotify_text ((m, wd, name) # es)) = ((F_SIGTYPE_INOTIFY, int m), s)"
    "extract_int junk s = (wd, s')" "fst (extract_word [] s') = name"
    using read_event [OF assms(1-5)] by blast
  have c: "c_str name = name" using assms(6) by (simp add: c_str_def takeWhile_neq)
  have i: "\<not> is_interrupt (F_SIGTYPE_INOTIFY, int m)" by (simp add: is_interrupt_def sig_defs)
  show ?thesis
    using r(3) assms(7,8) inotify_message_eq [of "int m"]
    by (auto simp: box_step_def s_recv_in_def r(1) [simplified] r(2) i c split_def split: option.splits)
qed

text \<open>Directories of the same name with the same files have the same hash, wherever they are: only the
  first is kept and watched.\<close>

lemma twin_directory_dropped:
  assumes "\<forall>s. length (gh s) = 64" "shows_node api fs p (FDir n cs)" "tree_fits (FDir n cs)"
    and "dirs_in gh p (FDir n cs) = xs @ (q, h) # ys" "h \<in> snd ` set xs" "q \<notin> fst ` set (xs @ ys)"
    and "Box_new gh api fs nxt p hash_bytes = Some (Inr (b, nxt'))"
  shows "\<forall>d \<in> snd ` set (box_entries b). getAbsolutePath d \<noteq> q"
proof -
  let ?f = "\<lambda>(q, h). (getString h, q)"
  have "entry_paths (box_entries b) = insert_all [] (map ?f (xs @ (q, h) # ys))"
    using box_scan [OF assms(1-3), of nxt hash_bytes, unfolded assms(4)] assms(7) by (auto simp del: dirs_in.simps)
  moreover have "getString h \<in> set (map fst (insert_all [] (map ?f xs)))"
    unfolding insert_all_keys using assms(5) by force
  then have "map_insert (getString h) q (insert_all [] (map ?f xs)) = insert_all [] (map ?f xs)"
    by (auto simp: map_insert_def map_of_eq_None_iff)
  ultimately have e: "entry_paths (box_entries b) = insert_all [] (map ?f (xs @ ys))" by simp
  have "set (map snd (entry_paths (box_entries b))) \<subseteq> set (map snd (map ?f (xs @ ys)))"
    unfolding e using insert_all_values [of "[]" "map ?f (xs @ ys)"] by (simp only: list.map list.set Un_empty_left)
  moreover have "map snd (map ?f (xs @ ys)) = map fst (xs @ ys)" by (simp add: comp_def split_def)
  ultimately have "q \<notin> set (map snd (entry_paths (box_entries b)))" using assms(6) by auto
  then show ?thesis by (force simp: entry_paths_def getAbsolutePath_def)
qed

definition sample_box :: box where
  "sample_box = \<lparr>box_path = ''/b'', box_entries = [], box_hash_tree = HashTree_default,
     box_watch_descriptors = [(1, (Directory_default 0)\<lparr>dir_path := ''/b''\<rparr>)], box_hash = replicate 64 CHR ''h''\<rparr>"

text \<open>An interrupt that arrives in the same poll as another message is glued to it.\<close>

lemma publisher_interrupt_lost:
  "\<exists>r. publisher_step v (None, Some interrupt_signal, Some (signal F_SIGTYPE_PUB code @ '' '' @ m, []), None) = Inr (Some r)"
proof -
  let ?t = "dec code @ CHR '' '' # m"
  have g: "signal F_SIGTYPE_LIFE F_SIGLIFE_INTERRUPT @ signal F_SIGTYPE_PUB code @ CHR '' '' # m = signal 0 21 @ CHR '' '' # ?t"
    by (simp add: signal_def sig_defs dec_def dec_nat.simps)
  have "fst (read_signal v (signal 0 21 @ CHR '' '' # ?t)) = (0, 21)"
    by (simp add: read_signal_message space_no_digit)
  moreover have "\<not> is_interrupt (0, 21)" by (simp add: is_interrupt_def sig_defs)
  moreover have "5 \<le> length (signal 0 21 @ CHR '' '' # ?t)" by (simp add: signal_def dec_def dec_nat.simps)
  ultimately show ?thesis
    by (simp add: publisher_step_def recv_defs interrupt_signal_def g Let_def substrE_def del: length_append)
qed

lemma subscriber_interrupt_lost:
  assumes "100 \<le> code" "code \<le> 999"
  shows "\<exists>r. subscriber_step uid v (None, Some interrupt_signal, Some (dec code @ m, [])) = Inr (Some r)"
proof -
  obtain c t where c: "dec code = c # t" "is_digit c"
    using dec_3 [OF assms] dec_nat_digits(1) [of "nat code"] by (cases "dec_nat (nat code)") (auto simp: list_all_iff)
  let ?m = "signal 0 2 @ dec code @ m"
  have g: "stream_of ?m = stream_at [] (dec_nat 0 @ CHR '' '' # dec_nat 2 @ c # t @ m)"
    by (simp add: signal_eq sig_defs stream_of_at c(1))
  have e: "extract_int (fst v) (stream_of ?m) = (0, stream_at (dec_nat 0) (CHR '' '' # dec_nat 2 @ c # t @ m))"
    unfolding g using extract_int_dec_nat(1) [OF space_no_digit(1), of 0 "fst v" "[]"] by simp
  have "20 \<le> fst (extract_int (snd v) (stream_at (dec_nat 0) (CHR '' '' # dec_nat 2 @ c # t @ m)))"
    using extract_int_more_digits [OF _ _ c(2) space_no_digit(2), of 2 "snd v" "dec_nat 0" "t @ m"] by simp
  then have n: "fst (extract_int (snd v) (stream_at (dec_nat 0) (CHR '' '' # dec_nat 2 @ c # t @ m))) \<noteq> 2" by linarith
  have "3 \<le> length ?m" using dec_3(1) [OF assms] by (simp add: signal_def)
  then show ?thesis
    using n by (simp add: subscriber_step_def recv_defs interrupt_signal_def e sig_defs Let_def substrE_def
        del: length_append)
qed

lemma fsm_interrupt_lost:
  assumes "100 \<le> status_code st" "status_code st \<le> 999"
  shows "fst (read_signal v (fsm_message st m)) = (F_SIGTYPE_FSM, status_code st)"
  using assms by (simp add: fsm_message_def read_signal_message space_no_digit sig_defs)

lemma fsm_no_interrupt: "\<not> is_interrupt (F_SIGTYPE_FSM, n)" "\<not> is_interrupt (F_SIGTYPE_INOTIFY, n)"
  by (simp_all add: is_interrupt_def sig_defs)

lemma heartbeater_interrupt_lost:
  assumes "100 \<le> status_code st" "status_code st \<le> 999"
  shows "\<exists>r. heartbeater_step h ((None, Some (fsm_message st m, []), Some interrupt_signal), now) = Inr (Some r)"
proof -
  have "fsm_message st m @ fst interrupt_signal = fsm_message st (m @ fst interrupt_signal)" by (simp add: fsm_message_def)
  then show ?thesis
    using fsm_interrupt_lost [OF assms] fsm_no_interrupt(1)
    by (auto simp: heartbeater_step_def recv_defs hb_receive_def split_def)
qed

lemma dispatcher_interrupt_lost:
  assumes "100 \<le> status_code st" "status_code st \<le> 999"
  shows "dispatcher_step api fs fuel d ((None, Some (fsm_message st m, []), Some interrupt_signal), t) \<noteq> Some (Inr None)"
proof -
  let ?m = "fsm_message st (m @ fst interrupt_signal)"
  have g: "fsm_message st m @ fst interrupt_signal = ?m" by (simp add: fsm_message_def)
  obtain now j where t: "t = (now, j)" by (cases t)
  have r: "fst (read_signal v ?m) = (F_SIGTYPE_FSM, status_code st)" for v by (rule fsm_interrupt_lost [OF assms])
  have "dispatcher_order api fs fuel d ?m now \<noteq> Some (Inr None)"
    using fsm_no_interrupt(1) by (auto simp: dispatcher_order_def split_def r bindE_eq_Inr Let_def split: sum.splits)
  moreover have "synchronizingStop_round d 1 ?m now j \<noteq> Inr None"
    using fsm_no_interrupt(1) by (auto simp: synchronizingStop_round_def split_def r bindE_eq_Inr Let_def)
  ultimately show ?thesis
    by (auto simp: t dispatcher_step_def recv_defs g split: disp_mode.splits)
qed

lemma box_interrupt_lost:
  "box_step b v ((Some es, [interrupt_signal], None), j) \<noteq> Some (Inr None)"
proof -
  let ?m = "dec F_SIGTYPE_INOTIFY @ '' '' @ inotify_text es @ fst interrupt_signal"
  have "fst (extract_int (fst v) (stream_of ?m)) = F_SIGTYPE_INOTIFY"
    using extract_int_dec_nat(1) [OF space_no_digit(1), of 3 "fst v" "[]"] by (simp add: F_SIGTYPE_INOTIFY_def dec_def stream_of_at)
  then have "fst (fst (read_signal v ?m)) = F_SIGTYPE_INOTIFY" by (simp add: read_signal_def split_def Let_def)
  then have "\<not> is_interrupt (fst (read_signal v ?m))" by (auto simp: is_interrupt_def sig_defs)
  then show ?thesis
    by (auto simp: box_step_def s_recv_in_def split_def bindE_eq_Inr Let_def split: option.splits if_splits)
qed

section \<open>Properties\<close>



text \<open>C34. A box reports an event of a watched directory: of the events that arrive together the first
  is sent to the router, with the status of its mask and the path relative to the base directory; the
  others are dropped. A mask without a status, such as that of a file moved into or out of the
  directory, leaves the status unassigned. The message is the one the router announces.\<close>

theorem box_reports_first_event:
  assumes "map_of (box_watch_descriptors b) wd = Some d" "getAbsolutePath d = getBaseDir b @ dir"
    and "m \<le> 2147483647" "0 \<le> wd" "wd \<le> 2147483647" "and (int m) IN_DELETE_SELF \<noteq> IN_DELETE_SELF"
    and "list_all (\<lambda>c. \<not> is_space c) name" "name \<noteq> []" "NUL \<notin> set name"
  shows "box_step b vars ((Some ((m, wd, name) # es), [], None), junk) =
     Some (case event_status (int m) of None \<Rightarrow> Inl Undefined_behaviour
       | Some status \<Rightarrow> Inr (Some ((F_SIGTYPE_INOTIFY, int m), [inotify_message status m (box_hash b) (dir @ ''/'' @ name)])))"
proof -
  have "getPathOfDirectory b wd = Inr dir" using assms(1,2) by (simp add: getPathOfDirectory_def substrE_def)
  then show ?thesis using assms(3-9) by (intro box_step_event)
qed

theorem box_reports_first_event_witness:
  "box_step sample_box (0, 0) ((Some [(2, 1, ''a''), (256, 1, ''c'')], [], None), 0) =
     Some (Inr (Some ((F_SIGTYPE_INOTIFY, 2), [inotify_message status_300 2 (replicate 64 CHR ''h'') ''/a'']))) \<and>
   box_step sample_box (0, 0) ((Some [(64, 1, ''a'')], [], None), 0) = Some (Inl Undefined_behaviour)"
proof -
  have d: "map_of (box_watch_descriptors sample_box) 1 = Some ((Directory_default 0)\<lparr>dir_path := ''/b''\<rparr>)"
    "getAbsolutePath ((Directory_default 0)\<lparr>dir_path := ''/b''\<rparr>) = getBaseDir sample_box @ []"
    by (simp_all add: sample_box_def getAbsolutePath_def getBaseDir_def)
  have e: "event_status 2 = Some status_300" "event_status 64 = None" by (simp_all add: event_status_def in_defs)
  have m: "and (2::int) IN_DELETE_SELF \<noteq> IN_DELETE_SELF" "and (64::int) IN_DELETE_SELF \<noteq> IN_DELETE_SELF" by (simp_all add: in_defs)
  have n: "list_all (\<lambda>c. \<not> is_space c) ''a''" "NUL \<notin> set ''a''" by (simp_all add: is_space_def NUL_def)
  have h: "box_hash sample_box = replicate 64 CHR ''h''" by (simp add: sample_box_def)
  show ?thesis
    using box_reports_first_event [OF d, of 2 "''a''" "(0, 0)" "[(256, 1, ''c'')]" 0]
      box_reports_first_event [OF d, of 64 "''a''" "(0, 0)" "[]" 0] m n by (simp add: e h)
qed

end
