(* ===== verification/Config.thy ===== *)
theory Config
  imports Transport Directory "HOL-Library.Char_ord" "HOL-Library.List_Lexorder"
begin

text \<open>
  The class \<^verbatim>\<open>Config\<close> (\<^verbatim>\<open>src/config.cpp\<close>) and the main thread (\<^verbatim>\<open>src/main.cpp\<close>):
  options, configuration file and keystore become the nodes, hosts and boxes the router is started
  with. Parameters are the parsers of \<^verbatim>\<open>boost::program_options\<close> and \<^verbatim>\<open>jsoncpp\<close>, the files,
  \<^verbatim>\<open>wordexp\<close>, \<^verbatim>\<open>is_directory\<close> and the generator of key pairs. A \<^verbatim>\<open>std::map\<close> is an
  association list in the order of its keys.
\<close>

section \<open>State\<close>

record keypair =
  kp_public :: string
  kp_secret :: string

record host =
  h_endpoint :: string
  h_keypair :: keypair
  h_uid :: string

record box_conf =
  bc_uid :: string
  bc_base_path :: string
  bc_symlinks :: int

record config =
  cf_nodes_vec :: "node list"
  cf_nodes :: "(hash \<times> node) list"
  cf_hosts :: "host list"
  cf_boxes :: "(string \<times> box_conf) list"

definition Config_init :: config where
  "Config_init = \<lparr>cf_nodes_vec = [], cf_nodes = [], cf_hosts = [], cf_boxes = []\<rparr>"

fun map_put :: "'k::linorder \<Rightarrow> 'v \<Rightarrow> ('k \<times> 'v) list \<Rightarrow> ('k \<times> 'v) list" where
  "map_put k v [] = [(k, v)]"
| "map_put k v ((a, b) # m) =
     (if k < a then (k, v) # (a, b) # m else if k = a then (k, v) # m else (a, b) # map_put k v m)"

section \<open>Getters\<close>

definition getNodeEndpoints :: "config \<Rightarrow> string list" where
  "getNodeEndpoints c = map (\<lambda>(h, n). n_endpoint n) (cf_nodes c)"

definition getNodePublicKeys :: "config \<Rightarrow> string list" where
  "getNodePublicKeys c = map (\<lambda>(h, n). n_public_key n) (cf_nodes c)"

definition getHostKeypair :: "config \<Rightarrow> keypair result" where
  "getHostKeypair c = bindE (nthE (cf_hosts c) 0) (\<lambda>h. Inr (h_keypair h))"

section \<open>Endpoints\<close>

text \<open>\<^verbatim>\<open>(.*)(:)([0-9]*)\<close> as a match of the whole text: the last colon has only digits behind it. The
  dot matches every character but line feed and carriage return.\<close>

definition dot :: "char \<Rightarrow> bool" where
  "dot c \<longleftrightarrow> c \<noteq> CHR 0x0A \<and> c \<noteq> CHR 0x0D"

definition host_port :: "string \<Rightarrow> bool" where
  "host_port s =
    (case dropWhile is_digit (rev s) of [] \<Rightarrow> False | c # r \<Rightarrow> c = CHR '':'' \<and> list_all dot r)"

definition has_prefix :: "string \<Rightarrow> string \<Rightarrow> bool" where
  "has_prefix p s \<longleftrightarrow> take (length p) s = p"

text \<open>The endpoint of a node or host; the second expression is tried since \<^verbatim>\<open>F_MSG_DEBUG\<close> is set.\<close>

definition endpoint_of :: "string \<Rightarrow> string option" where
  "endpoint_of s =
    (if has_prefix ''tcp://'' s \<and> host_port (drop 6 s) then Some s
     else if host_port s then Some (''tcp://'' @ s)
     else if has_prefix ''ipc://'' s \<and> list_all dot (drop 6 s) then Some s
     else None)"

text \<open>A new \<^verbatim>\<open>node_t\<close>: what is not assigned keeps what the memory holds (\<open>junk\<close>).\<close>

definition new_node :: "node \<Rightarrow> string \<Rightarrow> node" where
  "new_node junk e = junk\<lparr>n_endpoint := e, n_subtype := 0, n_last_timestamp := 0, n_offset := 0, n_public_key := []\<rparr>"

definition new_host :: "string \<Rightarrow> host" where
  "new_host e = \<lparr>h_endpoint = e, h_keypair = \<lparr>kp_public = [], kp_secret = []\<rparr>, h_uid = []\<rparr>"

fun add_nodes :: "node \<Rightarrow> string list \<Rightarrow> config \<Rightarrow> int \<times> config" where
  "add_nodes junk [] c = (0, c)"
| "add_nodes junk (s # ss) c =
     (case endpoint_of s of
        None \<Rightarrow> (1, c)
      | Some e \<Rightarrow> add_nodes junk ss (c\<lparr>cf_nodes_vec := cf_nodes_vec c @ [new_node junk e]\<rparr>))"

fun add_hosts :: "string list \<Rightarrow> config \<Rightarrow> int \<times> config" where
  "add_hosts [] c = (0, c)"
| "add_hosts (s # ss) c =
     (case endpoint_of s of
        None \<Rightarrow> (1, c)
      | Some e \<Rightarrow> add_hosts ss (c\<lparr>cf_hosts := cf_hosts c @ [new_host e]\<rparr>))"

section \<open>Boxes\<close>

text \<open>The loop over the boxes that are there; in its second branch the box that is found gets the path.\<close>

fun claim_box :: "string \<Rightarrow> string \<Rightarrow> (string \<times> box_conf) list \<Rightarrow> int \<times> (string \<times> box_conf) list" where
  "claim_box hs path [] = (0, [])"
| "claim_box hs path ((k, b) # bs) =
     (if hs = k then
        if bc_base_path b = [] \<and> path = [] then (1, (k, b) # bs)
        else if bc_base_path b = [] then
          (case claim_box hs path bs of (r, bs') \<Rightarrow> (r, (k, b\<lparr>bc_base_path := path\<rparr>) # bs'))
        else (case claim_box hs path bs of (r, bs') \<Rightarrow> (r, (k, b) # bs'))
      else if path = bc_base_path b then (1, (k, b) # bs)
      else (case claim_box hs path bs of (r, bs') \<Rightarrow> (r, (k, b) # bs')))"

definition updateBoxMap :: "(string \<Rightarrow> bool result) \<Rightarrow> hash \<Rightarrow> string \<Rightarrow> config \<Rightarrow> (int \<times> config) result" where
  "updateBoxMap is_directory bh path c =
    bindE (if path = [] then Inr True else is_directory path) (\<lambda>d.
      if \<not> d then Inr (1, c)
      else case claim_box (getString bh) path (cf_boxes c) of (r, bs) \<Rightarrow> Inr (r, c\<lparr>cf_boxes := bs\<rparr>))"

text \<open>A box that is new to the configuration.\<close>

definition add_box :: "(string \<Rightarrow> bool result) \<Rightarrow> (string \<Rightarrow> string) \<Rightarrow> string \<Rightarrow> string \<Rightarrow> int \<Rightarrow> config \<Rightarrow> config result" where
  "add_box is_directory gh name path symlinks c =
    (let h = Hash_string gh name in
     bindE (updateBoxMap is_directory h path c) (\<lambda>(r, c).
     if r = 0 then bindE (getBytes h) (\<lambda>uid.
       Inr (c\<lparr>cf_boxes := map_put name \<lparr>bc_uid = uid, bc_base_path = path, bc_symlinks = symlinks\<rparr> (cf_boxes c)\<rparr>))
     else Inr c))"

text \<open>Every line or piece that is read leaves less of a stream.\<close>

definition stream_left :: "istream \<Rightarrow> nat" where
  "stream_left s = (if good s then Suc (length (rest s)) else 0)"

lemma getline_shorter: "getline d old s = (w, s') \<Longrightarrow> \<not> failbit s' \<Longrightarrow> stream_left s' < stream_left s"
  by (auto simp: stream_left_def getline_def good_def rest_def advance_def at_end_def Let_def split: if_splits)

text \<open>\<^verbatim>\<open>while(std::getline(box_string, box_path_temp, '@'))\<close>\<close>

function more_pieces :: "istream \<Rightarrow> string" where
  "more_pieces s =
    (case getline (CHR ''@'') [] s of (w, s') \<Rightarrow> if failbit s' then [] else ''@'' @ w @ more_pieces s')"
  by pat_completeness auto
termination
  by (relation "measure stream_left") (auto intro: getline_shorter [OF sym])

declare more_pieces.simps [simp del]

definition box_string_parts :: "string \<Rightarrow> string \<times> string" where
  "box_string_parts bs =
    (case getline (CHR ''@'') [] (stream_of bs) of (name, s) \<Rightarrow>
     case getline (CHR ''@'') [] s of (path, s) \<Rightarrow> (name, path @ more_pieces s))"

text \<open>A new \<^verbatim>\<open>box_t\<close> of the options: its handling of symbolic links is not assigned, \<open>sl\<close> is what the memory
  holds there.\<close>

fun add_boxes :: "(string \<Rightarrow> bool result) \<Rightarrow> (string \<Rightarrow> string) \<Rightarrow> (string \<Rightarrow> int) \<Rightarrow> string list \<Rightarrow> config \<Rightarrow> config result" where
  "add_boxes is_directory gh sl [] c = Inr c"
| "add_boxes is_directory gh sl (bs # bss) c =
     (case box_string_parts bs of (name, path) \<Rightarrow>
      bindE (add_box is_directory gh name path (sl bs) c) (\<lambda>c. add_boxes is_directory gh sl bss c))"

definition doSanityCheck :: "(string \<Rightarrow> bool result) \<Rightarrow> (string \<Rightarrow> string) \<Rightarrow> node \<Rightarrow> (string \<Rightarrow> int) \<Rightarrow> bool \<Rightarrow>
    string list \<Rightarrow> string list \<Rightarrow> string list \<Rightarrow> config \<Rightarrow> (int \<times> config) result" where
  "doSanityCheck is_directory gh junk sl help nodes hostnames box_strings c =
    (if help then Inr (1, c)
     else if nodes = [] then Inr (1, c)
     else case add_nodes junk (remdups_adj nodes) c of (r, c) \<Rightarrow>
       if r \<noteq> 0 then Inr (r, c)
       else if hostnames = [] then Inr (1, c)
       else case add_hosts (remdups_adj hostnames) c of (r, c) \<Rightarrow>
         if r \<noteq> 0 then Inr (r, c)
         else if box_strings = [] then Inr (1, c)
         else bindE (add_boxes is_directory gh sl box_strings c) (\<lambda>c. Inr (0, c)))"

section \<open>The configuration file\<close>

text \<open>One line: the blocks so far, the current block, and whether there is one.\<close>

definition config_line :: "string \<Rightarrow> (string \<times> string) list \<times> string \<times> bool \<Rightarrow> (string \<times> string) list \<times> string \<times> bool" where
  "config_line line st =
    (case st of (blocks, current, started) \<Rightarrow>
     if line = [] \<or> hd line = CHR ''#'' then st
     else if hd line = CHR ''['' then
       let name = takeWhile (\<lambda>c. c \<noteq> CHR '']'') (tl line) in (map_put name [] blocks, name, True)
     else if started then
       (map_put current ((case map_of blocks current of None \<Rightarrow> [] | Some t \<Rightarrow> t) @ line @ [CHR 0x0A]) blocks, current, True)
     else st)"

text \<open>\<^verbatim>\<open>while(std::getline(ifstream, line))\<close>\<close>

function config_lines :: "istream \<Rightarrow> string list" where
  "config_lines s =
    (case getline (CHR 0x0A) [] s of (w, s') \<Rightarrow> if failbit s' then [] else w # config_lines s')"
  by pat_completeness auto
termination
  by (relation "measure stream_left") (auto intro: getline_shorter [OF sym])

declare config_lines.simps [simp del]

text \<open>\<open>parse\<close> reads a block as JSON: its base path and its handling of symbolic links, with the
  defaults.\<close>

definition parseBoxConfiguration :: "(string \<Rightarrow> (string \<times> int) option) \<Rightarrow> (string \<Rightarrow> bool result) \<Rightarrow> (string \<Rightarrow> string) \<Rightarrow>
    string \<Rightarrow> string \<Rightarrow> config \<Rightarrow> (int \<times> config) result" where
  "parseBoxConfiguration parse is_directory gh name text c =
    (case parse text of
       None \<Rightarrow> Inr (1, c)
     | Some (path, symlinks) \<Rightarrow> bindE (add_box is_directory gh name path symlinks c) (\<lambda>c. Inr (0, c)))"

fun read_blocks :: "(string \<Rightarrow> (string \<times> int) option) \<Rightarrow> (string \<Rightarrow> bool result) \<Rightarrow> (string \<Rightarrow> string) \<Rightarrow>
    (string \<times> string) list \<Rightarrow> int \<times> string \<times> config \<Rightarrow> (int \<times> string \<times> config) result" where
  "read_blocks parse is_directory gh [] st = Inr st"
| "read_blocks parse is_directory gh ((name, text) # bs) (r, configfile, c) =
     (if name = ''program'' then read_blocks parse is_directory gh bs (r, text, c)
      else bindE (parseBoxConfiguration parse is_directory gh name text c) (\<lambda>(r, c).
        read_blocks parse is_directory gh bs (r, configfile, c)))"

definition readConfigFile :: "(string \<Rightarrow> (string \<times> int) option) \<Rightarrow> (string \<Rightarrow> bool result) \<Rightarrow> (string \<Rightarrow> string) \<Rightarrow>
    string \<Rightarrow> config \<Rightarrow> (int \<times> string \<times> config) result" where
  "readConfigFile parse is_directory gh configfile c =
    (case fold config_line (config_lines (stream_of configfile)) ([], [], False) of (blocks, _, _) \<Rightarrow>
     read_blocks parse is_directory gh blocks (0, configfile, c))"

section \<open>Keys\<close>

text \<open>The keys of the hosts: by endpoint, the public and the secret key.\<close>

type_synonym key_table = "(string \<times> keypair) list"

definition host_keys :: "key_table \<Rightarrow> string \<Rightarrow> keypair" where
  "host_keys pks e = (case map_of pks e of None \<Rightarrow> \<lparr>kp_public = [], kp_secret = []\<rparr> | Some k \<Rightarrow> k)"

definition host_with :: "(string \<Rightarrow> string) \<Rightarrow> keypair \<Rightarrow> host \<Rightarrow> host" where
  "host_with gh k h = h\<lparr>h_keypair := k, h_uid := getString (Hash_string gh (kp_public k))\<rparr>"

text \<open>With the flag \<^verbatim>\<open>create-private-key\<close>: hosts without keys get the next key pair.\<close>

fun create_keys :: "(string \<Rightarrow> string) \<Rightarrow> (nat \<Rightarrow> keypair) \<Rightarrow> nat \<Rightarrow> key_table \<Rightarrow> host list \<Rightarrow> key_table \<times> host list" where
  "create_keys gh gen n pks [] = (pks, [])"
| "create_keys gh gen n pks (h # hs) =
     (case map_of pks (h_endpoint h) of
        None \<Rightarrow>
          (case create_keys gh gen (Suc n) (map_put (h_endpoint h) (gen n) pks) hs of
             (pks', hs') \<Rightarrow> (pks', host_with gh (gen n) h # hs'))
      | Some k \<Rightarrow>
          (case create_keys gh gen n pks hs of (pks', hs') \<Rightarrow> (pks', host_with gh k h # hs')))"

text \<open>The nodes by the hash of their public key; a node whose hash is there already is not inserted.\<close>

definition keyed_node :: "(string \<Rightarrow> string) \<Rightarrow> (string \<Rightarrow> string option) \<Rightarrow> node \<Rightarrow> node" where
  "keyed_node gh ks n =
    (let pk = (case ks (n_endpoint n) of None \<Rightarrow> [] | Some k \<Rightarrow> k) in
     n\<lparr>n_public_key := pk, n_uid := digest (Hash_string gh pk)\<rparr>)"

definition insert_node :: "(string \<Rightarrow> string) \<Rightarrow> node \<Rightarrow> (hash \<times> node) list \<Rightarrow> (hash \<times> node) list" where
  "insert_node gh n m =
    (let h = Hash_string gh (n_public_key n) in
     if list_ex (\<lambda>e. digest (fst e) = digest h) m then m else m @ [(h, n)])"

text \<open>The value returned, the configuration, and what is written to the file of private keys. \<open>parse_pk\<close> says whether
  the text is read without an error and which keys it leaves in \<^verbatim>\<open>pks\<close>: after an error these may be some of them, and with the
  flag \<^verbatim>\<open>create-private-key\<close> they are used. A file that cannot be opened reads as the empty text. Values that are not objects, on
  which \<^verbatim>\<open>isMember\<close> and the index throw, are not followed.\<close>

definition synchronizeKeystore :: "(string \<Rightarrow> string) \<Rightarrow> (nat \<Rightarrow> keypair) \<Rightarrow> (string \<Rightarrow> bool \<times> key_table) \<Rightarrow>
    (string \<Rightarrow> (string \<Rightarrow> string option) option) \<Rightarrow> bool \<Rightarrow> string option \<Rightarrow> string option \<Rightarrow> config \<Rightarrow>
    int \<times> config \<times> key_table option" where
  "synchronizeKeystore gh gen parse_pk parse_ks create f_pk if_ks c =
    (if f_pk = None \<and> \<not> create then (1, c, None)
     else case parse_pk (case f_pk of None \<Rightarrow> [] | Some t \<Rightarrow> t) of (parsed, pks) \<Rightarrow>
       if \<not> parsed \<and> \<not> create then (1, c, None)
       else
         if create then
           (case create_keys gh gen 0 pks (cf_hosts c) of (pks, hs) \<Rightarrow> (1, c\<lparr>cf_hosts := hs\<rparr>, Some pks))
         else
           let c = c\<lparr>cf_hosts := map (\<lambda>h. host_with gh (host_keys pks (h_endpoint h)) h) (cf_hosts c)\<rparr> in
           (case if_ks of
              None \<Rightarrow> (1, c, None)
            | Some t \<Rightarrow>
                (case parse_ks t of
                   None \<Rightarrow> (1, c, None)
                 | Some ks \<Rightarrow>
                     let ns = map (keyed_node gh ks) (cf_nodes_vec c) in
                     (0, c\<lparr>cf_nodes_vec := ns, cf_nodes := foldl (\<lambda>m n. insert_node gh n m) (cf_nodes c) ns\<rparr>, None))))"

section \<open>Options\<close>

record options =
  o_help :: bool
  o_create :: bool
  o_config :: string
  o_keystore :: string
  o_privatekey :: string
  o_nodes :: "string list"
  o_hostnames :: "string list"
  o_boxes :: "string list"

definition F_CONFIG_FILE :: string where "F_CONFIG_FILE = ''~/.flocksy''"
definition F_KEYSTORE_FILE :: string where "F_KEYSTORE_FILE = ''~/.ssh/flocksy_keystore''"
definition F_PRIVATEKEY_FILE :: string where "F_PRIVATEKEY_FILE = ''~/.ssh/flocksy_privatekeys''"

text \<open>What surrounds the configuration: \<open>x_cmdline\<close> and \<open>x_config\<close> are the option parsers (\<open>None\<close>: they throw
  \<^verbatim>\<open>po::error\<close>), \<open>x_file\<close> the text of a file that can be read.\<close>

record externals =
  x_hash :: "string \<Rightarrow> string"
  x_cmdline :: "string list \<Rightarrow> options option"
  x_config :: "string \<Rightarrow> options \<Rightarrow> options option"
  x_expand :: "string \<Rightarrow> string"
  x_file :: "string \<Rightarrow> string option"
  x_is_directory :: "string \<Rightarrow> bool result"
  x_box_json :: "string \<Rightarrow> (string \<times> int) option"
  x_pk_json :: "string \<Rightarrow> bool \<times> key_table"
  x_ks_json :: "string \<Rightarrow> (string \<Rightarrow> string option) option"
  x_keypair :: "nat \<Rightarrow> keypair"

definition config_options :: "externals \<Rightarrow> options \<Rightarrow> config \<Rightarrow> (options option \<times> config) result" where
  "config_options x opts c =
    (case x_file x (x_expand x (if o_config opts = [] then F_CONFIG_FILE else o_config opts)) of
       None \<Rightarrow> Inr (Some opts, c)
     | Some ifstring \<Rightarrow>
         bindE (readConfigFile (x_box_json x) (x_is_directory x) (x_hash x) ifstring c) (\<lambda>(_, ifstring, c).
         Inr (x_config x ifstring opts, c)))"

definition Config_initialize :: "externals \<Rightarrow> node \<Rightarrow> (string \<Rightarrow> int) \<Rightarrow> string list \<Rightarrow> config \<Rightarrow> (int \<times> config \<times> key_table option) result" where
  "Config_initialize x junk sl argv c =
    (case x_cmdline x argv of
       None \<Rightarrow> Inr (1, c, None)
     | Some opts \<Rightarrow>
         bindE (config_options x opts c) (\<lambda>(parsed, c).
         case parsed of
           None \<Rightarrow> Inr (1, c, None)
         | Some opts \<Rightarrow>
             bindE (doSanityCheck (x_is_directory x) (x_hash x) junk sl (o_help opts) (o_nodes opts) (o_hostnames opts) (o_boxes opts) c)
               (\<lambda>(return_val, c).
                  if return_val \<noteq> 0 then Inr (return_val, c, None)
                  else Inr (synchronizeKeystore (x_hash x) (x_keypair x) (x_pk_json x) (x_ks_json x) (o_create opts)
                    (x_file x (x_expand x (if o_privatekey opts = [] then F_PRIVATEKEY_FILE else o_privatekey opts)))
                    (x_file x (x_expand x (if o_keystore opts = [] then F_KEYSTORE_FILE else o_keystore opts))) c))))"

section \<open>The thread of the router\<close>

text \<open>What the router is given: the nodes as its subscribers, the boxes by their hash.\<close>

definition subscribers_of :: "config \<Rightarrow> subscription list" where
  "subscribers_of c = map (\<lambda>(h, n). \<lparr>s_key = h, s_freed = False, s_node = n\<rparr>) (cf_nodes c)"

text \<open>Every box is scanned by its constructor, before any thread of a publisher or subscriber is opened; an exception of
  the scan leaves the loop. \<open>None\<close>: a scan does not end.\<close>

fun setupBoxes :: "(string \<Rightarrow> string) \<Rightarrow> 'd dir_api \<Rightarrow> 'd \<Rightarrow> nat \<Rightarrow> (string \<times> box_conf) list \<Rightarrow> ((string \<times> box) list \<times> nat) result option" where
  "setupBoxes gh dapi ds nxt [] = Some (Inr ([], nxt))"
| "setupBoxes gh dapi ds nxt ((name, b) # bs) =
    (case Box_new gh dapi ds nxt (bc_base_path b) (bc_uid b) of
       None \<Rightarrow> None
     | Some (Inl err) \<Rightarrow> Some (Inl err)
     | Some (Inr (box, nxt)) \<Rightarrow>
         map_option (\<lambda>r. bindE r (\<lambda>(boxes, nxt). Inr ((bc_uid b, box) # boxes, nxt))) (setupBoxes gh dapi ds nxt bs))"

text \<open>All the router asks of a box is its directory.\<close>

definition base_dirs :: "(string \<times> box) list \<Rightarrow> (string \<times> string) list" where
  "base_dirs boxes = map (\<lambda>(h, b). (h, getBaseDir b)) boxes"

text \<open>One publisher, heartbeater and dispatcher per host, one subscriber per node, one thread per box.\<close>

definition number_of_threads :: "config \<Rightarrow> nat" where
  "number_of_threads c = 3 * length (cf_hosts c) + length (cf_nodes c) + length (cf_boxes c)"

definition setContext :: "bool \<Rightarrow> int" where
  "setContext had_context = (if \<not> had_context then 0 else 1)"

text \<open>The value of the last step, the exit signal for the main thread, and the state of the router; \<open>None\<close> while
  it waits for messages. The junk of the uninitialised variables is the same for the three loops. When a context is set already
  the code goes on to \<^verbatim>\<open>closeConnections\<close>, on sockets that the first call has closed or not yet opened: the model stops there.\<close>

definition Boxoffice_initialize :: "(string \<Rightarrow> string) \<Rightarrow> 'd dir_api \<Rightarrow> 'd \<Rightarrow> 'fs fs_api \<Rightarrow> 'fs \<Rightarrow> config \<Rightarrow> bool \<Rightarrow> int \<times> int \<Rightarrow> string list \<Rightarrow>
    (env \<times> string) list \<Rightarrow> string list \<Rightarrow> ((int \<times> string) \<times> 'fs boxoffice) result option" where
  "Boxoffice_initialize gh dapi ds api fs c had_context junk alive msgs closing =
    (if setContext had_context \<noteq> 0
     then Some (Inl Undefined_behaviour)
     else case setupBoxes gh dapi ds 0 (cf_boxes c) of
       None \<Rightarrow> None
     | Some (Inl err) \<Rightarrow> Some (Inl err)
     | Some (Inr (boxes, _)) \<Rightarrow>
         let bo = Boxoffice_init fs (subscribers_of c) (base_dirs boxes); n = number_of_threads c in
         case checkChildren n junk alive of
           None \<Rightarrow> None
         | Some r \<Rightarrow>
             if r \<noteq> 0 then map_option (\<lambda>r. Inr (r, bo)) (closeConnections n 0 junk closing)
             else case runRouter api junk msgs bo of
               Inl err \<Rightarrow> Some (Inl err)
             | Inr (None, bo) \<Rightarrow> None
             | Inr (Some v, bo) \<Rightarrow> map_option (\<lambda>r. Inr (r, bo)) (closeConnections n 0 junk closing))"

section \<open>The main thread\<close>

text \<open>The answer of the router is parsed twice; the second time nothing is left.\<close>

definition main_exit :: "int \<times> int \<Rightarrow> string \<Rightarrow> int" where
  "main_exit junk msg =
    (let (v, s) = read_signal junk msg;
         (msg_type, s) = extract_int (fst v) s;
         (msg_signal, s) = extract_int (snd v) s
     in if msg_type \<noteq> F_SIGTYPE_LIFE \<and> msg_signal \<noteq> F_SIGLIFE_EXIT then 1 else 0)"

text \<open>Signals: \<open>s_catch_signals\<close> installs the handler for two of them, the others keep what the system does with
  them. The main thread sleeps until the handler has left the number of a signal in \<open>s_interrupted\<close>; \<open>ticks\<close> has
  the signals that arrive during each sleep.\<close>

definition SIGINT :: int where "SIGINT = 2"
definition SIGTERM :: int where "SIGTERM = 15"

datatype disposition = Ignored | Terminates | Handled "int \<Rightarrow> int \<Rightarrow> int"

definition s_signal_handler :: "int \<Rightarrow> int \<Rightarrow> int" where
  "s_signal_handler signal_value s_interrupted = signal_value"

definition s_catch_signals :: "(int \<Rightarrow> disposition) \<Rightarrow> int \<Rightarrow> disposition" where
  "s_catch_signals act = act(SIGINT := Handled s_signal_handler, SIGTERM := Handled s_signal_handler)"

datatype wait_end = Waiting | Killed int | Interrupted int

fun deliver_signals :: "(int \<Rightarrow> disposition) \<Rightarrow> int list \<Rightarrow> int \<Rightarrow> int + int" where
  "deliver_signals act [] s_interrupted = Inr s_interrupted"
| "deliver_signals act (sig # sigs) s_interrupted =
    (case act sig of
       Ignored \<Rightarrow> deliver_signals act sigs s_interrupted
     | Terminates \<Rightarrow> Inl sig
     | Handled handler \<Rightarrow> deliver_signals act sigs (handler sig s_interrupted))"

fun main_wait :: "(int \<Rightarrow> disposition) \<Rightarrow> int \<Rightarrow> int list list \<Rightarrow> wait_end" where
  "main_wait act s_interrupted [] = (if s_interrupted = 0 then Waiting else Interrupted s_interrupted)"
| "main_wait act s_interrupted (sigs # ticks) =
    (if s_interrupted = 0 then
       (case deliver_signals act sigs s_interrupted of
          Inl sig \<Rightarrow> Killed sig
        | Inr s_interrupted \<Rightarrow> main_wait act s_interrupted ticks)
     else Interrupted s_interrupted)"

text \<open>The value returned, unless the application waits or a signal ends it, and the messages sent, to the
  router and to the broadcast; \<open>answer\<close> is the message of the router, if there is one.\<close>

datatype application_end = Returned int | Waits | Ended_by int

definition main_application :: "int \<Rightarrow> int \<Rightarrow> int \<Rightarrow> (int \<Rightarrow> disposition) \<Rightarrow> int list list \<Rightarrow> int \<times> int \<Rightarrow> string option \<Rightarrow>
    application_end \<times> string list" where
  "main_application sodium_init return_val sodium_init2 act ticks junk answer =
    (if sodium_init = -1 then (Returned 1, [])
     else if return_val \<noteq> 0 then (Returned return_val, [])
     else if sodium_init2 = -1 then (Returned 1, [])
     else case main_wait (s_catch_signals act) 0 ticks of
       Waiting \<Rightarrow> (Waits, [])
     | Killed sig \<Rightarrow> (Ended_by sig, [])
     | Interrupted _ \<Rightarrow>
         (case answer of None \<Rightarrow> Waits | Some msg \<Rightarrow> Returned (main_exit junk msg), [fst interrupt_signal, fst interrupt_signal]))"

text \<open>How the process ends: \<^verbatim>\<open>main\<close> runs the application itself when debugging, otherwise in a child
  process that leads a session of its own. \<open>pid\<close> and \<open>sid\<close> are what \<^verbatim>\<open>fork\<close> and \<^verbatim>\<open>setsid\<close> return.\<close>

datatype process_end = Application application_end | Exit_success | Exit_failure

definition main_process :: "bool \<Rightarrow> int \<Rightarrow> int \<Rightarrow> application_end \<Rightarrow> process_end" where
  "main_process debug pid sid application =
    (if debug then Application application
     else if pid < 0 then Exit_failure
     else if pid = 0 then (if sid < 0 then Exit_failure else Application application)
     else Exit_success)"

end
