(* ===== verification/Config_Laws.thy ===== *)
theory Config_Laws
  imports Config Transport_Laws Directory_Laws
begin

text \<open>
  What a configuration that is accepted guarantees to the router, and the life of the process: the
  endpoints carry a scheme the library knows, no two boxes share a directory (but for a box that is named as a
  hash), the nodes are kept by the hash of their public key, and an interrupt ends the process.
\<close>

section \<open>Sorted maps\<close>

definition sorted_map :: "('k::linorder \<times> 'v) list \<Rightarrow> bool" where
  "sorted_map m \<longleftrightarrow> sorted_wrt (<) (map fst m)"

lemma set_map_put: "set (map_put k v m) \<subseteq> insert (k, v) (set m)"
  by (induction k v m rule: map_put.induct) auto

lemma map_put_keys: "set (map fst (map_put k v m)) = insert k (set (map fst m))"
  by (induction k v m rule: map_put.induct) auto

lemma sorted_map_put: "sorted_map m \<Longrightarrow> sorted_map (map_put k v m)"
proof (induction k v m rule: map_put.induct)
  case (2 k v a b m)
  have "set (map fst (map_put k v m)) = insert k (set (map fst m))" by (rule map_put_keys)
  with 2 show ?case by (fastforce simp: sorted_map_def)
qed (simp add: sorted_map_def)

lemma distinct_map_put:
  "distinct (map f m) \<Longrightarrow> f (k, v) \<notin> set (map f m) \<Longrightarrow> distinct (map f (map_put k v m))"
proof (induction k v m rule: map_put.induct)
  case (2 k v a b m)
  have "set (map f (map_put k v m)) \<subseteq> insert (f (k, v)) (set (map f m))" using set_map_put [of k v m] by auto
  with 2 show ?case by auto
qed simp

lemma map_of_map_put: "sorted_map m \<Longrightarrow> map_of (map_put k v m) = (map_of m)(k \<mapsto> v)"
proof (induction k v m rule: map_put.induct)
  case (2 k v a b m)
  then show ?case by (auto simp: sorted_map_def fun_eq_iff)
qed simp

section \<open>Endpoints\<close>

definition valid_endpoint :: "string \<Rightarrow> bool" where
  "valid_endpoint e \<longleftrightarrow> has_prefix ''tcp://'' e \<and> host_port (drop 6 e) \<or> has_prefix ''ipc://'' e"

lemma endpoint_of_valid: "endpoint_of s = Some e \<Longrightarrow> valid_endpoint e"
  by (auto simp: endpoint_of_def valid_endpoint_def has_prefix_def split: if_splits)

lemma add_nodes_ok:
  "add_nodes junk ss c = (0, c') \<Longrightarrow> \<exists>ns. c' = c\<lparr>cf_nodes_vec := cf_nodes_vec c @ ns\<rparr> \<and> length ns = length ss \<and>
     (\<forall>n \<in> set ns. valid_endpoint (n_endpoint n) \<and> n_subtype n = 0)"
proof (induction ss arbitrary: c)
  case (Cons s ss)
  then obtain e where e: "endpoint_of s = Some e"
    "add_nodes junk ss (c\<lparr>cf_nodes_vec := cf_nodes_vec c @ [new_node junk e]\<rparr>) = (0, c')" by (auto split: option.splits)
  from Cons.IH [OF e(2)] obtain ns where "c' = c\<lparr>cf_nodes_vec := cf_nodes_vec c @ new_node junk e # ns\<rparr>" "length ns = length ss"
    "\<forall>x \<in> set ns. valid_endpoint (n_endpoint x) \<and> n_subtype x = 0" by auto
  with endpoint_of_valid [OF e(1)] show ?case by (intro exI [of _ "new_node junk e # ns"]) (simp add: new_node_def)
qed auto

lemma add_hosts_ok:
  "add_hosts ss c = (0, c') \<Longrightarrow> \<exists>hs. c' = c\<lparr>cf_hosts := cf_hosts c @ hs\<rparr> \<and> length hs = length ss \<and>
     (\<forall>h \<in> set hs. valid_endpoint (h_endpoint h))"
proof (induction ss arbitrary: c)
  case (Cons s ss)
  then obtain e where e: "endpoint_of s = Some e"
    "add_hosts ss (c\<lparr>cf_hosts := cf_hosts c @ [new_host e]\<rparr>) = (0, c')" by (auto split: option.splits)
  from Cons.IH [OF e(2)] obtain hs where "c' = c\<lparr>cf_hosts := cf_hosts c @ new_host e # hs\<rparr>" "length hs = length ss"
    "\<forall>x \<in> set hs. valid_endpoint (h_endpoint x)" by auto
  with endpoint_of_valid [OF e(1)] show ?case by (intro exI [of _ "new_host e # hs"]) (simp add: new_host_def)
qed auto

text \<open>What a sanity check that passes has done before it comes to the boxes.\<close>

lemma doSanityCheck_steps:
  assumes "doSanityCheck is_directory gh junk sl help nodes hostnames box_strings c0 = Inr (0, c)"
  shows "\<exists>ns hs. ns \<noteq> [] \<and> (\<forall>n \<in> set ns. valid_endpoint (n_endpoint n) \<and> n_subtype n = 0) \<and> hs \<noteq> [] \<and> (\<forall>h \<in> set hs. valid_endpoint (h_endpoint h)) \<and>
     length hs = length (remdups_adj hostnames) \<and>
     add_boxes is_directory gh sl box_strings (c0\<lparr>cf_nodes_vec := cf_nodes_vec c0 @ ns, cf_hosts := cf_hosts c0 @ hs\<rparr>) = Inr c"
proof -
  have ne: "\<not> help" "nodes \<noteq> []" "hostnames \<noteq> []"
    using assms by (auto simp: doSanityCheck_def split: if_splits prod.splits)
  obtain c1 where c1: "add_nodes junk (remdups_adj nodes) c0 = (0, c1)"
    using assms ne by (auto simp: doSanityCheck_def split: if_splits prod.splits)
  obtain c2 where c2: "add_hosts (remdups_adj hostnames) c1 = (0, c2)"
    using assms ne c1 by (auto simp: doSanityCheck_def split: if_splits prod.splits)
  have c: "add_boxes is_directory gh sl box_strings c2 = Inr c"
    using assms ne c1 c2 by (auto simp: doSanityCheck_def bindE_eq_Inr split: if_splits)
  obtain ns where ns: "c1 = c0\<lparr>cf_nodes_vec := cf_nodes_vec c0 @ ns\<rparr>" "length ns = length (remdups_adj nodes)"
    "\<forall>n \<in> set ns. valid_endpoint (n_endpoint n) \<and> n_subtype n = 0" using add_nodes_ok [OF c1] by blast
  obtain hs where hs: "c2 = c1\<lparr>cf_hosts := cf_hosts c1 @ hs\<rparr>" "length hs = length (remdups_adj hostnames)"
    "\<forall>h \<in> set hs. valid_endpoint (h_endpoint h)" using add_hosts_ok [OF c2] by blast
  have "ns \<noteq> []" "hs \<noteq> []" using ns(2) hs(2) ne by (metis length_0_conv remdups_adj_Nil_iff)+
  with ns hs c show ?thesis by (intro exI [of _ ns] exI [of _ hs]) simp
qed

section \<open>Boxes\<close>

lemma claim_box_new:
  "hs \<notin> fst ` set bs \<Longrightarrow> claim_box hs path bs = (if path \<in> (\<lambda>p. bc_base_path (snd p)) ` set bs then 1 else 0, bs)"
  by (induction hs path bs rule: claim_box.induct) auto

definition boxes_ok :: "(string \<Rightarrow> bool result) \<Rightarrow> (string \<Rightarrow> string) \<Rightarrow> (string \<times> string) set \<Rightarrow> (string \<times> box_conf) list \<Rightarrow> bool" where
  "boxes_ok is_directory gh src bs \<longleftrightarrow> sorted_map bs \<and> distinct (map (\<lambda>p. bc_base_path (snd p)) bs) \<and>
    (\<forall>(name, b) \<in> set bs. bc_uid b = digest (Hash_string gh name) \<and> (name, bc_base_path b) \<in> src \<and>
       (bc_base_path b = [] \<or> is_directory (bc_base_path b) = Inr True))"

text \<open>No name is the hash of a name as text: those names make \<^verbatim>\<open>updateBoxMap\<close> skip its comparison of the paths.\<close>

definition no_hash_names :: "(string \<Rightarrow> string) \<Rightarrow> (string \<times> string) set \<Rightarrow> bool" where
  "no_hash_names gh src \<longleftrightarrow> (\<forall>(n, p) \<in> src. \<forall>(n', p') \<in> src. getString (Hash_string gh n) \<noteq> n')"

lemma add_box_ok:
  assumes "boxes_ok is_directory gh src (cf_boxes c)" "add_box is_directory gh name path symlinks c = Inr c'"
    and "\<forall>s. length (gh s) = 64" "(name, path) \<in> src" "no_hash_names gh src"
  shows "\<exists>bs. c' = c\<lparr>cf_boxes := bs\<rparr> \<and> boxes_ok is_directory gh src bs"
proof -
  let ?h = "Hash_string gh name"
  have f: "filled ?h" using assms(3) by (simp add: filled_def hash_ok_def Hash_string_def makeHash_def hash_len)
  have "\<forall>(n, b) \<in> set (cf_boxes c). (n, bc_base_path b) \<in> src" using assms(1) by (auto simp: boxes_ok_def)
  then have k: "getString ?h \<notin> fst ` set (cf_boxes c)" using assms(4,5) unfolding no_hash_names_def by fastforce
  have g: "getBytes ?h = Inr (digest ?h)" using filled_cases [OF f] by (simp add: getBytes_def)
  obtain d where d: "(if path = [] then Inr True else is_directory path) = Inr d" using assms(2)
    by (auto simp: add_box_def Let_def updateBoxMap_def bindE_eq_Inr)
  show ?thesis
  proof (cases "d \<and> path \<notin> (\<lambda>p. bc_base_path (snd p)) ` set (cf_boxes c)")
    case True
    let ?b = "\<lparr>bc_uid = digest ?h, bc_base_path = path, bc_symlinks = symlinks\<rparr>"
    have c': "c' = c\<lparr>cf_boxes := map_put name ?b (cf_boxes c)\<rparr>"
      using assms(2) d True by (simp add: add_box_def updateBoxMap_def claim_box_new [OF k] g)
    have "boxes_ok is_directory gh src (map_put name ?b (cf_boxes c))"
      using assms(1,4) True d set_map_put [of name ?b "cf_boxes c"] unfolding boxes_ok_def
      by (auto simp: sorted_map_put intro!: distinct_map_put split: if_splits)
    with c' show ?thesis by blast
  next
    case False
    then have "c' = c"
      using assms(2) d by (cases d) (auto simp: add_box_def updateBoxMap_def claim_box_new [OF k] Let_def)
    then show ?thesis using assms(1) by (intro exI [of _ "cf_boxes c"]) simp
  qed
qed

lemma add_boxes_ok:
  assumes "\<forall>s. length (gh s) = 64" "no_hash_names gh src"
  shows "boxes_ok is_directory gh src (cf_boxes c) \<Longrightarrow> box_string_parts ` set bss \<subseteq> src \<Longrightarrow>
     add_boxes is_directory gh sl bss c = Inr c' \<Longrightarrow> \<exists>bs. c' = c\<lparr>cf_boxes := bs\<rparr> \<and> boxes_ok is_directory gh src bs"
proof (induction bss arbitrary: c)
  case Nil
  then show ?case by (intro exI [of _ "cf_boxes c"]) simp
next
  case (Cons bs bss)
  obtain name path where p: "box_string_parts bs = (name, path)" by fastforce
  then obtain c1 where c1: "add_box is_directory gh name path (sl bs) c = Inr c1" "add_boxes is_directory gh sl bss c1 = Inr c'"
    using Cons.prems(3) by (auto simp: bindE_eq_Inr)
  have "(name, path) \<in> src" using Cons.prems(2) p by auto
  from add_box_ok [OF Cons.prems(1) c1(1) assms(1) this assms(2)] obtain bs1 where
    "c1 = c\<lparr>cf_boxes := bs1\<rparr>" "boxes_ok is_directory gh src bs1" by blast
  with Cons.IH [of c1] Cons.prems(2) c1(2) show ?case by auto
qed

text \<open>The boxes that a configuration file names, with their paths: one for every block but that of the program whose
  text is JSON.\<close>

definition config_blocks :: "string \<Rightarrow> (string \<times> string) list" where
  "config_blocks text = fst (fold config_line (config_lines (stream_of text)) ([], [], False))"

definition block_boxes :: "(string \<Rightarrow> (string \<times> int) option) \<Rightarrow> (string \<times> string) list \<Rightarrow> (string \<times> string) set" where
  "block_boxes parse blocks = {(name, path). \<exists>text sy. (name, text) \<in> set blocks \<and> name \<noteq> ''program'' \<and> parse text = Some (path, sy)}"

lemma read_blocks_ok:
  assumes "\<forall>s. length (gh s) = 64" "no_hash_names gh src"
  shows "boxes_ok is_directory gh src (cf_boxes c) \<Longrightarrow> block_boxes parse blocks \<subseteq> src \<Longrightarrow>
     read_blocks parse is_directory gh blocks (r, f, c) = Inr (r', f', c') \<Longrightarrow>
     \<exists>bs. c' = c\<lparr>cf_boxes := bs\<rparr> \<and> boxes_ok is_directory gh src bs"
proof (induction blocks arbitrary: r f c)
  case Nil
  then show ?case by (intro exI [of _ "cf_boxes c"]) simp
next
  case (Cons x blocks)
  obtain name t where x: "x = (name, t)" by (cases x)
  have sub: "block_boxes parse blocks \<subseteq> src" using Cons.prems(2) by (auto simp: block_boxes_def)
  show ?case
  proof (cases "name = ''program'' \<or> parse t = None")
    case True
    with Cons.prems(3) x obtain r1 f1 where "read_blocks parse is_directory gh blocks (r1, f1, c) = Inr (r', f', c')"
      by (cases "name = ''program''") (simp_all add: parseBoxConfiguration_def)
    from Cons.IH [OF Cons.prems(1) sub this] show ?thesis .
  next
    case False
    then obtain path sy where p: "name \<noteq> ''program''" "parse t = Some (path, sy)" by auto
    with Cons.prems(3) x obtain c1 where c1: "add_box is_directory gh name path sy c = Inr c1"
      "read_blocks parse is_directory gh blocks (0, f, c1) = Inr (r', f', c')"
      by (auto simp: parseBoxConfiguration_def bindE_eq_Inr)
    have "(name, path) \<in> src" using Cons.prems(2) p x by (auto simp: block_boxes_def)
    from add_box_ok [OF Cons.prems(1) c1(1) assms(1) this assms(2)] obtain bs1 where
      "c1 = c\<lparr>cf_boxes := bs1\<rparr>" "boxes_ok is_directory gh src bs1" by blast
    with Cons.IH [of c1, OF _ sub c1(2)] show ?thesis by auto
  qed
qed

text \<open>Whatever the names, file and options change nothing but the boxes.\<close>

lemma add_box_frame: "add_box is_directory gh name path sy c = Inr c' \<Longrightarrow> \<exists>bs. c' = c\<lparr>cf_boxes := bs\<rparr>"
  by (auto simp: add_box_def updateBoxMap_def Let_def bindE_eq_Inr split: if_splits prod.splits intro: exI [of _ "cf_boxes c"])

lemma add_boxes_frame: "add_boxes is_directory gh sl bss c = Inr c' \<Longrightarrow> \<exists>bs. c' = c\<lparr>cf_boxes := bs\<rparr>"
proof (induction bss arbitrary: c)
  case (Cons bs bss)
  obtain name path where "box_string_parts bs = (name, path)" by fastforce
  then obtain c1 where c1: "add_box is_directory gh name path (sl bs) c = Inr c1" "add_boxes is_directory gh sl bss c1 = Inr c'"
    using Cons.prems by (auto simp: bindE_eq_Inr)
  from add_box_frame [OF c1(1)] Cons.IH [OF c1(2)] show ?case by auto
qed (auto intro: exI [of _ "cf_boxes c'"])

lemma read_blocks_frame:
  "read_blocks parse is_directory gh blocks (r, f, c) = Inr (r', f', c') \<Longrightarrow> \<exists>bs. c' = c\<lparr>cf_boxes := bs\<rparr>"
proof (induction blocks arbitrary: r f c)
  case (Cons x blocks)
  obtain name t where x: "x = (name, t)" by (cases x)
  have "\<exists>r1 f1 bs. read_blocks parse is_directory gh blocks (r1, f1, c\<lparr>cf_boxes := bs\<rparr>) = Inr (r', f', c')"
  proof (cases "name = ''program'' \<or> parse t = None")
    case True
    then have "\<exists>r1 f1. read_blocks parse is_directory gh blocks (r1, f1, c\<lparr>cf_boxes := cf_boxes c\<rparr>) = Inr (r', f', c')"
      using Cons.prems x by (cases "name = ''program''") (simp_all add: parseBoxConfiguration_def, blast+)
    then show ?thesis by blast
  next
    case False
    then obtain c1 where "add_box is_directory gh name (fst (the (parse t))) (snd (the (parse t))) c = Inr c1"
      "read_blocks parse is_directory gh blocks (0, f, c1) = Inr (r', f', c')"
      using Cons.prems x by (auto simp: parseBoxConfiguration_def bindE_eq_Inr)
    then show ?thesis using add_box_frame by blast
  qed
  then show ?case using Cons.IH by fastforce
qed (auto intro: exI [of _ "cf_boxes c'"])

text \<open>The file that \<^verbatim>\<open>Config::initialize\<close> reads, and all boxes that the file and the options name.\<close>

definition config_text :: "externals \<Rightarrow> options \<Rightarrow> string option" where
  "config_text x opts = x_file x (x_expand x (if o_config opts = [] then F_CONFIG_FILE else o_config opts))"

definition named_boxes :: "externals \<Rightarrow> options \<Rightarrow> options \<Rightarrow> (string \<times> string) set" where
  "named_boxes x opts opts' =
    (case config_text x opts of None \<Rightarrow> {} | Some text \<Rightarrow> block_boxes (x_box_json x) (config_blocks text)) \<union>
    box_string_parts ` set (o_boxes opts')"

lemma config_options_ok:
  assumes "config_options x opts Config_init = Inr (Some opts', c)" "\<forall>s. length (x_hash x s) = 64" "no_hash_names (x_hash x) src"
    "named_boxes x opts opts' \<subseteq> src"
  shows "\<exists>bs. c = Config_init\<lparr>cf_boxes := bs\<rparr> \<and> boxes_ok (x_is_directory x) (x_hash x) src bs"
proof -
  have e: "boxes_ok (x_is_directory x) (x_hash x) src (cf_boxes Config_init)" by (simp add: Config_init_def boxes_ok_def sorted_map_def)
  show ?thesis
  proof (cases "config_text x opts")
    case None
    with assms(1) have "c = Config_init" by (simp add: config_options_def config_text_def)
    with e show ?thesis by (intro exI [of _ "[]"]) (simp add: Config_init_def)
  next
    case (Some t)
    with assms(1) obtain r f where "read_blocks (x_box_json x) (x_is_directory x) (x_hash x) (config_blocks t) (0, t, Config_init) = Inr (r, f, c)"
      by (auto simp: config_options_def config_text_def readConfigFile_def config_blocks_def bindE_eq_Inr split: prod.splits)
    from read_blocks_ok [OF assms(2,3) e _ this] assms(4) Some show ?thesis by (simp add: named_boxes_def)
  qed
qed

text \<open>A box whose name is the hash of the name of another one, as text, does not keep the other one from its directory.\<close>

lemma hash_named_box_shares:
  assumes "cf_boxes c = [(getString (Hash_string gh name), b)]" "bc_base_path b = path" "path \<noteq> []" "is_directory path = Inr True"
    and "name \<noteq> getString (Hash_string gh name)" "length (gh name) = 64"
  shows "\<exists>bs. add_box is_directory gh name path symlinks c = Inr (c\<lparr>cf_boxes := bs\<rparr>) \<and> length bs = 2 \<and>
     (\<forall>(n, b') \<in> set bs. bc_base_path b' = path)"
proof -
  have "filled (Hash_string gh name)" using assms(6) by (simp add: filled_def hash_ok_def Hash_string_def makeHash_def hash_len)
  then have "getBytes (Hash_string gh name) = Inr (digest (Hash_string gh name))" using filled_cases by (simp add: getBytes_def)
  with assms have "add_box is_directory gh name path symlinks c = Inr (c\<lparr>cf_boxes :=
      map_put name \<lparr>bc_uid = digest (Hash_string gh name), bc_base_path = path, bc_symlinks = symlinks\<rparr> (cf_boxes c)\<rparr>)"
    by (simp add: add_box_def updateBoxMap_def Let_def)
  then show ?thesis using assms(1,2,5) by (intro exI [of _ "map_put name \<lparr>bc_uid = digest (Hash_string gh name), bc_base_path = path, bc_symlinks = symlinks\<rparr> (cf_boxes c)"]) auto
qed

text \<open>A box given as \<^verbatim>\<open>name@path\<close>: the path may contain the separator, but not at its end.\<close>

lemma getline_last: "d \<notin> set w \<Longrightarrow> w \<noteq> [] \<Longrightarrow> getline d old (stream_at p w) = (w, at_end (stream_at p w))"
  by (simp add: getline_def takeWhile_neq Let_def)

lemma more_pieces_end: "more_pieces (at_end s) = []"
  by (subst more_pieces.simps) (simp add: getline_def good_def at_end_def)

lemma more_pieces_at:
  "r \<noteq> [] \<Longrightarrow> last r \<noteq> CHR ''@'' \<Longrightarrow> more_pieces (stream_at p r) = ''@'' @ r"
proof (induction "length r" arbitrary: p r rule: less_induct)
  case less
  show ?case
  proof (cases "CHR ''@'' \<in> set r")
    case True
    then obtain w t where r: "r = w @ CHR ''@'' # t" "CHR ''@'' \<notin> set w" by (metis split_list_first)
    then have "t \<noteq> []" "last t \<noteq> CHR ''@''" using less.prems by (auto split: if_splits)
    with less.hyps [of t "p @ w @ ''@''"] r show ?thesis
      by (subst more_pieces.simps) (simp add: getline_stream_at [OF r(2)])
  next
    case False
    then show ?thesis
      using less.prems more_pieces_end [of "stream_at p r"]
      by (subst more_pieces.simps) (simp add: getline_last, simp add: at_end_def stream_at_def)
  qed
qed

lemma box_string_roundtrip:
  assumes "CHR ''@'' \<notin> set name" "path \<noteq> []" "last path \<noteq> CHR ''@''"
  shows "box_string_parts (name @ ''@'' @ path) = (name, path)"
proof -
  have n: "getline (CHR ''@'') [] (stream_of (name @ ''@'' @ path)) = (name, stream_at (name @ ''@'') path)"
    using getline_stream_at [OF assms(1), of "[]" "[]" path] by (simp add: stream_of_at)
  show ?thesis
  proof (cases "CHR ''@'' \<in> set path")
    case True
    then obtain w t where r: "path = w @ CHR ''@'' # t" "CHR ''@'' \<notin> set w" by (metis split_list_first)
    then have "t \<noteq> []" "last t \<noteq> CHR ''@''" using assms(2,3) by (auto split: if_splits)
    moreover have "getline (CHR ''@'') [] (stream_at (name @ ''@'') path) = (w, stream_at (name @ ''@'' @ w @ ''@'') t)"
      using getline_stream_at [OF r(2), of "[]" "name @ ''@''" t] by (simp add: r(1))
    ultimately show ?thesis by (simp only: box_string_parts_def n prod.case) (simp add: more_pieces_at r(1))
  next
    case False
    then show ?thesis
      by (simp only: box_string_parts_def n prod.case) (simp add: getline_last assms(2) more_pieces_end)
  qed
qed

section \<open>Nodes\<close>

definition keyed_by :: "(string \<Rightarrow> string) \<Rightarrow> node list \<Rightarrow> (hash \<times> node) list \<Rightarrow> bool" where
  "keyed_by gh ns m \<longleftrightarrow> distinct (map (\<lambda>e. digest (fst e)) m) \<and>
     (\<forall>(h, n) \<in> set m. h = Hash_string gh (n_public_key n) \<and> n \<in> set ns) \<and>
     (\<lambda>e. digest (fst e)) ` set m = n_uid ` set ns"

lemma insert_node_keyed:
  assumes "keyed_by gh ns m" "n_uid n = digest (Hash_string gh (n_public_key n))"
  shows "keyed_by gh (ns @ [n]) (insert_node gh n m)"
proof (cases "n_uid n \<in> n_uid ` set ns")
  case True
  then have "n_uid n \<in> (\<lambda>e. digest (fst e)) ` set m" using assms(1) by (simp add: keyed_by_def)
  then have "list_ex (\<lambda>e. digest (fst e) = digest (Hash_string gh (n_public_key n))) m"
    unfolding assms(2) [symmetric] by (force simp: list_ex_iff)
  then have "insert_node gh n m = m" by (simp add: insert_node_def Let_def)
  then show ?thesis using assms(1) True by (auto simp: keyed_by_def)
next
  case False
  then have n: "n_uid n \<notin> (\<lambda>e. digest (fst e)) ` set m" using assms(1) by (simp add: keyed_by_def)
  then have "\<not> list_ex (\<lambda>e. digest (fst e) = digest (Hash_string gh (n_public_key n))) m"
    unfolding assms(2) [symmetric] by (force simp: list_ex_iff)
  then have "insert_node gh n m = m @ [(Hash_string gh (n_public_key n), n)]" by (simp add: insert_node_def Let_def)
  then show ?thesis using assms n by (auto simp: keyed_by_def)
qed

lemma insert_nodes:
  "\<forall>n \<in> set ns. n_uid n = digest (Hash_string gh (n_public_key n)) \<Longrightarrow>
     keyed_by gh ns (foldl (\<lambda>m n. insert_node gh n m) [] ns)"
  by (induction ns rule: rev_induct) (auto intro: insert_node_keyed, simp add: keyed_by_def)

text \<open>What a synchronisation that succeeds leaves.\<close>

lemma synchronizeKeystore_accepted:
  assumes "synchronizeKeystore gh gen parse_pk parse_ks create f_pk if_ks c = (0, c', written)"
  shows "\<exists>ks pks. c' = c\<lparr>cf_hosts := map (\<lambda>h. host_with gh (host_keys pks (h_endpoint h)) h) (cf_hosts c),
      cf_nodes_vec := map (keyed_node gh ks) (cf_nodes_vec c),
      cf_nodes := foldl (\<lambda>m n. insert_node gh n m) (cf_nodes c) (map (keyed_node gh ks) (cf_nodes_vec c))\<rparr>"
  using assms by (auto simp: synchronizeKeystore_def Let_def split: if_splits option.splits prod.splits)

text \<open>What \<^verbatim>\<open>Config::initialize\<close> leaves for the sockets when it returns 0.\<close>

lemma initialize_accepted:
  assumes "Config_initialize x junk sl argv Config_init = Inr (0, c, written)"
  shows "cf_hosts c \<noteq> [] \<and>
     (\<forall>h \<in> set (cf_hosts c). valid_endpoint (h_endpoint h) \<and> h_uid h = getString (Hash_string (x_hash x) (kp_public (h_keypair h)))) \<and>
     (\<forall>(k, n) \<in> set (cf_nodes c). valid_endpoint (n_endpoint n) \<and> n_subtype n = 0)"
proof -
  obtain opts opts' c0 c1 where o: "config_options x opts Config_init = Inr (Some opts', c0)"
    and d: "doSanityCheck (x_is_directory x) (x_hash x) junk sl (o_help opts') (o_nodes opts') (o_hostnames opts') (o_boxes opts') c0 = Inr (0, c1)"
    and s: "\<exists>gen pp pk cr fp ik. synchronizeKeystore (x_hash x) gen pp pk cr fp ik c1 = (0, c, written)"
  proof -
    obtain opts where opts: "x_cmdline x argv = Some opts" using assms by (auto simp: Config_initialize_def split: option.splits)
    then obtain parsed c0 where o: "config_options x opts Config_init = Inr (parsed, c0)"
      using assms by (auto simp: Config_initialize_def bindE_eq_Inr)
    then obtain opts' where p: "parsed = Some opts'" using assms opts by (auto simp: Config_initialize_def split: option.splits)
    obtain r c1 where d: "doSanityCheck (x_is_directory x) (x_hash x) junk sl (o_help opts') (o_nodes opts') (o_hostnames opts') (o_boxes opts') c0 = Inr (r, c1)"
      using assms opts o p by (auto simp: Config_initialize_def bindE_eq_Inr)
    then have "r = 0" using assms opts o p by (cases "r = 0") (simp_all add: Config_initialize_def)
    with assms opts o p d have "\<exists>gen pp pk cr fp ik. synchronizeKeystore (x_hash x) gen pp pk cr fp ik c1 = (0, c, written)"
      by (simp add: Config_initialize_def) blast
    with o p d \<open>r = 0\<close> show ?thesis by (intro that) simp_all
  qed
  have "\<exists>bs. c0 = Config_init\<lparr>cf_boxes := bs\<rparr>"
    using o by (auto simp: config_options_def readConfigFile_def bindE_eq_Inr Config_init_def split: option.splits prod.splits dest: read_blocks_frame)
  then obtain bs0 where c0: "c0 = Config_init\<lparr>cf_boxes := bs0\<rparr>" by blast
  obtain ns hs where ns: "\<forall>n \<in> set ns. valid_endpoint (n_endpoint n) \<and> n_subtype n = 0" "hs \<noteq> []" "\<forall>h \<in> set hs. valid_endpoint (h_endpoint h)"
    "add_boxes (x_is_directory x) (x_hash x) sl (o_boxes opts') (c0\<lparr>cf_nodes_vec := cf_nodes_vec c0 @ ns, cf_hosts := cf_hosts c0 @ hs\<rparr>) = Inr c1"
    using doSanityCheck_steps [OF d] by blast
  obtain bs where c1: "c1 = Config_init\<lparr>cf_nodes_vec := ns, cf_hosts := hs, cf_boxes := bs\<rparr>"
    using add_boxes_frame [OF ns(4)] unfolding c0 by (auto simp: Config_init_def)
  obtain ks pks where c: "cf_hosts c = map (\<lambda>h. host_with (x_hash x) (host_keys pks (h_endpoint h)) h) hs"
    "cf_nodes c = foldl (\<lambda>m n. insert_node (x_hash x) n m) [] (map (keyed_node (x_hash x) ks) ns)"
    using s synchronizeKeystore_accepted unfolding c1 by (fastforce simp: Config_init_def)
  have "keyed_by (x_hash x) (map (keyed_node (x_hash x) ks) ns) (cf_nodes c)"
    unfolding c(2) by (rule insert_nodes) (auto simp: keyed_node_def Let_def)
  then have "\<forall>(k, n) \<in> set (cf_nodes c). valid_endpoint (n_endpoint n) \<and> n_subtype n = 0"
    using ns(1) by (fastforce simp: keyed_by_def keyed_node_def Let_def)
  then show ?thesis using ns(2,3) unfolding c(1) by (auto simp: host_with_def)
qed

section \<open>The life of the process\<close>

lemma read_signals:
  "fst (read_signal v alive_signal) = (F_SIGTYPE_LIFE, F_SIGLIFE_ALIVE)"
  "fst (read_signal v exit_signal) = (F_SIGTYPE_LIFE, F_SIGLIFE_EXIT)"
  "fst (read_signal v (fst interrupt_signal)) = (F_SIGTYPE_LIFE, F_SIGLIFE_INTERRUPT)"
  by (simp_all add: alive_signal_def exit_signal_def interrupt_signal_def read_signal_end sig_defs)

lemma checkChildren_alive: "checkChildren n v (replicate n alive_signal) = Some 0"
  by (induction n arbitrary: v) (use read_signals(1) in \<open>simp_all add: split_def Let_def sig_defs\<close>)

text \<open>The router counts as many messages as it has threads, whatever they are; the interrupt that the main thread
  broadcasts is one of them.\<close>

lemma closeConnections_ends:
  "n \<le> length ms \<Longrightarrow> \<exists>r'. closeConnections n r v ms = Some (r', exit_signal) \<and>
     (set (take n ms) \<subseteq> {exit_signal, fst interrupt_signal} \<longrightarrow> r' = r)"
proof (induction n arbitrary: r v ms)
  case (Suc n)
  then obtain m ms' where ms: "ms = m # ms'" "n \<le> length ms'" by (cases ms) auto
  obtain ty sg s where m: "read_signal v m = ((ty, sg), s)" by (metis prod.exhaust)
  let ?r = "if ty \<noteq> F_SIGTYPE_LIFE \<or> (sg \<noteq> F_SIGLIFE_EXIT \<and> sg \<noteq> F_SIGLIFE_INTERRUPT) then 1 else r"
  have c: "closeConnections (Suc n) r v ms = closeConnections n ?r (ty, sg) ms'" by (simp add: ms(1) m)
  have "?r = r" if "m \<in> {exit_signal, fst interrupt_signal}"
    using that m read_signals(2,3) [of v] by (auto simp: sig_defs)
  moreover obtain r' where "closeConnections n ?r (ty, sg) ms' = Some (r', exit_signal)"
    "set (take n ms') \<subseteq> {exit_signal, fst interrupt_signal} \<longrightarrow> r' = ?r" using Suc.IH [OF ms(2), of ?r "(ty, sg)"] by blast
  ultimately show ?case by (intro exI [of _ r'] conjI impI) (simp only: c, simp add: ms(1))
qed (simp add: exit_signal_def)

lemma runRouter_interrupt:
  "runRouter api v ms bo = Inr (None, bo') \<Longrightarrow> runRouter api v (ms @ [(e, fst interrupt_signal)]) bo = Inr (Some 0, bo')"
proof (induction ms arbitrary: v bo)
  case Nil
  then show ?case using read_signals(3) [of v] by (auto simp: split_def Let_def)
next
  case (Cons x ms)
  obtain e' m ty sg s where x: "x = (e', m)" "read_signal v m = ((ty, sg), s)" by (metis prod.exhaust)
  show ?case
  proof (cases "processEvent api e' (status_of_int sg) s bo")
    case (Inr y)
    with Cons x show ?thesis by (cases y) (auto split: if_splits)
  qed (use Cons.prems x in \<open>auto split: if_splits\<close>)
qed

lemma extract_int_bad: "\<not> good s \<Longrightarrow> fst (extract_int old s) = old \<and> \<not> good (snd (extract_int old s))"
  by (simp add: extract_int_def skipws_def good_def)

lemma main_exit_signal: "main_exit junk exit_signal = 0"
  using read_signals(2) [of junk] read_signal_end(2) [of F_SIGTYPE_LIFE F_SIGLIFE_EXIT junk] extract_int_bad
  by (simp add: main_exit_def exit_signal_def split_def Let_def sig_defs)

text \<open>The main thread waits for one of its two signals and for nothing else.\<close>

definition own_signal :: "int \<Rightarrow> bool" where "own_signal sig \<longleftrightarrow> sig = SIGINT \<or> sig = SIGTERM"

lemma caught_signal:
  "s_catch_signals act sig = (if own_signal sig then Handled s_signal_handler else act sig)" "own_signal sig \<Longrightarrow> sig \<noteq> 0"
  by (auto simp: s_catch_signals_def own_signal_def SIGINT_def SIGTERM_def)

text \<open>A signal that is neither caught nor ignored ends the process.\<close>

definition deadly :: "(int \<Rightarrow> disposition) \<Rightarrow> int \<Rightarrow> bool" where
  "deadly act sig \<longleftrightarrow> \<not> own_signal sig \<and> act sig = Terminates"

lemma deliver_signals_end:
  "\<forall>sig \<in> set sigs. own_signal sig \<or> act sig \<in> {Ignored, Terminates} \<Longrightarrow>
     deliver_signals (s_catch_signals act) sigs s =
       (case List.find (deadly act) sigs of Some sig \<Rightarrow> Inl sig | None \<Rightarrow> Inr (last (s # filter own_signal sigs)))"
  by (induction sigs arbitrary: s) (auto simp: caught_signal s_signal_handler_def deadly_def split: option.splits)

lemma main_wait_set: "s \<noteq> 0 \<Longrightarrow> main_wait act s ticks = Interrupted s"
  by (cases ticks) simp_all

lemma main_wait_signals:
  assumes "\<forall>sig \<in> set (concat ticks). own_signal sig \<or> act sig \<in> {Ignored, Terminates}"
  shows "case List.find (list_ex (\<lambda>sig. own_signal sig \<or> deadly act sig)) ticks of
      None \<Rightarrow> main_wait (s_catch_signals act) 0 ticks = Waiting
    | Some sigs \<Rightarrow> (case List.find (deadly act) sigs of
          Some sig \<Rightarrow> main_wait (s_catch_signals act) 0 ticks = Killed sig
        | None \<Rightarrow> \<exists>sig. main_wait (s_catch_signals act) 0 ticks = Interrupted sig)"
  using assms
proof (induction ticks)
  case (Cons sigs ticks)
  have d: "deliver_signals (s_catch_signals act) sigs 0 =
      (case List.find (deadly act) sigs of Some sig \<Rightarrow> Inl sig | None \<Rightarrow> Inr (last (0 # filter own_signal sigs)))"
    using Cons.prems by (intro deliver_signals_end) auto
  show ?case
  proof (cases "list_ex (\<lambda>sig. own_signal sig \<or> deadly act sig) sigs")
    case False
    then have "filter own_signal sigs = []" "List.find (deadly act) sigs = None"
      by (auto simp: filter_empty_conv list_ex_iff find_None_iff)
    with d have w: "main_wait (s_catch_signals act) 0 (sigs # ticks) = main_wait (s_catch_signals act) 0 ticks" by simp
    have "\<forall>sig \<in> set (concat ticks). own_signal sig \<or> act sig \<in> {Ignored, Terminates}" using Cons.prems by simp
    with False Cons.IH show ?thesis unfolding w by simp
  next
    case True
    show ?thesis
    proof (cases "List.find (deadly act) sigs")
      case None
      then have f: "filter own_signal sigs \<noteq> []" using True by (auto simp: filter_empty_conv list_ex_iff find_None_iff)
      then have "own_signal (last (filter own_signal sigs))" using last_in_set [OF f] by auto
      with True None d f show ?thesis using main_wait_set [OF caught_signal(2)] by simp
    qed (use True d in simp)
  qed
qed simp

text \<open>When the directories of all boxes can be listed the boxes are set up, each with its directory under its hash.\<close>

definition boxes_of :: "config \<Rightarrow> (string \<times> string) list" where
  "boxes_of c = map (\<lambda>(name, b). (bc_uid b, bc_base_path b)) (cf_boxes c)"

lemma setupBoxes_scanned:
  assumes "\<forall>s. length (gh s) = 64" "list_all (\<lambda>(name, b). \<exists>n cs. shows_node dapi ds (bc_base_path b) (FDir n cs) \<and> tree_fits (FDir n cs)) bs"
  shows "\<exists>boxes nxt'. setupBoxes gh dapi ds nxt bs = Some (Inr (boxes, nxt')) \<and> base_dirs boxes = map (\<lambda>(name, b). (bc_uid b, bc_base_path b)) bs"
  using assms(2)
proof (induction bs arbitrary: nxt)
  case (Cons x bs)
  obtain name b where x: "x = (name, b)" by (cases x)
  obtain n cs where "shows_node dapi ds (bc_base_path b) (FDir n cs)" "tree_fits (FDir n cs)" using Cons.prems x by auto
  from box_scan [OF assms(1) this, of nxt "bc_uid b"] obtain bx nxt1 where
    bx: "Box_new gh dapi ds nxt (bc_base_path b) (bc_uid b) = Some (Inr (bx, nxt1))" "box_path bx = bc_base_path b" by blast
  have "list_all (\<lambda>(name, b). \<exists>n cs. shows_node dapi ds (bc_base_path b) (FDir n cs) \<and> tree_fits (FDir n cs)) bs" using Cons.prems by simp
  from Cons.IH [OF this, of nxt1] obtain boxes nxt' where "setupBoxes gh dapi ds nxt1 bs = Some (Inr (boxes, nxt'))"
    "base_dirs boxes = map (\<lambda>(name, b). (bc_uid b, bc_base_path b)) bs" by blast
  with bx x show ?case by (simp add: base_dirs_def getBaseDir_def)
qed (simp add: base_dirs_def)

lemma sample_box_string: "box_string_parts ''n@/b'' = (''n'', ''/b'')"
  using box_string_roundtrip [of "''n''" "''/b''"] by simp

definition sample_options :: options where
  "sample_options = \<lparr>o_help = False, o_create = False, o_config = ''f'', o_keystore = ''k'', o_privatekey = ''p'',
     o_nodes = [''a:1''], o_hostnames = [''tcp://b:2''], o_boxes = [''n@/b'']\<rparr>"

definition sample_config :: string where
  "sample_config = ''[m]'' @ [CHR 0x0A] @ ''j'' @ [CHR 0x0A]"

lemma sample_blocks: "config_blocks sample_config = [(''m'', ''j'' @ [CHR 0x0A])]"
proof -
  have a: "getline (CHR 0x0A) [] (stream_of sample_config) = (''[m]'', stream_at (''[m]'' @ [CHR 0x0A]) (''j'' @ [CHR 0x0A]))"
    using getline_stream_at [of "CHR 0x0A" "''[m]''" "[]" "[]" "''j'' @ [CHR 0x0A]"] by (simp add: stream_of_at sample_config_def)
  have b: "getline (CHR 0x0A) [] (stream_at (''[m]'' @ [CHR 0x0A]) (''j'' @ [CHR 0x0A])) = (''j'', stream_at (''[m]'' @ [CHR 0x0A] @ ''j'' @ [CHR 0x0A]) [])"
    using getline_stream_at [of "CHR 0x0A" "''j''" "[]" "''[m]'' @ [CHR 0x0A]" "[]"] by simp
  have "config_lines (stream_of sample_config) = [''[m]'', ''j'']"
    by (subst config_lines.simps, simp only: a prod.case, simp)
      (subst config_lines.simps, simp only: b [simplified] prod.case, simp,
       subst config_lines.simps, simp add: getline_def good_def)
  then show ?thesis by (simp add: config_blocks_def config_line_def Let_def)
qed

text \<open>A host and a node with a key each, one box in the file and one in the options.\<close>

definition sample_externals :: externals where
  "sample_externals = \<lparr>x_hash = sample_hash, x_cmdline = (\<lambda>_. Some sample_options), x_config = (\<lambda>_ opts. Some opts),
     x_expand = (\<lambda>s. s), x_file = (\<lambda>f. Some (if f = ''f'' then sample_config else [])), x_is_directory = (\<lambda>_. Inr True), x_box_json = (\<lambda>_. Some (''/c'', 1)),
     x_pk_json = (\<lambda>_. (True, [(''tcp://b:2'', \<lparr>kp_public = replicate 40 CHR ''p'', kp_secret = replicate 40 CHR ''s''\<rparr>)])),
     x_ks_json = (\<lambda>_. Some (\<lambda>_. Some (replicate 40 CHR ''n''))),
     x_keypair = (\<lambda>_. \<lparr>kp_public = [], kp_secret = []\<rparr>)\<rparr>"

lemma sample_fields:
  "x_hash sample_externals = sample_hash" "x_is_directory sample_externals = (\<lambda>_. Inr True)" "o_help sample_options = False"
  "o_nodes sample_options = [''a:1'']" "o_hostnames sample_options = [''tcp://b:2'']" "o_boxes sample_options = [''n@/b'']"
  by (simp_all add: sample_externals_def sample_options_def)

lemma sample_named_boxes: "named_boxes sample_externals sample_options sample_options = {(''m'', ''/c''), (''n'', ''/b'')}"
proof -
  have "config_text sample_externals sample_options = Some sample_config" "x_box_json sample_externals = (\<lambda>_. Some (''/c'', 1))"
    by (simp_all add: config_text_def sample_externals_def sample_options_def)
  then show ?thesis by (auto simp: named_boxes_def block_boxes_def sample_blocks sample_fields sample_box_string)
qed

lemma sample_hash_bytes: "getBytes (Hash_string sample_hash s) = Inr (digest (Hash_string sample_hash s))"
  "length (getString (Hash_string sample_hash s)) = 128"
proof -
  have f: "filled (Hash_string sample_hash s)" using length_sample_hash by (simp add: filled_def hash_ok_def Hash_string_def makeHash_def hash_len)
  then show "getBytes (Hash_string sample_hash s) = Inr (digest (Hash_string sample_hash s))" using filled_cases [OF f] by (simp add: getBytes_def)
  show "length (getString (Hash_string sample_hash s)) = 128" by (rule length_getString [OF f])
qed

definition sample_config0 :: config where
  "sample_config0 = Config_init\<lparr>cf_boxes := [(''m'', \<lparr>bc_uid = digest (Hash_string sample_hash ''m''), bc_base_path = ''/c'', bc_symlinks = 1\<rparr>)]\<rparr>"

lemma sample_config_options: "config_options sample_externals sample_options Config_init = Inr (Some sample_options, sample_config0)"
proof -
  obtain r where b: "fold config_line (config_lines (stream_of sample_config)) ([], [], False) = ([(''m'', ''j'' @ [CHR 0x0A])], r)"
    using sample_blocks unfolding config_blocks_def by (metis prod.collapse)
  have f: "o_config sample_options = ''f''" by (simp add: sample_options_def)
  show ?thesis
    by (simp add: config_options_def sample_externals_def readConfigFile_def b f split_def parseBoxConfiguration_def add_box_def updateBoxMap_def
        Let_def sample_hash_bytes sample_config0_def Config_init_def)
qed

lemma sample_config_accepted:
  "\<exists>bs. doSanityCheck (\<lambda>_. Inr True) sample_hash node_default (\<lambda>_. 7) False [''a:1''] [''tcp://b:2''] [''n@/b''] sample_config0 =
     Inr (0, sample_config0\<lparr>cf_nodes_vec := [new_node node_default ''tcp://a:1''], cf_hosts := [new_host ''tcp://b:2''], cf_boxes := bs\<rparr>)"
proof -
  have e: "endpoint_of ''a:1'' = Some ''tcp://a:1''" "endpoint_of ''tcp://b:2'' = Some ''tcp://b:2''"
    by (simp_all add: endpoint_of_def has_prefix_def host_port_def is_digit_def dot_def)
  have "getString (Hash_string sample_hash ''n'') \<noteq> ''m''" using sample_hash_bytes(2) [of "''n''"] by fastforce
  then show ?thesis
    by (simp add: doSanityCheck_def e sample_box_string add_box_def updateBoxMap_def sample_config0_def Config_init_def sample_hash_bytes(1) Let_def)
qed

lemma sample_no_hash_names: "no_hash_names sample_hash {(''m'', ''/c''), (''n'', ''/b'')}"
proof -
  have "getString (Hash_string sample_hash s) \<noteq> [a]" for s a using sample_hash_bytes(2) [of s] by fastforce
  then show ?thesis by (auto simp: no_hash_names_def)
qed

section \<open>Properties\<close>

text \<open>C35. A configuration that is accepted is sound. From the empty configuration, after the configuration file (if it can be
  read) and with the options that result, a sanity check that passes leaves nodes and hosts whose endpoints all carry the
  \<^verbatim>\<open>tcp\<close> or \<^verbatim>\<open>ipc\<close> scheme; every box is one that a block of the file or an option names, has the hash of its name as
  uid and a path that is a directory or empty; and no two boxes have the same path, provided that no box is named as the text of the
  hash of a box's name (such a box is not compared with the others and can share a directory).\<close>

theorem sanity_check_sound:
  assumes "config_options x opts Config_init = Inr (Some opts', c0)"
    and "doSanityCheck (x_is_directory x) (x_hash x) junk sl (o_help opts') (o_nodes opts') (o_hostnames opts') (o_boxes opts') c0 = Inr (0, c)"
    and "\<forall>s. length (x_hash x s) = 64" "no_hash_names (x_hash x) (named_boxes x opts opts')"
  shows "cf_nodes_vec c \<noteq> [] \<and> cf_hosts c \<noteq> [] \<and> cf_nodes c = [] \<and>
     (\<forall>n \<in> set (cf_nodes_vec c). valid_endpoint (n_endpoint n)) \<and> (\<forall>h \<in> set (cf_hosts c). valid_endpoint (h_endpoint h)) \<and>
     boxes_ok (x_is_directory x) (x_hash x) (named_boxes x opts opts') (cf_boxes c)"
proof -
  let ?src = "named_boxes x opts opts'"
  obtain bs0 where bs0: "c0 = Config_init\<lparr>cf_boxes := bs0\<rparr>" "boxes_ok (x_is_directory x) (x_hash x) ?src bs0"
    using config_options_ok [OF assms(1,3,4)] by blast
  obtain ns hs c2 where s: "ns \<noteq> []" "\<forall>n \<in> set ns. valid_endpoint (n_endpoint n) \<and> n_subtype n = 0" "hs \<noteq> []" "\<forall>h \<in> set hs. valid_endpoint (h_endpoint h)"
    "c2 = c0\<lparr>cf_nodes_vec := cf_nodes_vec c0 @ ns, cf_hosts := cf_hosts c0 @ hs\<rparr>"
    "add_boxes (x_is_directory x) (x_hash x) sl (o_boxes opts') c2 = Inr c"
    using doSanityCheck_steps [OF assms(2)] by blast
  have "box_string_parts ` set (o_boxes opts') \<subseteq> ?src" by (simp add: named_boxes_def)
  moreover have "boxes_ok (x_is_directory x) (x_hash x) ?src (cf_boxes c2)" using s(5) bs0 by simp
  ultimately obtain bs where "c = c2\<lparr>cf_boxes := bs\<rparr>" "boxes_ok (x_is_directory x) (x_hash x) ?src bs"
    using add_boxes_ok [OF assms(3,4) _ _ s(6)] by blast
  then show ?thesis using s bs0(1) by (simp add: Config_init_def)
qed

theorem sanity_check_sound_witness:
  "\<exists>bs. doSanityCheck (\<lambda>_. Inr True) sample_hash node_default (\<lambda>_. 7) False [''a:1''] [''tcp://b:2''] [''n@/b''] sample_config0 =
     Inr (0, sample_config0\<lparr>cf_nodes_vec := [new_node node_default ''tcp://a:1''], cf_hosts := [new_host ''tcp://b:2''], cf_boxes := bs\<rparr>) \<and>
     boxes_ok (\<lambda>_. Inr True) sample_hash {(''m'', ''/c''), (''n'', ''/b'')} bs"
proof -
  obtain bs where c: "doSanityCheck (\<lambda>_. Inr True) sample_hash node_default (\<lambda>_. 7) False [''a:1''] [''tcp://b:2''] [''n@/b''] sample_config0 =
     Inr (0, sample_config0\<lparr>cf_nodes_vec := [new_node node_default ''tcp://a:1''], cf_hosts := [new_host ''tcp://b:2''], cf_boxes := bs\<rparr>)"
    using sample_config_accepted by blast
  from sanity_check_sound [OF sample_config_options, unfolded sample_fields sample_named_boxes, OF c] c length_sample_hash sample_no_hash_names
  show ?thesis by auto
qed

text \<open>C36. The nodes are kept by key: when the keystore is synchronised, every entry of the node map is
  a configured node under the hash of its public key, which is its uid; every uid occurs once, so nodes
  without a public key of their own share one entry; and every host has the hash of its public key
  as uid.\<close>

theorem nodes_keyed_by_public_key:
  assumes "synchronizeKeystore gh gen parse_pk parse_ks create f_pk if_ks c = (0, c', written)" "cf_nodes c = []"
  shows "distinct (map (\<lambda>e. digest (fst e)) (cf_nodes c')) \<and>
     (\<forall>(h, n) \<in> set (cf_nodes c'). h = Hash_string gh (n_public_key n) \<and> n_uid n = digest h \<and> n \<in> set (cf_nodes_vec c')) \<and>
     length (cf_nodes c') = card (n_uid ` set (cf_nodes_vec c')) \<and>
     map n_endpoint (cf_nodes_vec c') = map n_endpoint (cf_nodes_vec c) \<and>
     (\<forall>h \<in> set (cf_hosts c'). h_uid h = getString (Hash_string gh (kp_public (h_keypair h))))"
proof -
  obtain ks pks where "c' = c\<lparr>cf_hosts := map (\<lambda>h. host_with gh (host_keys pks (h_endpoint h)) h) (cf_hosts c),
      cf_nodes_vec := map (keyed_node gh ks) (cf_nodes_vec c),
      cf_nodes := foldl (\<lambda>m n. insert_node gh n m) [] (map (keyed_node gh ks) (cf_nodes_vec c))\<rparr>"
    using synchronizeKeystore_accepted [OF assms(1)] unfolding assms(2) by blast
  then have c': "cf_nodes_vec c' = map (keyed_node gh ks) (cf_nodes_vec c)"
    "cf_nodes c' = foldl (\<lambda>m n. insert_node gh n m) [] (cf_nodes_vec c')"
    "cf_hosts c' = map (\<lambda>h. host_with gh (host_keys pks (h_endpoint h)) h) (cf_hosts c)"
    by simp_all
  have u: "\<forall>n \<in> set (cf_nodes_vec c'). n_uid n = digest (Hash_string gh (n_public_key n))"
    unfolding c'(1) by (auto simp: keyed_node_def Let_def)
  note i = insert_nodes [OF u, folded c'(2), unfolded keyed_by_def]
  then have "length (cf_nodes c') = card ((\<lambda>e. digest (fst e)) ` set (cf_nodes c'))"
    using distinct_card [of "map (\<lambda>e. digest (fst e)) (cf_nodes c')"] by simp
  moreover have "map n_endpoint (cf_nodes_vec c') = map n_endpoint (cf_nodes_vec c)"
    unfolding c'(1) by (simp add: keyed_node_def Let_def)
  moreover have "\<forall>h \<in> set (cf_hosts c'). h_uid h = getString (Hash_string gh (kp_public (h_keypair h)))"
    unfolding c'(3) by (auto simp: host_with_def)
  ultimately show ?thesis using i u by auto
qed

theorem nodes_keyed_by_public_key_witness:
  "\<exists>c'. synchronizeKeystore sample_hash (\<lambda>_. \<lparr>kp_public = [], kp_secret = []\<rparr>) (\<lambda>_. (True, [])) (\<lambda>_. Some (\<lambda>_. None)) False (Some []) (Some [])
       (Config_init\<lparr>cf_nodes_vec := [new_node node_default ''tcp://a:1'', new_node node_default ''tcp://b:2'']\<rparr>) = (0, c', None) \<and>
     length (cf_nodes c') = 1"
proof -
  obtain c' where c': "synchronizeKeystore sample_hash (\<lambda>_. \<lparr>kp_public = [], kp_secret = []\<rparr>) (\<lambda>_. (True, [])) (\<lambda>_. Some (\<lambda>_. None)) False (Some []) (Some [])
       (Config_init\<lparr>cf_nodes_vec := [new_node node_default ''tcp://a:1'', new_node node_default ''tcp://b:2'']\<rparr>) = (0, c', None)"
    "n_uid ` set (cf_nodes_vec c') = {digest (Hash_string sample_hash [])}"
    by (simp add: synchronizeKeystore_def Config_init_def keyed_node_def new_node_def Let_def)
  from nodes_keyed_by_public_key [OF c'(1)] c' show ?thesis by (auto simp: Config_init_def)
qed



end
