(* ===== verification/Sockets.thy ===== *)
theory Sockets
  imports Config_Laws
begin

text \<open>
  The sockets of the process: what the constructors, destructors and setup functions of
  \<^verbatim>\<open>Transmitter\<close> and its subclasses, of \<^verbatim>\<open>Boxoffice\<close> and of the main thread ask of
  \<^verbatim>\<open>zmqpp\<close>. Each function is the list of its calls, a call being the member that holds the
  socket and the operation; an object owns its members. \<open>zmqpp\<close> itself is a parameter, a function from its state, the socket and
  the operation to its new state or an exception. A member is a null pointer until its socket is
  created and dangling after it is deleted, so that every other call needs a live socket.
  The context is never null: the base constructor dereferences it before the guards of \<^verbatim>\<open>run\<close>.
\<close>

section \<open>Calls\<close>

datatype socket_type = Z_pub | Z_sub | Z_push | Z_pull | Z_pair

datatype zop =
    Z_socket socket_type
  | Z_auth
  | Z_bind string
  | Z_connect string
  | Z_subscribe string
  | Z_set string string
  | Z_send string
  | Z_close
  | Z_throw flock_error

type_synonym zcall = "string \<times> zop"

datatype object =
    Main_thread
  | Router
  | Box_object nat
  | Publisher_object nat
  | Heartbeater_object nat
  | Dispatcher_object nat
  | Subscriber_object nat

type_synonym member = "object \<times> string"

section \<open>Transmitter\<close>

definition connectToBroadcast :: "zcall list" where
  "connectToBroadcast =
    [(''z_broadcast'', Z_socket Z_sub), (''z_broadcast'', Z_connect ''inproc://f_broadcast''),
     (''z_broadcast'', Z_subscribe '''')]"

definition connectToBoxoffice :: "zcall list" where
  "connectToBoxoffice =
    [(''z_boxoffice_pull'', Z_socket Z_push), (''z_boxoffice_pull'', Z_connect ''inproc://f_boxoffice_pull_in''),
     (''z_boxoffice_push'', Z_socket Z_sub), (''z_boxoffice_push'', Z_connect ''inproc://f_boxoffice_push_out''),
     (''z_boxoffice_push'', Z_subscribe ''''),
     (''z_boxoffice_pull'', Z_send alive_signal)]"

definition Transmitter_new :: "zcall list" where
  "Transmitter_new = connectToBroadcast @ connectToBoxoffice"

definition Transmitter_delete :: "zcall list" where
  "Transmitter_delete = [(''z_broadcast'', Z_close), (''z_boxoffice_pull'', Z_close), (''z_boxoffice_push'', Z_close)]"

definition sendExitSignal :: "zcall list" where
  "sendExitSignal = [(''z_boxoffice_pull'', Z_send exit_signal)]"

section \<open>Heartbeater\<close>

definition hb_connectToPublisher :: "zcall list" where
  "hb_connectToPublisher = [(''z_heartbeater'', Z_socket Z_pair), (''z_heartbeater'', Z_bind ''inproc://pub_hb_pair'')]"

definition connectToBoxofficeHB :: "zcall list" where
  "connectToBoxofficeHB =
    [(''z_boxoffice_hb_push'', Z_socket Z_sub), (''z_boxoffice_hb_push'', Z_connect ''inproc://f_boxoffice_hb_push_out''),
     (''z_boxoffice_hb_push'', Z_subscribe '''')]"

definition Heartbeater_new :: "zcall list" where
  "Heartbeater_new = Transmitter_new @ connectToBoxofficeHB @ hb_connectToPublisher"

definition Heartbeater_delete :: "zcall list" where
  "Heartbeater_delete = [(''z_boxoffice_hb_push'', Z_close), (''z_heartbeater'', Z_close)] @ Transmitter_delete"

section \<open>Dispatcher\<close>

definition disp_connectToPublisher :: "zcall list" where
  "disp_connectToPublisher = [(''z_dispatcher'', Z_socket Z_pair), (''z_dispatcher'', Z_bind ''inproc://pub_disp_pair'')]"

definition connectToBoxofficeDispatcher :: "zcall list" where
  "connectToBoxofficeDispatcher =
    [(''z_boxoffice_disp_push'', Z_socket Z_sub), (''z_boxoffice_disp_push'', Z_connect ''inproc://f_boxoffice_disp_push_out''),
     (''z_boxoffice_disp_push'', Z_subscribe '''')]"

definition Dispatcher_new :: "zcall list" where
  "Dispatcher_new = Transmitter_new @ connectToBoxofficeDispatcher @ disp_connectToPublisher"

definition Dispatcher_delete :: "zcall list" where
  "Dispatcher_delete = [(''z_boxoffice_disp_push'', Z_close), (''z_dispatcher'', Z_close)] @ Transmitter_delete"

section \<open>Publisher\<close>

definition connectToHeartbeater :: "zcall list" where
  "connectToHeartbeater = [(''z_heartbeater'', Z_socket Z_pair), (''z_heartbeater'', Z_connect ''inproc://pub_hb_pair'')]"

definition connectToDispatcher :: "zcall list" where
  "connectToDispatcher = [(''z_dispatcher'', Z_socket Z_pair), (''z_dispatcher'', Z_connect ''inproc://pub_disp_pair'')]"

definition Publisher_new :: "zcall list" where
  "Publisher_new = Transmitter_new @ connectToHeartbeater @ connectToDispatcher"

text \<open>What \<^verbatim>\<open>run\<close> does before its loop; \<open>None\<close> when it returns 1. The authenticator lives until \<^verbatim>\<open>run\<close>
  returns.\<close>

definition publisher_open :: "config \<Rightarrow> host \<Rightarrow> zcall list option" where
  "publisher_open c h =
    (if h_endpoint h = [] then None
     else Some (
       [(''authenticator'', Z_auth), (''authenticator'', Z_set ''verbose'' ''true''), (''authenticator'', Z_set ''domain'' ''*'')] @
       map (\<lambda>k. (''authenticator'', Z_set ''curve'' k)) (getNodePublicKeys c) @
       [(''z_publisher'', Z_socket Z_pub),
        (''z_publisher'', Z_set ''identity'' (h_uid h)),
        (''z_publisher'', Z_set ''curve_server'' ''1''),
        (''z_publisher'', Z_set ''curve_secret_key'' (kp_secret (h_keypair h))),
        (''z_publisher'', Z_bind (c_str (h_endpoint h)))]))"

definition Publisher_delete :: "zcall list" where
  "Publisher_delete =
    [(''z_heartbeater'', Z_close), (''z_dispatcher'', Z_close), (''z_publisher'', Z_close)] @ Transmitter_delete"

section \<open>Subscriber\<close>

definition F_SUBTYPE_TCP_BIDIR :: int where "F_SUBTYPE_TCP_BIDIR = 0"
definition F_SUBTYPE_TCP_UNIDIR :: int where "F_SUBTYPE_TCP_UNIDIR = 1"

definition subscriber_open :: "config \<Rightarrow> node \<Rightarrow> zcall list option" where
  "subscriber_open c n =
    (if n_endpoint n = [] \<or> n_subtype n \<noteq> F_SUBTYPE_TCP_BIDIR \<and> n_subtype n \<noteq> F_SUBTYPE_TCP_UNIDIR then None
     else case getHostKeypair c of
       Inl e \<Rightarrow> Some [(''z_subscriber'', Z_throw e)]
     | Inr k \<Rightarrow> Some
        [(''z_subscriber'', Z_socket Z_sub),
         (''z_subscriber'', Z_set ''curve_server_key'' (n_public_key n)),
         (''z_subscriber'', Z_set ''curve_public_key'' (kp_public k)),
         (''z_subscriber'', Z_set ''curve_secret_key'' (kp_secret k)),
         (''z_subscriber'', Z_connect (c_str (n_endpoint n))),
         (''z_subscriber'', Z_subscribe '''')])"

definition Subscriber_delete :: "zcall list" where
  "Subscriber_delete = [(''z_subscriber'', Z_close)] @ Transmitter_delete"

section \<open>The lives of the threads\<close>

text \<open>From constructor to destructor, with the messages the loop sends; with \<open>None\<close> the loop is not
  entered.\<close>

definition heartbeater_life :: "string list \<Rightarrow> zcall list" where
  "heartbeater_life ms =
    Heartbeater_new @ map (\<lambda>m. (''z_heartbeater'', Z_send m)) ms @ sendExitSignal @ Heartbeater_delete"

definition disp_send :: "disp_out \<Rightarrow> zcall" where
  "disp_send m = (case m of To_publisher s \<Rightarrow> (''z_dispatcher'', Z_send s) | To_boxoffice s \<Rightarrow> (''z_boxoffice_pull'', Z_send s))"

definition dispatcher_life :: "disp_out list \<Rightarrow> zcall list" where
  "dispatcher_life ms = Dispatcher_new @ map disp_send ms @ sendExitSignal @ Dispatcher_delete"

definition publisher_life :: "config \<Rightarrow> host \<Rightarrow> string list \<Rightarrow> zcall list" where
  "publisher_life c h ms =
    Publisher_new @
    (case publisher_open c h of
       None \<Rightarrow> []
     | Some cs \<Rightarrow> cs @ map (\<lambda>m. (''z_publisher'', Z_send m)) ms @ [(''authenticator'', Z_close)]) @
    sendExitSignal @ Publisher_delete"

definition subscriber_life :: "config \<Rightarrow> node \<Rightarrow> string list \<Rightarrow> zcall list" where
  "subscriber_life c n ms =
    Transmitter_new @
    (case subscriber_open c n of None \<Rightarrow> [] | Some cs \<Rightarrow> cs @ map (\<lambda>m. (''z_boxoffice_pull'', Z_send m)) ms) @
    sendExitSignal @ Subscriber_delete"

text \<open>The router constructs a box, its thread runs and deletes it.\<close>

definition box_life :: "string list \<Rightarrow> zcall list" where
  "box_life ms = Transmitter_new @ map (\<lambda>m. (''z_boxoffice_pull'', Z_send m)) ms @ sendExitSignal @ Transmitter_delete"

section \<open>The start of the process\<close>

definition main_sockets :: "zcall list" where
  "main_sockets =
    [(''z_broadcast'', Z_socket Z_pub), (''z_broadcast'', Z_bind ''inproc://f_broadcast''),
     (''z_boxoffice'', Z_socket Z_pair), (''z_boxoffice'', Z_bind ''inproc://f_bo_main_pair'')]"

definition bo_connectToBroadcast :: "zcall list" where
  "bo_connectToBroadcast =
    [(''z_broadcast'', Z_socket Z_sub), (''z_broadcast'', Z_connect ''inproc://f_broadcast''),
     (''z_broadcast'', Z_subscribe '''')]"

definition connectToMain :: "zcall list" where
  "connectToMain = [(''z_bo_main'', Z_socket Z_pair), (''z_bo_main'', Z_connect ''inproc://f_bo_main_pair'')]"

definition setupConnectionToChildren :: "zcall list" where
  "setupConnectionToChildren =
    [(''z_router'', Z_socket Z_pull), (''z_router'', Z_bind ''inproc://f_boxoffice_pull_in''),
     (''z_bo_pub'', Z_socket Z_pub), (''z_bo_pub'', Z_bind ''inproc://f_boxoffice_push_out''),
     (''z_bo_hb'', Z_socket Z_pub), (''z_bo_hb'', Z_bind ''inproc://f_boxoffice_hb_push_out''),
     (''z_bo_disp'', Z_socket Z_pub), (''z_bo_disp'', Z_bind ''inproc://f_boxoffice_disp_push_out'')]"

definition main_life :: "zcall list" where
  "main_life = main_sockets @
    [(''z_boxoffice'', Z_send (fst interrupt_signal)), (''z_broadcast'', Z_send (fst interrupt_signal)),
     (''z_boxoffice'', Z_close), (''z_broadcast'', Z_close)]"

text \<open>What \<^verbatim>\<open>closeConnections\<close> does once the threads have exited.\<close>

definition router_close :: "zcall list" where
  "router_close =
    [(''z_broadcast'', Z_close), (''z_router'', Z_close), (''z_bo_pub'', Z_close), (''z_bo_hb'', Z_close), (''z_bo_disp'', Z_close),
     (''z_bo_main'', Z_send exit_signal), (''z_bo_main'', Z_close)]"

text \<open>The router from start to end, with the messages it sends to heartbeaters and dispatchers.\<close>

definition router_life :: "string list \<Rightarrow> string list \<Rightarrow> zcall list" where
  "router_life hb disp = bo_connectToBroadcast @ connectToMain @ setupConnectionToChildren @
    map (\<lambda>m. (''z_bo_hb'', Z_send m)) hb @ map (\<lambda>m. (''z_bo_disp'', Z_send m)) disp @ router_close"

definition owned :: "object \<Rightarrow> zcall list \<Rightarrow> (object \<times> zcall) list" where
  "owned t = map (Pair t)"

text \<open>The boxes are constructed in the thread of the router.\<close>

definition router_start :: "config \<Rightarrow> (object \<times> zcall) list" where
  "router_start c =
    owned Router (bo_connectToBroadcast @ connectToMain @ setupConnectionToChildren) @
    concat (map (\<lambda>(i, b). owned (Box_object i) Transmitter_new) (enumerate 0 (cf_boxes c)))"

text \<open>The threads the router opens, up to their loops.\<close>

definition setupPublishers :: "config \<Rightarrow> (object \<times> zcall) list list" where
  "setupPublishers c =
    map (\<lambda>(i, h). owned (Publisher_object i) (Publisher_new @ (case publisher_open c h of None \<Rightarrow> [] | Some cs \<Rightarrow> cs)))
      (enumerate 0 (cf_hosts c))"

definition setupHeartbeaters :: "config \<Rightarrow> (object \<times> zcall) list list" where
  "setupHeartbeaters c = map (\<lambda>(i, h). owned (Heartbeater_object i) Heartbeater_new) (enumerate 0 (cf_hosts c))"

definition setupDispatchers :: "config \<Rightarrow> (object \<times> zcall) list list" where
  "setupDispatchers c = map (\<lambda>(i, h). owned (Dispatcher_object i) Dispatcher_new) (enumerate 0 (cf_hosts c))"

definition setupSubscribers :: "config \<Rightarrow> (object \<times> zcall) list list" where
  "setupSubscribers c =
    map (\<lambda>(i, (k, n)). owned (Subscriber_object i) (Transmitter_new @ (case subscriber_open c n of None \<Rightarrow> [] | Some cs \<Rightarrow> cs)))
      (enumerate 0 (cf_nodes c))"

definition children :: "config \<Rightarrow> (object \<times> zcall) list list" where
  "children c = setupPublishers c @ setupHeartbeaters c @ setupDispatchers c @ setupSubscribers c"

text \<open>The scheduler runs one call of a thread that is not done at a time.\<close>

inductive interleaving :: "'a list list \<Rightarrow> 'a list \<Rightarrow> bool" where
  interleaving_done: "list_all (\<lambda>xs. xs = []) xss \<Longrightarrow> interleaving xss []"
| interleaving_step: "i < length xss \<Longrightarrow> xss ! i = x # xs \<Longrightarrow> interleaving (xss[i := xs]) ys \<Longrightarrow> interleaving xss (x # ys)"

definition start_schedule :: "config \<Rightarrow> (object \<times> zcall) list \<Rightarrow> bool" where
  "start_schedule c calls \<longleftrightarrow>
    (\<exists>ys. interleaving (children c) ys \<and> calls = owned Main_thread main_sockets @ router_start c @ ys)"

section \<open>What the library makes of the calls\<close>

definition zmq_step :: "('z \<Rightarrow> member \<Rightarrow> zop \<Rightarrow> 'z result) \<Rightarrow> 'z \<times> member list \<Rightarrow> object \<times> zcall \<Rightarrow> ('z \<times> member list) result" where
  "zmq_step zmq st call =
    (case (st, call) of ((z, live), (t, m, op)) \<Rightarrow>
     case op of
       Z_throw e \<Rightarrow> Inl e
     | Z_socket ty \<Rightarrow> bindE (zmq z (t, m) op) (\<lambda>z. Inr (z, (t, m) # live))
     | Z_auth \<Rightarrow> bindE (zmq z (t, m) op) (\<lambda>z. Inr (z, (t, m) # live))
     | _ \<Rightarrow>
         if (t, m) \<notin> set live then Inl Undefined_behaviour
         else bindE (zmq z (t, m) op) (\<lambda>z. Inr (z, if op = Z_close then remove1 (t, m) live else live)))"

definition exec :: "('z \<Rightarrow> member \<Rightarrow> zop \<Rightarrow> 'z result) \<Rightarrow> 'z \<times> member list \<Rightarrow> (object \<times> zcall) list \<Rightarrow> ('z \<times> member list) result" where
  "exec zmq = foldE (zmq_step zmq)"

end
