(* ===== verification/Sockets_Laws.thy ===== *)
theory Sockets_Laws
  imports Sockets "HOL-Library.Multiset"
begin

text \<open>
  What holds of the sockets in every schedule of the start: whether the start succeeds depends on
  the binds and on the keys and endpoints that are given to the library, and they are the same in every schedule. What
  \<^verbatim>\<open>libzmq\<close> documents is the predicate \<open>zmq_laws\<close>.
\<close>

section \<open>Schedules\<close>

lemma interleaving_mset: "interleaving xss ys \<Longrightarrow> mset ys = mset (concat xss)"
proof (induction rule: interleaving.induct)
  case (interleaving_done xss)
  then show ?case by (induction xss) auto
next
  case (interleaving_step i xss x xs ys)
  then have "xss = take i xss @ (x # xs) # drop (Suc i) xss" using id_take_nth_drop by metis
  then have "mset (concat xss) = add_mset x (mset (concat (xss[i := xs])))"
    using interleaving_step.hyps(1) by (metis (no_types, lifting) concat.simps(2) concat_append mset_append
        append_Cons mset.simps(2) union_mset_add_mset_right union_mset_add_mset_left upd_conv_take_nth_drop)
  with interleaving_step.IH show ?case by simp
qed

lemma interleaving_ahead: "interleaving (pre @ ys # post) zs \<Longrightarrow> interleaving (pre @ (xs @ ys) # post) (xs @ zs)"
  by (induction xs) (auto intro!: interleaving_step [of "length pre"])

text \<open>Every thread may run its first part before any runs its second.\<close>

lemma interleaving_rounds:
  "interleaving (pre @ map g is) zs \<Longrightarrow> interleaving (pre @ map (\<lambda>i. f i @ g i) is) (concat (map f is) @ zs)"
proof (induction "is" arbitrary: pre)
  case (Cons i "is")
  from Cons.IH [of "pre @ [g i]"] Cons.prems
  have "interleaving (pre @ g i # map (\<lambda>i. f i @ g i) is) (concat (map f is) @ zs)" by simp
  from interleaving_ahead [OF this, of "f i"] show ?case by simp
qed simp

lemma interleaving_sequence: "interleaving (map f is) (concat (map f is))"
  using interleaving_rounds [of "[]" "\<lambda>_. []" "is" "[]" f] by (simp add: interleaving_done list_all_iff)

section \<open>Runs without closing\<close>

fun creates :: "zop \<Rightarrow> bool" where
  "creates (Z_socket ty) = True"
| "creates Z_auth = True"
| "creates _ = False"

fun starting :: "zop \<Rightarrow> bool" where
  "starting Z_close = False"
| "starting (Z_throw e) = False"
| "starting _ = True"

fun bound_by :: "object \<times> zcall \<Rightarrow> string list" where
  "bound_by (t, m, Z_bind ep) = [ep]"
| "bound_by _ = []"

definition binds :: "(object \<times> zcall) list \<Rightarrow> string list" where
  "binds calls = concat (map bound_by calls)"

text \<open>Every call but the creation is on a socket that has been created.\<close>

fun well_opened :: "member set \<Rightarrow> (object \<times> zcall) list \<Rightarrow> bool" where
  "well_opened live [] = True"
| "well_opened live ((t, m, op) # cs) \<longleftrightarrow>
     starting op \<and> (creates op \<or> (t, m) \<in> live) \<and> well_opened (if creates op then insert (t, m) live else live) cs"

text \<open>The library: what a call does to its state, the endpoints that are bound in a state, how many sockets can still be
  created, how many an authenticator takes, and the arguments it accepts, keys and endpoints
  among them (an endpoint is accepted when this machine has it and no other process uses it).\<close>

record 'z zmq_lib =
  l_step :: "'z \<Rightarrow> member \<Rightarrow> zop \<Rightarrow> 'z result"
  l_bound :: "'z \<Rightarrow> string set"
  l_left :: "'z \<Rightarrow> nat"
  l_auth :: nat
  l_usable :: "zop \<Rightarrow> bool"

fun cost :: "nat \<Rightarrow> zop \<Rightarrow> nat" where
  "cost a (Z_socket ty) = 1"
| "cost a Z_auth = a"
| "cost a _ = 0"

definition needed :: "'z zmq_lib \<Rightarrow> (object \<times> zcall) list \<Rightarrow> nat" where
  "needed L calls = sum_list (map (\<lambda>(t, m, op). cost (l_auth L) op) calls)"

definition inproc :: "string \<Rightarrow> bool" where
  "inproc ep \<longleftrightarrow> has_prefix ''inproc://'' ep"

definition key_option :: "string \<Rightarrow> bool" where
  "key_option opt \<longleftrightarrow> opt \<in> {''curve_server_key'', ''curve_public_key'', ''curve_secret_key''}"

text \<open>What is accepted whatever the configuration: an identity has 1 to 255 bytes and does not start with zero.\<close>

fun plain :: "zop \<Rightarrow> bool" where
  "plain (Z_set opt v) \<longleftrightarrow> opt \<in> {''verbose'', ''domain'', ''curve'', ''curve_server''} \<or>
     opt = ''identity'' \<and> v \<noteq> [] \<and> length v \<le> 255 \<and> hd v \<noteq> NUL"
| "plain (Z_bind ep) \<longleftrightarrow> inproc ep"
| "plain (Z_connect ep) \<longleftrightarrow> inproc ep"
| "plain _ = True"

text \<open>A bind needs an endpoint that is not taken; of two endpoints that are both outside the process it is not said whether
  they go together.\<close>

fun free :: "string set \<Rightarrow> zop \<Rightarrow> bool" where
  "free B (Z_bind ep) \<longleftrightarrow> ep \<notin> B \<and> (inproc ep \<or> (\<forall>e \<in> B. inproc e))"
| "free B _ = True"

text \<open>What \<^verbatim>\<open>libzmq\<close> documents, for a build with \<^verbatim>\<open>CURVE\<close> (4.0 or later, where a connect inside the process
  may come before the bind) and a process that has memory: keys that have neither the length of 32 bytes nor that of the
  text form (40, or 41 with its zero) are \<^verbatim>\<open>EINVAL\<close>; a call that succeeds had arguments that are accepted and, if it is a bind, an
  endpoint that was not taken; a call with accepted arguments succeeds while there are sockets left, a bind if the endpoint is free;
  a close gives back what the socket had. Whether a send waits for room is not followed.\<close>

definition zmq_laws :: "'z zmq_lib \<Rightarrow> bool" where
  "zmq_laws L \<longleftrightarrow>
    (\<forall>op. plain op \<longrightarrow> l_usable L op) \<and>
    (\<forall>opt k. key_option opt \<and> l_usable L (Z_set opt k) \<longrightarrow> length k \<in> {32, 40, 41}) \<and>
    (\<forall>z t m op z'. starting op \<and> l_step L z (t, m) op = Inr z' \<longrightarrow>
       l_usable L op \<and> set (bound_by (t, m, op)) \<inter> l_bound L z = {} \<and> l_bound L z \<union> set (bound_by (t, m, op)) \<subseteq> l_bound L z') \<and>
    (\<forall>z t m op. starting op \<and> l_usable L op \<and> cost (l_auth L) op \<le> l_left L z \<and> free (l_bound L z) op \<longrightarrow>
       (\<exists>z'. l_step L z (t, m) op = Inr z' \<and> l_bound L z' = l_bound L z \<union> set (bound_by (t, m, op)) \<and>
          l_left L z \<le> l_left L z' + cost (l_auth L) op)) \<and>
    (\<forall>z s. \<exists>z'. l_step L z s Z_close = Inr z' \<and> l_bound L z' \<subseteq> l_bound L z \<and> l_left L z \<le> l_left L z')"

lemma zmq_lawsD:
  assumes "zmq_laws L"
  shows "plain op \<Longrightarrow> l_usable L op"
    and "key_option opt \<Longrightarrow> l_usable L (Z_set opt k) \<Longrightarrow> length k \<in> {32, 40, 41}"
    and "starting op \<Longrightarrow> l_step L z (t, m) op = Inr z' \<Longrightarrow>
       l_usable L op \<and> set (bound_by (t, m, op)) \<inter> l_bound L z = {} \<and> l_bound L z \<union> set (bound_by (t, m, op)) \<subseteq> l_bound L z'"
    and "starting op \<Longrightarrow> l_usable L op \<Longrightarrow> cost (l_auth L) op \<le> l_left L z \<Longrightarrow> free (l_bound L z) op \<Longrightarrow>
       \<exists>z'. l_step L z (t, m) op = Inr z' \<and> l_bound L z' = l_bound L z \<union> set (bound_by (t, m, op)) \<and>
          l_left L z \<le> l_left L z' + cost (l_auth L) op"
    and "\<exists>z'. l_step L z s Z_close = Inr z' \<and> l_bound L z' \<subseteq> l_bound L z \<and> l_left L z \<le> l_left L z'"
proof -
  note l = assms [unfolded zmq_laws_def]
  show "plain op \<Longrightarrow> l_usable L op" using conjunct1 [OF l] by blast
  note l = conjunct2 [OF l]
  show "key_option opt \<Longrightarrow> l_usable L (Z_set opt k) \<Longrightarrow> length k \<in> {32, 40, 41}" using conjunct1 [OF l] by blast
  note l = conjunct2 [OF l]
  show "starting op \<Longrightarrow> l_step L z (t, m) op = Inr z' \<Longrightarrow>
       l_usable L op \<and> set (bound_by (t, m, op)) \<inter> l_bound L z = {} \<and> l_bound L z \<union> set (bound_by (t, m, op)) \<subseteq> l_bound L z'"
    using conjunct1 [OF l, rule_format, of op z t m z'] by blast
  note l = conjunct2 [OF l]
  show "starting op \<Longrightarrow> l_usable L op \<Longrightarrow> cost (l_auth L) op \<le> l_left L z \<Longrightarrow> free (l_bound L z) op \<Longrightarrow>
       \<exists>z'. l_step L z (t, m) op = Inr z' \<and> l_bound L z' = l_bound L z \<union> set (bound_by (t, m, op)) \<and>
          l_left L z \<le> l_left L z' + cost (l_auth L) op"
    using conjunct1 [OF l, rule_format, of op z t m] by blast
  show "\<exists>z'. l_step L z s Z_close = Inr z' \<and> l_bound L z' \<subseteq> l_bound L z \<and> l_left L z \<le> l_left L z'"
    using conjunct2 [OF l, rule_format, of z s] by blast
qed

lemma needed_simps [simp]:
  "needed L [] = 0" "needed L ((t, m, op) # cs) = cost (l_auth L) op + needed L cs" "needed L (xs @ ys) = needed L xs + needed L ys"
  by (simp_all add: needed_def)

definition usable_calls :: "'z zmq_lib \<Rightarrow> (object \<times> zcall) list \<Rightarrow> bool" where
  "usable_calls L calls \<longleftrightarrow> (\<forall>(t, m, op) \<in> set calls. starting op \<longrightarrow> l_usable L op)"

lemma usable_simps [simp]:
  "usable_calls L []" "usable_calls L ((t, m, op) # cs) \<longleftrightarrow> (starting op \<longrightarrow> l_usable L op) \<and> usable_calls L cs"
  "usable_calls L (xs @ ys) \<longleftrightarrow> usable_calls L xs \<and> usable_calls L ys"
  by (simp_all add: usable_calls_def ball_Un)

text \<open>At most one endpoint is outside the process.\<close>

definition one_outer :: "string set \<Rightarrow> bool" where
  "one_outer B \<longleftrightarrow> (\<forall>e \<in> B. \<forall>e' \<in> B. \<not> inproc e \<and> \<not> inproc e' \<longrightarrow> e = e')"

lemma one_outer_mono: "one_outer B \<Longrightarrow> A \<subseteq> B \<Longrightarrow> one_outer A"
  unfolding one_outer_def by blast

lemma binds_simps [simp]:
  "binds [] = []" "binds (x # xs) = bound_by x @ binds xs" "binds (xs @ ys) = binds xs @ binds ys"
  "binds (concat xss) = concat (map binds xss)"
  by (induction xss) (simp_all add: binds_def)

lemma well_opened_mono: "well_opened A cs \<Longrightarrow> A \<subseteq> B \<Longrightarrow> well_opened B cs"
proof (induction cs arbitrary: A B)
  case (Cons c cs)
  obtain t m op where "c = (t, m, op)" by (metis prod.exhaust)
  with Cons.prems Cons.IH [of "if creates op then insert (t, m) A else A" "if creates op then insert (t, m) B else B"]
  show ?case by (auto split: if_splits)
qed simp

lemmas well_opened_insert = well_opened_mono [OF _ subset_insertI]

lemma well_opened_append: "well_opened A xs \<Longrightarrow> well_opened A ys \<Longrightarrow> well_opened A (xs @ ys)"
proof (induction xs arbitrary: A)
  case (Cons c cs)
  obtain t m op where c: "c = (t, m, op)" by (metis prod.exhaust)
  have "well_opened (if creates op then insert (t, m) A else A) ys" using Cons.prems(2) well_opened_insert by auto
  from Cons.IH [OF _ this] Cons.prems(1) c show ?case by simp
qed simp

lemma interleaving_well_opened: "interleaving xss ys \<Longrightarrow> \<forall>xs \<in> set xss. well_opened A xs \<Longrightarrow> well_opened A ys"
proof (induction arbitrary: A rule: interleaving.induct)
  case (interleaving_step i xss x xs ys)
  obtain t m op where x: "x = (t, m, op)" by (metis prod.exhaust)
  let ?B = "if creates op then insert (t, m) A else A"
  have w: "well_opened A (x # xs)" using interleaving_step.prems interleaving_step.hyps(1,2) nth_mem by metis
  have "\<forall>zs \<in> set (xss[i := xs]). well_opened ?B zs"
  proof
    fix zs assume "zs \<in> set (xss[i := xs])"
    then have "zs = xs \<or> zs \<in> set xss" using set_update_subset_insert by (metis in_mono insertE)
    then show "well_opened ?B zs" using w x interleaving_step.prems by (auto intro: well_opened_insert)
  qed
  from interleaving_step.IH [OF this] w x show ?case by simp
qed simp

lemma zmq_step_start:
  assumes "zmq_laws L" "starting op" "creates op \<or> (t, m) \<in> set live" "l_usable L op" "cost (l_auth L) op \<le> l_left L z"
    and "set (bound_by (t, m, op)) \<inter> l_bound L z = {}" "one_outer (set (bound_by (t, m, op)) \<union> l_bound L z)"
  shows "\<exists>z'. zmq_step (l_step L) (z, live) (t, m, op) = Inr (z', if creates op then (t, m) # live else live) \<and>
     l_bound L z' = l_bound L z \<union> set (bound_by (t, m, op)) \<and> l_left L z \<le> l_left L z' + cost (l_auth L) op"
proof -
  have "free (l_bound L z) op" using assms(6,7) by (cases op) (auto simp: one_outer_def)
  from zmq_lawsD(4) [OF assms(1,2,4,5) this, of t m] obtain z' where z': "l_step L z (t, m) op = Inr z'"
    "l_bound L z' = l_bound L z \<union> set (bound_by (t, m, op))" "l_left L z \<le> l_left L z' + cost (l_auth L) op" by blast
  with assms(2,3) show ?thesis by (cases op) (auto simp: zmq_step_def)
qed

text \<open>A run that gets through had accepted arguments, and endpoints that are taken once.\<close>

lemma zmq_step_Inr:
  "zmq_step zmq (z, live) (t, m, op) = Inr st \<Longrightarrow> \<exists>z' live'. st = (z', live') \<and> zmq z (t, m) op = Inr z'"
  by (cases op) (auto simp: zmq_step_def bindE_eq_Inr split: if_splits)

lemma exec_usable:
  assumes "zmq_laws L"
  shows "exec (l_step L) (z, live) cs = Inr st \<Longrightarrow> usable_calls L cs"
proof (induction cs arbitrary: z live)
  case (Cons c cs)
  obtain t m op where c: "c = (t, m, op)" by (metis prod.exhaust)
  obtain z' live' where s: "zmq_step (l_step L) (z, live) c = Inr (z', live')" "l_step L z (t, m) op = Inr z'"
    "exec (l_step L) (z', live') cs = Inr st"
    using Cons.prems zmq_step_Inr [of "l_step L" z live t m op] c by (fastforce simp: exec_def bindE_eq_Inr)
  from Cons.IH [OF s(3)] zmq_lawsD(3) [OF assms _ s(2)] c show ?case by simp
qed simp

lemma exec_binds:
  assumes "zmq_laws L"
  shows "well_opened A cs \<Longrightarrow> exec (l_step L) (z, live) cs = Inr st \<Longrightarrow> distinct (binds cs) \<and> set (binds cs) \<inter> l_bound L z = {}"
proof (induction cs arbitrary: z live A)
  case (Cons c cs)
  obtain t m op where c: "c = (t, m, op)" by (metis prod.exhaust)
  obtain z' live' where s: "zmq_step (l_step L) (z, live) c = Inr (z', live')" "l_step L z (t, m) op = Inr z'"
    "exec (l_step L) (z', live') cs = Inr st"
    using Cons.prems(2) zmq_step_Inr [of "l_step L" z live t m op] c by (fastforce simp: exec_def bindE_eq_Inr)
  have "starting op" "distinct (bound_by c)" using Cons.prems(1) c by (simp, cases op, simp_all)
  moreover have "distinct (binds cs)" "set (binds cs) \<inter> l_bound L z' = {}"
    using Cons.IH [OF _ s(3)] Cons.prems(1) c by (auto split: if_splits)
  moreover have "set (bound_by c) \<inter> l_bound L z = {}" "l_bound L z \<union> set (bound_by c) \<subseteq> l_bound L z'"
    using zmq_lawsD(3) [OF assms _ s(2)] calculation(1) c by auto
  ultimately show ?case by auto
qed simp

lemma exec_succeeds:
  assumes "zmq_laws L"
  shows "well_opened (set live) cs \<Longrightarrow> usable_calls L cs \<Longrightarrow> needed L cs \<le> l_left L z \<Longrightarrow> distinct (binds cs) \<Longrightarrow>
     set (binds cs) \<inter> l_bound L z = {} \<Longrightarrow> one_outer (set (binds cs) \<union> l_bound L z) \<Longrightarrow> \<exists>st. exec (l_step L) (z, live) cs = Inr st"
proof (induction cs arbitrary: z live)
  case Nil
  then show ?case by (simp add: exec_def)
next
  case (Cons c cs)
  obtain t m op where c: "c = (t, m, op)" by (metis prod.exhaust)
  let ?live = "if creates op then (t, m) # live else live"
  have o: "one_outer (set (bound_by (t, m, op)) \<union> l_bound L z)" using Cons.prems(6) c by (elim one_outer_mono) auto
  obtain z' where z': "zmq_step (l_step L) (z, live) c = Inr (z', ?live)" "l_bound L z' = l_bound L z \<union> set (bound_by c)"
    "l_left L z \<le> l_left L z' + cost (l_auth L) op"
    using zmq_step_start [OF assms _ _ _ _ _ o, of live] Cons.prems(1-5) c by auto
  have "\<exists>st. exec (l_step L) (z', ?live) cs = Inr st"
  proof (rule Cons.IH)
    show "one_outer (set (binds cs) \<union> l_bound L z')" using Cons.prems(6) unfolding z'(2) by (elim one_outer_mono) auto
  qed (use Cons.prems z' c in \<open>auto split: if_splits\<close>)
  with z'(1) show ?case by (simp add: exec_def)
qed

section \<open>The binds of the start\<close>

lemma valid_endpoint_not_inproc: "valid_endpoint e \<Longrightarrow> e \<noteq> [] \<and> \<not> has_prefix ''inproc'' (c_str e)"
proof -
  assume "valid_endpoint e"
  then have "take 6 e = ''tcp://'' \<or> take 6 e = ''ipc://''" by (auto simp: valid_endpoint_def has_prefix_def eval_nat_numeral)
  then obtain r where "e = ''tcp://'' @ r \<or> e = ''ipc://'' @ r" by (metis append_take_drop_id)
  then show ?thesis by (auto simp: has_prefix_def c_str_def NUL_def)
qed

lemma mset_binds: "mset xs = mset ys \<Longrightarrow> mset (binds xs) = mset (binds ys)"
proof -
  have "mset (binds zs) = \<Sum>\<^sub># (image_mset (\<lambda>c. mset (bound_by c)) (mset zs))" for zs by (induction zs) simp_all
  then show "mset xs = mset ys \<Longrightarrow> ?thesis" by simp
qed

lemmas transmitter_sockets = Transmitter_new_def connectToBroadcast_def connectToBoxoffice_def
lemmas heartbeater_sockets = Heartbeater_new_def connectToBoxofficeHB_def hb_connectToPublisher_def
lemmas dispatcher_sockets = Dispatcher_new_def connectToBoxofficeDispatcher_def disp_connectToPublisher_def
lemmas publisher_sockets = Publisher_new_def connectToHeartbeater_def connectToDispatcher_def
lemmas router_sockets = bo_connectToBroadcast_def connectToMain_def setupConnectionToChildren_def

lemma owned_simps [simp]:
  "owned t [] = []" "owned t (x # xs) = (t, x) # owned t xs" "owned t (xs @ ys) = owned t xs @ owned t ys"
  "set (owned t xs) = Pair t ` set xs"
  by (simp_all add: owned_def)

lemma binds_settings [simp]: "binds (owned t (map (\<lambda>k. (m, Z_set s (f k))) ks)) = []"
  by (induction ks) simp_all

lemma well_opened_settings: "(t, m) \<in> A \<Longrightarrow> well_opened A (owned t (map (\<lambda>k. (m, Z_set s (f k))) ks))"
  by (induction ks) simp_all

lemma binds_transmitter [simp]: "binds (owned t Transmitter_new) = []"
  by (simp add: transmitter_sockets)

lemma binds_publisher:
  "binds (owned t (case publisher_open c h of None \<Rightarrow> [] | Some cs \<Rightarrow> cs)) = (if h_endpoint h = [] then [] else [c_str (h_endpoint h)])"
  by (simp add: publisher_open_def)

lemma binds_subscriber: "binds (owned t (case subscriber_open c n of None \<Rightarrow> [] | Some cs \<Rightarrow> cs)) = []"
  by (simp add: subscriber_open_def split: sum.splits)

lemma concat_map_enumerate: "concat (map (\<lambda>(i, x). f x) (enumerate n xs)) = concat (map f xs)"
  by (induction xs arbitrary: n) simp_all

lemma binds_children:
  assumes "\<forall>h \<in> set (cf_hosts c). h_endpoint h \<noteq> []"
  shows "binds (concat (children c)) = map (\<lambda>h. c_str (h_endpoint h)) (cf_hosts c) @
     replicate (length (cf_hosts c)) ''inproc://pub_hb_pair'' @ replicate (length (cf_hosts c)) ''inproc://pub_disp_pair''"
proof -
  have p: "concat (map (\<lambda>h. if h_endpoint h = [] then [] else [c_str (h_endpoint h)]) hs) =
      map (\<lambda>h. c_str (h_endpoint h)) hs" if "\<forall>h \<in> set hs. h_endpoint h \<noteq> []" for hs using that by (induction hs) auto
  have "concat (map binds (setupSubscribers c)) = []"
    by (auto simp: setupSubscribers_def binds_subscriber)
  moreover have "concat (map binds (setupPublishers c)) = map (\<lambda>h. c_str (h_endpoint h)) (cf_hosts c)"
    using concat_map_enumerate [of "\<lambda>h. if h_endpoint h = [] then [] else [c_str (h_endpoint h)]" 0 "cf_hosts c"] p [OF assms]
    by (simp add: setupPublishers_def publisher_sockets binds_publisher comp_def split_def)
  moreover have "concat (map binds (setupHeartbeaters c)) = replicate (length (cf_hosts c)) ''inproc://pub_hb_pair''"
    using concat_map_enumerate [of "\<lambda>h. [''inproc://pub_hb_pair'']" 0 "cf_hosts c"]
    by (simp add: setupHeartbeaters_def heartbeater_sockets comp_def split_def map_replicate_const)
  moreover have "concat (map binds (setupDispatchers c)) = replicate (length (cf_hosts c)) ''inproc://pub_disp_pair''"
    using concat_map_enumerate [of "\<lambda>h. [''inproc://pub_disp_pair'']" 0 "cf_hosts c"]
    by (simp add: setupDispatchers_def dispatcher_sockets comp_def split_def map_replicate_const)
  ultimately show ?thesis by (simp add: children_def)
qed

lemma binds_router: "binds (router_start c) =
    [''inproc://f_boxoffice_pull_in'', ''inproc://f_boxoffice_push_out'', ''inproc://f_boxoffice_hb_push_out'', ''inproc://f_boxoffice_disp_push_out'']"
proof -
  have "concat (map (\<lambda>x. binds (case x of (i, b) \<Rightarrow> owned (Box_object i) Transmitter_new)) xs) = []" for xs :: "(nat \<times> string \<times> box_conf) list"
    by (induction xs) (simp_all add: split_def)
  then show ?thesis by (simp add: router_start_def router_sockets comp_def)
qed

lemma well_opened_transmitter: "well_opened A (owned t Transmitter_new)"
  by (simp add: transmitter_sockets)

lemma well_opened_children:
  assumes "cf_hosts c \<noteq> []" "xs \<in> set (children c)"
  shows "well_opened {} xs"
proof -
  obtain k where k: "getHostKeypair c = Inr k" using assms(1) by (simp add: getHostKeypair_def nthE_def)
  have p: "well_opened {} (owned t (case publisher_open c h of None \<Rightarrow> [] | Some cs \<Rightarrow> cs))" for t h
  proof -
    have "well_opened {(t, ''authenticator'')} (owned t (map (\<lambda>k. (''authenticator'', Z_set ''curve'' k)) (getNodePublicKeys c)) @
        owned t [(''z_publisher'', Z_socket Z_pub), (''z_publisher'', Z_set ''identity'' (h_uid h)),
        (''z_publisher'', Z_set ''curve_server'' ''1''), (''z_publisher'', Z_set ''curve_secret_key'' (kp_secret (h_keypair h))),
        (''z_publisher'', Z_bind (c_str (h_endpoint h)))])"
      by (intro well_opened_append well_opened_settings) simp_all
    then show ?thesis by (simp add: publisher_open_def)
  qed
  have s: "well_opened {} (owned t (case subscriber_open c n of None \<Rightarrow> [] | Some cs \<Rightarrow> cs))" for t n
    by (simp add: subscriber_open_def k)
  have "well_opened {} (owned t connectToBoxofficeHB)" "well_opened {} (owned t hb_connectToPublisher)"
    "well_opened {} (owned t connectToBoxofficeDispatcher)" "well_opened {} (owned t disp_connectToPublisher)"
    "well_opened {} (owned t connectToHeartbeater)" "well_opened {} (owned t connectToDispatcher)" for t
    by (simp_all add: heartbeater_sockets dispatcher_sockets publisher_sockets)
  then have "well_opened {} (owned t Heartbeater_new)" "well_opened {} (owned t Dispatcher_new)" "well_opened {} (owned t Publisher_new)" for t
    unfolding Heartbeater_new_def Dispatcher_new_def Publisher_new_def owned_simps
    by (intro well_opened_append well_opened_transmitter; simp)+
  with p s assms(2) show ?thesis
    by (auto simp: children_def setupPublishers_def setupHeartbeaters_def setupDispatchers_def setupSubscribers_def
        intro!: well_opened_append well_opened_transmitter)
qed

lemma well_opened_concat: "\<forall>xs \<in> set xss. well_opened A xs \<Longrightarrow> well_opened A (concat xss)"
  by (induction xss) (simp_all add: well_opened_append)

lemma well_opened_router: "well_opened {} (owned Main_thread main_sockets @ router_start c)"
  unfolding router_start_def main_sockets_def
  by (intro well_opened_append well_opened_concat) (auto simp: router_sockets well_opened_transmitter)

lemma inproc_prefix: "inproc ep \<Longrightarrow> has_prefix ''inproc'' ep"
proof -
  assume "inproc ep"
  then obtain r where "ep = ''inproc://'' @ r" unfolding inproc_def has_prefix_def by (metis append_take_drop_id)
  then show ?thesis by (simp add: has_prefix_def)
qed

text \<open>The binds of a start with one host are distinct, and one of them is outside the process; with more hosts two are the same.\<close>

lemma start_binds:
  assumes "start_schedule c calls" "cf_hosts c \<noteq> []" and v: "\<forall>h \<in> set (cf_hosts c). valid_endpoint (h_endpoint h)"
  shows "distinct (binds calls) \<longleftrightarrow> length (cf_hosts c) = 1" "length (cf_hosts c) = 1 \<Longrightarrow> one_outer (set (binds calls))"
proof -
  obtain ys where ys: "interleaving (children c) ys" "calls = (owned Main_thread main_sockets @ router_start c) @ ys"
    using assms(1) by (auto simp: start_schedule_def)
  have e: "h_endpoint h \<noteq> []" "\<not> has_prefix ''inproc'' (c_str (h_endpoint h))" if "h \<in> set (cf_hosts c)" for h
    using v that valid_endpoint_not_inproc by auto
  have "mset (binds ys) = mset (binds (concat (children c)))" by (rule mset_binds [OF interleaving_mset [OF ys(1)]])
  also have "\<dots> = mset (map (\<lambda>h. c_str (h_endpoint h)) (cf_hosts c) @
     replicate (length (cf_hosts c)) ''inproc://pub_hb_pair'' @ replicate (length (cf_hosts c)) ''inproc://pub_disp_pair'')"
    using e(1) binds_children by simp
  finally have m: "mset (binds calls) = mset (map (\<lambda>h. c_str (h_endpoint h)) (cf_hosts c) @
     [''inproc://f_broadcast'', ''inproc://f_bo_main_pair''] @ binds (router_start c) @
     replicate (length (cf_hosts c)) ''inproc://pub_hb_pair'' @ replicate (length (cf_hosts c)) ''inproc://pub_disp_pair'')"
    unfolding ys(2) by (simp add: main_sockets_def)
  obtain h hs where hs: "cf_hosts c = h # hs" using assms(2) by (cases "cf_hosts c") auto
  have i: "\<forall>x \<in> set ([''inproc://f_broadcast'', ''inproc://f_bo_main_pair'', ''inproc://pub_hb_pair'', ''inproc://pub_disp_pair''] @
      binds (router_start c)). inproc x" unfolding binds_router by (simp add: inproc_def has_prefix_def)
  then have n: "c_str (h_endpoint h) \<notin> set ([''inproc://f_broadcast'', ''inproc://f_bo_main_pair'', ''inproc://pub_hb_pair'',
      ''inproc://pub_disp_pair''] @ binds (router_start c))" using e(2) [of h] hs inproc_prefix by auto
  have "distinct (binds calls) \<longleftrightarrow> hs = []"
    using mset_eq_imp_distinct_iff [OF m] n hs by (cases hs) (auto simp: binds_router)
  with hs show "distinct (binds calls) \<longleftrightarrow> length (cf_hosts c) = 1" by simp
  assume "length (cf_hosts c) = 1"
  then have "set (binds calls) = insert (c_str (h_endpoint h)) (set ([''inproc://f_broadcast'', ''inproc://f_bo_main_pair'',
      ''inproc://pub_hb_pair'', ''inproc://pub_disp_pair''] @ binds (router_start c)))"
    using mset_eq_setD [OF m] hs by auto
  with i show "one_outer (set (binds calls))" unfolding one_outer_def by auto
qed

lemma start_well_opened: "start_schedule c calls \<Longrightarrow> cf_hosts c \<noteq> [] \<Longrightarrow> well_opened {} calls"
  using well_opened_append [OF well_opened_router interleaving_well_opened] well_opened_children by (fastforce simp: start_schedule_def)

section \<open>Objects\<close>

text \<open>The calls of one object; every schedule has the calls of all objects.\<close>

fun object_calls :: "config \<Rightarrow> object \<Rightarrow> zcall list" where
  "object_calls c Main_thread = main_sockets"
| "object_calls c Router = bo_connectToBroadcast @ connectToMain @ setupConnectionToChildren"
| "object_calls c (Box_object i) = (if i < length (cf_boxes c) then Transmitter_new else [])"
| "object_calls c (Publisher_object i) =
    (if i < length (cf_hosts c)
     then Publisher_new @ (case publisher_open c (cf_hosts c ! i) of None \<Rightarrow> [] | Some cs \<Rightarrow> cs) else [])"
| "object_calls c (Heartbeater_object i) = (if i < length (cf_hosts c) then Heartbeater_new else [])"
| "object_calls c (Dispatcher_object i) = (if i < length (cf_hosts c) then Dispatcher_new else [])"
| "object_calls c (Subscriber_object i) =
    (if i < length (cf_nodes c)
     then Transmitter_new @ (case subscriber_open c (snd (cf_nodes c ! i)) of None \<Rightarrow> [] | Some cs \<Rightarrow> cs) else [])"

lemma threads_calls:
  "(t, x) \<in> set (concat (map (\<lambda>(i, a). owned (f i) (g a)) (enumerate 0 xs))) \<longleftrightarrow> (\<exists>i < length xs. t = f i \<and> x \<in> set (g (xs ! i)))"
  by (force simp: in_set_enumerate_eq)

lemma start_schedule_calls:
  assumes "start_schedule c calls"
  shows "(t, x) \<in> set calls \<longleftrightarrow> x \<in> set (object_calls c t)"
proof -
  obtain ys where ys: "interleaving (children c) ys" "calls = owned Main_thread main_sockets @ router_start c @ ys"
    using assms by (auto simp: start_schedule_def)
  have s: "set ys = set (concat (children c))" using interleaving_mset [OF ys(1)] by (metis set_mset_mset)
  have n: "(\<lambda>(i, k, n). owned (Subscriber_object i) (Transmitter_new @ h n)) = (\<lambda>(i, a). owned (Subscriber_object i) (Transmitter_new @ h (snd a)))" for h :: "node \<Rightarrow> zcall list"
    by auto
  have "(t, x) \<in> set ys \<longleftrightarrow> x \<in> set (object_calls c t) \<and> t \<noteq> Main_thread \<and> t \<noteq> Router \<and> (\<forall>i. t \<noteq> Box_object i)"
    unfolding s children_def setupPublishers_def setupHeartbeaters_def setupDispatchers_def setupSubscribers_def n
      concat_append set_append Un_iff threads_calls by (cases t) auto
  moreover have "(t, x) \<in> set (owned Main_thread main_sockets @ router_start c) \<longleftrightarrow>
      x \<in> set (object_calls c t) \<and> (t = Main_thread \<or> t = Router \<or> (\<exists>i. t = Box_object i))"
    unfolding router_start_def set_append Un_iff threads_calls by (cases t) auto
  ultimately show ?thesis unfolding ys(2) by auto
qed

fun peer :: "socket_type \<Rightarrow> socket_type \<Rightarrow> bool" where
  "peer Z_pub Z_sub = True"
| "peer Z_pull Z_push = True"
| "peer Z_pair Z_pair = True"
| "peer _ _ = False"

definition types_of :: "(object \<times> zcall) list \<Rightarrow> member \<Rightarrow> socket_type set" where
  "types_of calls s = {ty. (fst s, snd s, Z_socket ty) \<in> set calls}"

lemma types_of_object: "start_schedule c calls \<Longrightarrow> types_of calls (t, m) = {ty. (m, Z_socket ty) \<in> set (object_calls c t)}"
  by (simp add: types_of_def start_schedule_calls)

definition serves :: "(object \<times> zcall) list \<Rightarrow> string \<Rightarrow> socket_type \<Rightarrow> bool" where
  "serves calls ep ty \<longleftrightarrow> (\<exists>t m. (t, m, Z_bind ep) \<in> set calls \<and> types_of calls (t, m) = {ty})"

lemma servesI:
  "start_schedule c calls \<Longrightarrow> (m, Z_bind ep) \<in> set (object_calls c t) \<Longrightarrow> {ty'. (m, Z_socket ty') \<in> set (object_calls c t)} = {ty} \<Longrightarrow>
     serves calls ep ty"
  by (auto simp: serves_def start_schedule_calls types_of_object)

lemma start_serves:
  assumes "start_schedule c calls"
  shows "serves calls ''inproc://f_broadcast'' Z_pub" "serves calls ''inproc://f_bo_main_pair'' Z_pair"
    "serves calls ''inproc://f_boxoffice_pull_in'' Z_pull" "serves calls ''inproc://f_boxoffice_push_out'' Z_pub"
    "serves calls ''inproc://f_boxoffice_hb_push_out'' Z_pub" "serves calls ''inproc://f_boxoffice_disp_push_out'' Z_pub"
    "i < length (cf_hosts c) \<Longrightarrow> serves calls ''inproc://pub_hb_pair'' Z_pair"
    "i < length (cf_hosts c) \<Longrightarrow> serves calls ''inproc://pub_disp_pair'' Z_pair"
  using servesI [OF assms, of "''z_broadcast''" _ Main_thread] servesI [OF assms, of "''z_boxoffice''" _ Main_thread]
    servesI [OF assms, of "''z_router''" _ Router] servesI [OF assms, of "''z_bo_pub''" _ Router] servesI [OF assms, of "''z_bo_hb''" _ Router]
    servesI [OF assms, of "''z_bo_disp''" _ Router] servesI [OF assms, of "''z_heartbeater''" _ "Heartbeater_object i"]
    servesI [OF assms, of "''z_dispatcher''" _ "Dispatcher_object i"]
  by (simp_all add: main_sockets_def router_sockets heartbeater_sockets dispatcher_sockets transmitter_sockets)

definition offers :: "(object \<times> zcall) list \<Rightarrow> string \<Rightarrow> socket_type \<Rightarrow> bool" where
  "offers calls ep ty \<longleftrightarrow> (\<exists>ty'. serves calls ep ty' \<and> peer ty' ty)"

lemma offersI: "serves calls ep ty' \<Longrightarrow> peer ty' ty \<Longrightarrow> offers calls ep ty"
  by (auto simp: offers_def)

text \<open>What a list of calls creates for a member and where it connects.\<close>

fun created :: "string \<Rightarrow> zcall list \<Rightarrow> socket_type list" where
  "created m [] = []"
| "created m ((m', op) # cs) = (case op of Z_socket ty \<Rightarrow> if m' = m then [ty] else [] | _ \<Rightarrow> []) @ created m cs"

fun connected :: "zcall list \<Rightarrow> (string \<times> string) list" where
  "connected [] = []"
| "connected ((m, op) # cs) = (case op of Z_connect ep \<Rightarrow> [(m, ep)] | _ \<Rightarrow> []) @ connected cs"

lemma set_created: "ty \<in> set (created m cs) \<longleftrightarrow> (m, Z_socket ty) \<in> set cs"
  by (induction m cs rule: created.induct) (auto split: zop.splits)

lemma set_connected: "(m, ep) \<in> set (connected cs) \<longleftrightarrow> (m, Z_connect ep) \<in> set cs"
  by (induction cs rule: connected.induct) (auto split: zop.splits)

lemma created_append [simp]: "created m (xs @ ys) = created m xs @ created m ys"
  by (induction m xs rule: created.induct) simp_all

lemma connected_append [simp]: "connected (xs @ ys) = connected xs @ connected ys"
  by (induction xs rule: connected.induct) simp_all

lemma settings_create_nothing [simp]:
  "created m (map (\<lambda>k. (m', Z_set s (f k))) ks) = []" "connected (map (\<lambda>k. (m', Z_set s (f k))) ks) = []"
  by (induction ks) simp_all

definition paired :: "(object \<times> zcall) list \<Rightarrow> zcall list \<Rightarrow> bool" where
  "paired calls cs \<longleftrightarrow> list_all (\<lambda>(m, ep). has_prefix ''inproc'' ep \<longrightarrow> (\<exists>ty. set (created m cs) = {ty} \<and> offers calls ep ty)) (connected cs)"

lemma start_paired:
  assumes "start_schedule c calls" "\<forall>(k, n) \<in> set (cf_nodes c). valid_endpoint (n_endpoint n)"
  shows "paired calls (object_calls c t)"
proof -
  note s = start_serves [OF assms(1)]
  have o: "offers calls ''inproc://f_broadcast'' Z_sub" "offers calls ''inproc://f_bo_main_pair'' Z_pair"
    "offers calls ''inproc://f_boxoffice_pull_in'' Z_push" "offers calls ''inproc://f_boxoffice_push_out'' Z_sub"
    "offers calls ''inproc://f_boxoffice_hb_push_out'' Z_sub" "offers calls ''inproc://f_boxoffice_disp_push_out'' Z_sub"
    by (rule offersI [OF s(1)] offersI [OF s(2)] offersI [OF s(3)] offersI [OF s(4)] offersI [OF s(5)] offersI [OF s(6)], simp)+
  show ?thesis
  proof (cases t)
    case (Publisher_object i)
    have "offers calls ''inproc://pub_hb_pair'' Z_pair" "offers calls ''inproc://pub_disp_pair'' Z_pair" if "i < length (cf_hosts c)"
      by (rule offersI [OF s(7) [OF that]] offersI [OF s(8) [OF that]], simp)+
    with Publisher_object o show ?thesis
      by (simp add: paired_def publisher_sockets transmitter_sockets publisher_open_def)
  next
    case (Subscriber_object i)
    have "\<not> has_prefix ''inproc'' (c_str (n_endpoint (snd (cf_nodes c ! i))))" if "i < length (cf_nodes c)"
    proof -
      have "valid_endpoint (n_endpoint (snd (cf_nodes c ! i)))" using that assms(2) nth_mem by fastforce
      then show ?thesis using valid_endpoint_not_inproc by blast
    qed
    with Subscriber_object o show ?thesis
      by (simp add: paired_def transmitter_sockets subscriber_open_def split: sum.splits)
  qed (use o in \<open>simp_all add: paired_def main_sockets_def router_sockets heartbeater_sockets dispatcher_sockets transmitter_sockets\<close>)
qed

section \<open>Lives\<close>

text \<open>The sockets that are live after some calls, whatever the library does otherwise.\<close>

fun lifecycle :: "member list \<Rightarrow> (object \<times> zcall) list \<Rightarrow> member list result" where
  "lifecycle live [] = Inr live"
| "lifecycle live ((t, m, op) # cs) =
     (case op of
        Z_throw e \<Rightarrow> Inl e
      | _ \<Rightarrow> if creates op then lifecycle ((t, m) # live) cs
            else if (t, m) \<notin> set live then Inl Undefined_behaviour
            else lifecycle (if op = Z_close then remove1 (t, m) live else live) cs)"

lemma lifecycle_append: "lifecycle live (xs @ ys) = bindE (lifecycle live xs) (\<lambda>l. lifecycle l ys)"
proof (induction xs arbitrary: live)
  case (Cons x xs)
  obtain t m op where "x = (t, m, op)" by (metis prod.exhaust)
  with Cons show ?case by (cases op) simp_all
qed simp

lemma exec_lifecycle:
  assumes "zmq_laws L"
  shows "usable_calls L cs \<Longrightarrow> needed L cs \<le> l_left L z \<Longrightarrow> distinct (binds cs) \<Longrightarrow> set (binds cs) \<inter> l_bound L z = {} \<Longrightarrow>
    one_outer (set (binds cs) \<union> l_bound L z) \<Longrightarrow>
    (case lifecycle live cs of Inl e \<Rightarrow> exec (l_step L) (z, live) cs = Inl e | Inr l \<Rightarrow> \<exists>z'. exec (l_step L) (z, live) cs = Inr (z', l))"
proof (induction cs arbitrary: z live)
  case (Cons c cs)
  obtain t m op where c: "c = (t, m, op)" by (metis prod.exhaust)
  have next_step: ?case if "zmq_step (l_step L) (z, live) c = Inr (z', l)" "lifecycle live (c # cs) = lifecycle l cs"
    "l_bound L z' \<subseteq> l_bound L z \<union> set (bound_by c)" "l_left L z \<le> l_left L z' + cost (l_auth L) op" for z' l
  proof -
    have "one_outer (set (binds cs) \<union> l_bound L z')" using Cons.prems(5) that(3) by (elim one_outer_mono) auto
    moreover have "set (binds cs) \<inter> l_bound L z' = {}" using Cons.prems(3,4) that(3) by auto
    ultimately show ?thesis using Cons.IH [of z' l] Cons.prems(1-3) that(1,2,4) c by (simp add: exec_def split: sum.splits)
  qed
  show ?case
  proof (cases "\<exists>e. op = Z_throw e")
    case True
    then show ?thesis using c by (auto simp: exec_def zmq_step_def)
  next
    case nt: False
    show ?thesis
    proof (cases "creates op \<or> (t, m) \<in> set live")
      case False
      then show ?thesis using c nt by (cases op) (auto simp: exec_def zmq_step_def)
    next
      case live: True
      show ?thesis
      proof (cases "op = Z_close")
        case True
        obtain z' where "l_step L z (t, m) Z_close = Inr z'" "l_bound L z' \<subseteq> l_bound L z" "l_left L z \<le> l_left L z'"
          using zmq_lawsD(5) [OF assms] by blast
        then show ?thesis using next_step [of z' "remove1 (t, m) live"] live c True by (auto simp: zmq_step_def)
      next
        case False
        then have st: "starting op" using nt by (cases op) auto
        have "one_outer (set (bound_by (t, m, op)) \<union> l_bound L z)" using Cons.prems(5) c by (elim one_outer_mono) auto
        from zmq_step_start [OF assms st live _ _ _ this] Cons.prems(1,2,4) c st
        obtain z' where "zmq_step (l_step L) (z, live) c = Inr (z', if creates op then (t, m) # live else live)"
          "l_bound L z' = l_bound L z \<union> set (bound_by c)" "l_left L z \<le> l_left L z' + cost (l_auth L) op" by auto
        then show ?thesis using next_step live c False nt by (cases op) auto
      qed
    qed
  qed
qed (simp add: exec_def)

lemma lifecycle_sends: "(t, m) \<in> set live \<Longrightarrow> lifecycle live (owned t (map (\<lambda>x. (m, Z_send x)) ms)) = Inr live"
  by (induction ms) simp_all

lemma lifecycle_settings: "(t, m) \<in> set live \<Longrightarrow> lifecycle live (owned t (map (\<lambda>x. (m, Z_set s x)) ks)) = Inr live"
  by (induction ks) simp_all

lemma lifecycle_disp_sends:
  "(t, ''z_dispatcher'') \<in> set live \<Longrightarrow> (t, ''z_boxoffice_pull'') \<in> set live \<Longrightarrow> lifecycle live (owned t (map disp_send ds)) = Inr live"
  by (induction ds) (simp_all add: disp_send_def split: disp_out.splits)

lemma binds_sends: "binds (owned t (map (\<lambda>x. (m, Z_send x)) ms)) = []" "binds (owned t (map disp_send ds)) = []"
  by (induction ms, simp_all) (induction ds, simp_all add: disp_send_def split: disp_out.splits)

lemmas life_sockets = transmitter_sockets heartbeater_sockets dispatcher_sockets publisher_sockets
  Transmitter_delete_def sendExitSignal_def
lemmas life_simps = lifecycle_append lifecycle_sends lifecycle_settings lifecycle_disp_sends binds_sends

lemma exec_life:
  assumes "zmq_laws L" "l_bound L z = {}" "usable_calls L cs" "needed L cs \<le> l_left L z" "distinct (binds cs)" "one_outer (set (binds cs))"
    "lifecycle [] cs = r"
  shows "case r of Inl e \<Rightarrow> exec (l_step L) (z, []) cs = Inl e | Inr l \<Rightarrow> \<exists>z'. exec (l_step L) (z, []) cs = Inr (z', l)"
  using exec_lifecycle [OF assms(1,3,4,5), of "[]"] assms(2,6,7) by simp

text \<open>What a host and a node give to the library.\<close>

definition host_usable :: "'z zmq_lib \<Rightarrow> host \<Rightarrow> bool" where
  "host_usable L h \<longleftrightarrow> l_usable L (Z_set ''curve_secret_key'' (kp_secret (h_keypair h))) \<and> l_usable L (Z_bind (c_str (h_endpoint h)))"

definition node_usable :: "'z zmq_lib \<Rightarrow> keypair \<Rightarrow> node \<Rightarrow> bool" where
  "node_usable L k n \<longleftrightarrow> l_usable L (Z_set ''curve_server_key'' (n_public_key n)) \<and>
    l_usable L (Z_set ''curve_public_key'' (kp_public k)) \<and> l_usable L (Z_set ''curve_secret_key'' (kp_secret k)) \<and>
    l_usable L (Z_connect (c_str (n_endpoint n)))"

lemma usable_sends: "zmq_laws L \<Longrightarrow> usable_calls L (owned t (map (\<lambda>x. (m, Z_send x)) ms))" "zmq_laws L \<Longrightarrow> usable_calls L (owned t (map disp_send ds))"
  using zmq_lawsD(1) [of L] by (auto simp: usable_calls_def disp_send_def split: disp_out.splits)

lemma usable_settings: "zmq_laws L \<Longrightarrow> usable_calls L (owned t (map (\<lambda>k. (m, Z_set ''curve'' k)) ks))"
  using zmq_lawsD(1) [of L] by (auto simp: usable_calls_def)

lemma needed_sends [simp]: "needed L (owned t (map (\<lambda>x. (m, Z_send x)) ms)) = 0" "needed L (owned t (map disp_send ds)) = 0"
  "needed L (owned t (map (\<lambda>x. (m, Z_set s x)) ms)) = 0"
  by (induction ms, simp_all) (induction ds, simp_all add: disp_send_def split: disp_out.splits)

text \<open>The lives of a publisher and of a subscriber.\<close>

lemma exec_fails:
  assumes "zmq_laws L" "\<not> usable_calls L cs"
  shows "\<exists>e. exec (l_step L) (z, live) cs = Inl e"
  using exec_usable [OF assms(1), of z live cs] assms(2) by (cases "exec (l_step L) (z, live) cs") auto

lemma publisher_ends:
  assumes "zmq_laws L" "l_bound L z = {}" "8 + l_auth L \<le> l_left L z" "plain (Z_set ''identity'' (h_uid h))"
  shows "if h_endpoint h = [] then exec (l_step L) (z, []) (owned t (publisher_life c h ms)) = Inl Undefined_behaviour
      else if host_usable L h then \<exists>z'. exec (l_step L) (z, []) (owned t (publisher_life c h ms)) = Inr (z', [])
      else \<exists>e. exec (l_step L) (z, []) (owned t (publisher_life c h ms)) = Inl e"
proof -
  note u = zmq_lawsD(1) [OF assms(1)]
  note s = inproc_def has_prefix_def usable_sends [OF assms(1)] usable_settings [OF assms(1)]
  note d = publisher_life_def publisher_open_def life_sockets Publisher_delete_def
  have i: "l_usable L (Z_set ''identity'' (h_uid h))" by (rule u [OF assms(4)])
  have c: "usable_calls L (owned t (publisher_life c h ms)) \<longleftrightarrow> h_endpoint h = [] \<or> host_usable L h"
    by (auto simp: d u i s host_usable_def)
  have n: "needed L (owned t (publisher_life c h ms)) \<le> l_left L z" "distinct (binds (owned t (publisher_life c h ms)))"
    "one_outer (set (binds (owned t (publisher_life c h ms))))"
    using assms(3) by (auto simp: d life_simps one_outer_def)
  note e = exec_life [OF assms(1,2) _ n]
  show ?thesis
  proof (cases "h_endpoint h = []")
    case True
    then show ?thesis using e [of "Inl Undefined_behaviour"] c by (simp add: d life_simps)
  next
    case False
    then have "lifecycle [] (owned t (publisher_life c h ms)) = Inr []" by (simp add: d life_simps)
    with e [of "Inr []"] c False exec_fails [OF assms(1), of "owned t (publisher_life c h ms)" z "[]"] show ?thesis by simp
  qed
qed

lemma subscriber_ends:
  assumes "zmq_laws L" "l_bound L z = {}" "8 + l_auth L \<le> l_left L z" "getHostKeypair c = Inr k"
  shows "if n_endpoint n = [] \<or> n_subtype n \<noteq> 0 \<and> n_subtype n \<noteq> 1
      then exec (l_step L) (z, []) (owned t (subscriber_life c n ms)) = Inl Undefined_behaviour
      else if node_usable L k n then \<exists>z'. exec (l_step L) (z, []) (owned t (subscriber_life c n ms)) = Inr (z', [])
      else \<exists>e. exec (l_step L) (z, []) (owned t (subscriber_life c n ms)) = Inl e"
proof -
  let ?bad = "n_endpoint n = [] \<or> n_subtype n \<noteq> 0 \<and> n_subtype n \<noteq> 1"
  note s = inproc_def has_prefix_def usable_sends [OF assms(1)]
  note d = subscriber_life_def subscriber_open_def life_sockets Subscriber_delete_def assms(4) F_SUBTYPE_TCP_BIDIR_def F_SUBTYPE_TCP_UNIDIR_def
  have c: "usable_calls L (owned t (subscriber_life c n ms)) \<longleftrightarrow> ?bad \<or> node_usable L k n"
    by (auto simp: d zmq_lawsD(1) [OF assms(1)] s node_usable_def)
  have n: "needed L (owned t (subscriber_life c n ms)) \<le> l_left L z" "distinct (binds (owned t (subscriber_life c n ms)))"
    "one_outer (set (binds (owned t (subscriber_life c n ms))))"
    using assms(3) by (auto simp: d life_simps one_outer_def)
  note e = exec_life [OF assms(1,2) _ n]
  show ?thesis
  proof (cases ?bad)
    case True
    then have "lifecycle [] (owned t (subscriber_life c n ms)) = Inl Undefined_behaviour" by (auto simp: d life_simps)
    with e [of "Inl Undefined_behaviour"] c True show ?thesis by simp
  next
    case False
    then have "lifecycle [] (owned t (subscriber_life c n ms)) = Inr []" by (auto simp: d life_simps)
    with e [of "Inr []"] c False exec_fails [OF assms(1), of "owned t (subscriber_life c n ms)" z "[]"] show ?thesis by auto
  qed
qed

text \<open>The calls of a start have accepted arguments when the keys and endpoints of hosts and nodes are accepted.\<close>

lemma usable_objects:
  assumes "zmq_laws L" "cf_hosts c \<noteq> []" "\<forall>h \<in> set (cf_hosts c). h_endpoint h \<noteq> [] \<and> plain (Z_set ''identity'' (h_uid h))"
    "\<forall>(k, n) \<in> set (cf_nodes c). n_endpoint n \<noteq> [] \<and> n_subtype n = 0"
  shows "(\<forall>t. usable_calls L (owned t (object_calls c t))) \<longleftrightarrow>
     (\<forall>h \<in> set (cf_hosts c). host_usable L h) \<and> (\<forall>(k, n) \<in> set (cf_nodes c). node_usable L (h_keypair (hd (cf_hosts c))) n)"
proof -
  note u = zmq_lawsD(1) [OF assms(1)]
  have k: "getHostKeypair c = Inr (h_keypair (hd (cf_hosts c)))" using assms(2) by (cases "cf_hosts c") (simp_all add: getHostKeypair_def nthE_def)
  have p: "usable_calls L (owned t (object_calls c (Publisher_object i))) \<longleftrightarrow> (i < length (cf_hosts c) \<longrightarrow> host_usable L (cf_hosts c ! i))" for t i
  proof (cases "i < length (cf_hosts c)")
    case True
    then have "h_endpoint (cf_hosts c ! i) \<noteq> []" "plain (Z_set ''identity'' (h_uid (cf_hosts c ! i)))" using assms(3) nth_mem by blast+
    then show ?thesis using True u usable_settings [OF assms(1)]
      by (simp add: publisher_open_def publisher_sockets transmitter_sockets host_usable_def inproc_def has_prefix_def del: plain.simps(1)) (simp add: u)
  qed simp
  have s: "usable_calls L (owned t (object_calls c (Subscriber_object i))) \<longleftrightarrow>
      (i < length (cf_nodes c) \<longrightarrow> node_usable L (h_keypair (hd (cf_hosts c))) (snd (cf_nodes c ! i)))" for t i
  proof (cases "i < length (cf_nodes c)")
    case True
    then have "n_endpoint (snd (cf_nodes c ! i)) \<noteq> []" "n_subtype (snd (cf_nodes c ! i)) = 0" using assms(4) nth_mem by fastforce+
    then show ?thesis using True u
      by (simp add: subscriber_open_def transmitter_sockets node_usable_def k F_SUBTYPE_TCP_BIDIR_def inproc_def has_prefix_def)
  qed simp
  have o: "usable_calls L (owned t (object_calls c t'))" if "\<forall>i. t' \<noteq> Publisher_object i \<and> t' \<noteq> Subscriber_object i" for t t'
    using that u by (cases t') (simp_all add: main_sockets_def router_sockets heartbeater_sockets dispatcher_sockets transmitter_sockets inproc_def has_prefix_def)
  have "(\<forall>t. usable_calls L (owned t (object_calls c t))) \<longleftrightarrow>
      (\<forall>i. usable_calls L (owned (Publisher_object i) (object_calls c (Publisher_object i)))) \<and>
      (\<forall>i. usable_calls L (owned (Subscriber_object i) (object_calls c (Subscriber_object i))))"
    using o by (metis object.distinct)
  also have "\<dots> \<longleftrightarrow> (\<forall>h \<in> set (cf_hosts c). host_usable L h) \<and> (\<forall>x \<in> set (cf_nodes c). node_usable L (h_keypair (hd (cf_hosts c))) (snd x))"
    unfolding p s all_set_conv_all_nth by simp
  finally show ?thesis by (simp add: split_def)
qed

lemma usable_start:
  assumes "start_schedule c calls"
  shows "usable_calls L calls \<longleftrightarrow> (\<forall>t. usable_calls L (owned t (object_calls c t)))"
  using start_schedule_calls [OF assms] unfolding usable_calls_def by (fastforce simp: image_iff)

section \<open>Signals before sockets\<close>

fun sent :: "object \<times> zcall \<Rightarrow> string list" where
  "sent (t, m, Z_send s) = [s]"
| "sent _ = []"

definition kids :: "config \<Rightarrow> (object \<times> zcall list) list" where
  "kids c =
    map (\<lambda>(i, h). (Publisher_object i, connectToHeartbeater @ connectToDispatcher @ (case publisher_open c h of None \<Rightarrow> [] | Some cs \<Rightarrow> cs)))
      (enumerate 0 (cf_hosts c)) @
    map (\<lambda>(i, h). (Heartbeater_object i, connectToBoxofficeHB @ hb_connectToPublisher)) (enumerate 0 (cf_hosts c)) @
    map (\<lambda>(i, h). (Dispatcher_object i, connectToBoxofficeDispatcher @ disp_connectToPublisher)) (enumerate 0 (cf_hosts c)) @
    map (\<lambda>(i, (k, n)). (Subscriber_object i, case subscriber_open c n of None \<Rightarrow> [] | Some cs \<Rightarrow> cs)) (enumerate 0 (cf_nodes c))"

lemma children_kids: "children c = map (\<lambda>p. owned (fst p) Transmitter_new @ owned (fst p) (snd p)) (kids c)"
  by (simp add: children_def kids_def setupPublishers_def setupHeartbeaters_def setupDispatchers_def setupSubscribers_def
      Publisher_new_def Heartbeater_new_def Dispatcher_new_def split_def)

lemma sent_transmitters: "concat (map sent (concat (map (\<lambda>x. owned (f x) Transmitter_new) xs))) = replicate (length xs) alive_signal"
  by (induction xs) (simp_all add: transmitter_sockets)

definition hb_subscriptions :: "(object \<times> zcall) list \<Rightarrow> nat" where
  "hb_subscriptions calls =
    length (filter (\<lambda>(t, m, op). m = ''z_boxoffice_hb_push'' \<and> op = Z_connect ''inproc://f_boxoffice_hb_push_out'') calls)"

lemma hb_subscriptions_append [simp]: "hb_subscriptions (xs @ ys) = hb_subscriptions xs + hb_subscriptions ys"
  by (simp add: hb_subscriptions_def)

lemma hb_subscriptions_transmitters: "hb_subscriptions (concat (map (\<lambda>x. owned (f x) Transmitter_new) xs)) = 0"
  by (induction xs) (simp_all add: transmitter_sockets hb_subscriptions_def)

lemma hb_subscriptions_open:
  "hb_subscriptions (owned t (case publisher_open c h of None \<Rightarrow> [] | Some cs \<Rightarrow> cs)) = 0"
  "hb_subscriptions (owned t (case subscriber_open c n of None \<Rightarrow> [] | Some cs \<Rightarrow> cs)) = 0"
proof -
  have "hb_subscriptions (owned t (map (\<lambda>k. (''authenticator'', Z_set s k)) ks)) = 0" for s ks
    by (induction ks) (simp_all add: hb_subscriptions_def)
  then show "hb_subscriptions (owned t (case publisher_open c h of None \<Rightarrow> [] | Some cs \<Rightarrow> cs)) = 0"
    by (simp add: publisher_open_def) (simp add: hb_subscriptions_def)
  show "hb_subscriptions (owned t (case subscriber_open c n of None \<Rightarrow> [] | Some cs \<Rightarrow> cs)) = 0"
    by (simp add: subscriber_open_def hb_subscriptions_def split: sum.splits)
qed

lemma hb_subscriptions_kids: "hb_subscriptions (concat (map (\<lambda>p. owned (fst p) (snd p)) (kids c))) = length (cf_hosts c)"
proof -
  have n: "hb_subscriptions (concat (map f xs)) = n * length xs" if "\<And>x. hb_subscriptions (f x) = n" for f :: "'x \<Rightarrow> _" and xs n
    using that by (induction xs) (simp_all, simp add: hb_subscriptions_def)
  have "hb_subscriptions (owned t connectToHeartbeater) = 0" "hb_subscriptions (owned t connectToDispatcher) = 0"
    "hb_subscriptions (owned t connectToBoxofficeHB) = 1" "hb_subscriptions (owned t hb_connectToPublisher) = 0"
    "hb_subscriptions (owned t connectToBoxofficeDispatcher) = 0" "hb_subscriptions (owned t disp_connectToPublisher) = 0" for t
    by (simp_all add: hb_subscriptions_def publisher_sockets heartbeater_sockets dispatcher_sockets)
  then show ?thesis by (simp add: kids_def comp_def split_def n hb_subscriptions_open)
qed

text \<open>A library that accepts keys of 40 bytes and every endpoint, with the endpoints that are bound and the number of sockets
  left as its state.\<close>

fun sample_usable :: "zop \<Rightarrow> bool" where
  "sample_usable (Z_set opt v) \<longleftrightarrow> (if key_option opt then length v = 40 else plain (Z_set opt v))"
| "sample_usable _ = True"

definition sample_lib :: "(string list \<times> nat) zmq_lib" where
  "sample_lib = \<lparr>l_step = (\<lambda>(eps, n) (t, m) op.
       if op = Z_close then Inr (eps, n)
       else if \<not> sample_usable op \<or> n < cost 3 op \<or> set (bound_by (t, m, op)) \<inter> set eps \<noteq> {} then Inl (Runtime_error ''EINVAL'')
       else Inr (bound_by (t, m, op) @ eps, n - cost 3 op)),
     l_bound = (\<lambda>(eps, n). set eps), l_left = snd, l_auth = 3, l_usable = sample_usable\<rparr>"

lemma sample_lib_laws: "zmq_laws sample_lib"
proof -
  have "plain op \<longrightarrow> sample_usable op" for op by (cases op) (auto simp: key_option_def)
  moreover have "free B op \<Longrightarrow> set (bound_by (t, m, op)) \<inter> B = {}" for B t m op by (cases op) auto
  ultimately show ?thesis by (auto simp: zmq_laws_def sample_lib_def split: if_splits)
qed

lemma start_schedule_sequence: "start_schedule c (owned Main_thread main_sockets @ router_start c @ concat (children c))"
  using interleaving_sequence [of id "children c"] by (auto simp: start_schedule_def)

text \<open>The uid of a host is an identity.\<close>

lemma plain_identity:
  assumes "\<forall>s. length (gh s) = 64"
  shows "plain (Z_set ''identity'' (getString (Hash_string gh s)))"
proof -
  have f: "filled (Hash_string gh s)" using assms by (simp add: filled_def hash_ok_def Hash_string_def makeHash_def hash_len)
  have l: "length (getString (Hash_string gh s)) = 128" by (rule length_getString [OF f])
  have "hex_digit n \<noteq> NUL" if "n < 16" for n
    using that by (auto simp: hex_digit_def NUL_def dest!: arg_cong [of _ _ "of_char :: char \<Rightarrow> nat"])
  moreover have "(of_char a :: nat) div 16 < 16" for a using of_char_less_256 [of a] by linarith
  ultimately have "hd (hex_byte a) \<noteq> NUL" for a by (simp add: hex_byte_def)
  moreover have "digest (Hash_string gh s) \<noteq> []" using l unfolding getString_filled [OF f] by auto
  ultimately have "hd (getString (Hash_string gh s)) \<noteq> NUL"
    unfolding getString_filled [OF f] by (cases "digest (Hash_string gh s)") (simp_all add: hex_byte_def)
  with l show ?thesis by auto
qed

definition sample_final :: "(string \<times> box_conf) list \<Rightarrow> config" where
  "sample_final bs = sample_config0\<lparr>
     cf_nodes_vec := [keyed_node sample_hash (\<lambda>_. Some (replicate 40 CHR ''n'')) (new_node node_default ''tcp://a:1'')],
     cf_nodes := [(Hash_string sample_hash (replicate 40 CHR ''n''), keyed_node sample_hash (\<lambda>_. Some (replicate 40 CHR ''n'')) (new_node node_default ''tcp://a:1''))],
     cf_hosts := [host_with sample_hash \<lparr>kp_public = replicate 40 CHR ''p'', kp_secret = replicate 40 CHR ''s''\<rparr> (new_host ''tcp://b:2'')], cf_boxes := bs\<rparr>"

lemma sample_initialized:
  "\<exists>bs. Config_initialize sample_externals node_default (\<lambda>_. 7) [] Config_init = Inr (0, sample_final bs, None)"
proof -
  obtain bs where d: "doSanityCheck (\<lambda>_. Inr True) sample_hash node_default (\<lambda>_. 7) False [''a:1''] [''tcp://b:2''] [''n@/b''] sample_config0 =
     Inr (0, sample_config0\<lparr>cf_nodes_vec := [new_node node_default ''tcp://a:1''], cf_hosts := [new_host ''tcp://b:2''], cf_boxes := bs\<rparr>)"
    using sample_config_accepted by blast
  have f: "x_cmdline sample_externals [] = Some sample_options" "o_create sample_options = False" "o_privatekey sample_options = ''p''"
    "o_keystore sample_options = ''k''" "x_expand sample_externals e = e" "x_file sample_externals ''p'' = Some []" "x_file sample_externals ''k'' = Some []"
    "x_pk_json sample_externals = (\<lambda>_. (True, [(''tcp://b:2'', \<lparr>kp_public = replicate 40 CHR ''p'', kp_secret = replicate 40 CHR ''s''\<rparr>)]))"
    "x_ks_json sample_externals = (\<lambda>_. Some (\<lambda>_. Some (replicate 40 CHR ''n'')))" for e
    by (simp_all add: sample_externals_def sample_options_def)
  show ?thesis
    by (rule exI [of _ bs]) (simp add: Config_initialize_def sample_config_options d f sample_fields,
      simp add: synchronizeKeystore_def sample_final_def host_keys_def new_host_def insert_node_def keyed_node_def new_node_def sample_config0_def
        Config_init_def Let_def)
qed

section \<open>Properties\<close>



text \<open>C39. The sockets of the process fit: wherever a socket connects inside the process, another one is bound, and
  the types of the two sockets belong together (pub with sub, pull with push, pair with pair).\<close>

theorem sockets_paired:
  assumes "start_schedule c calls" "\<forall>(k, n) \<in> set (cf_nodes c). valid_endpoint (n_endpoint n)"
    and "(t, m, Z_connect ep) \<in> set calls" "has_prefix ''inproc'' ep"
  shows "\<exists>t' m' ty ty'. types_of calls (t, m) = {ty} \<and> (t', m', Z_bind ep) \<in> set calls \<and> types_of calls (t', m') = {ty'} \<and> peer ty' ty"
proof -
  have "(m, ep) \<in> set (connected (object_calls c t))" using assms(1,3) start_schedule_calls set_connected by blast
  then obtain ty where "set (created m (object_calls c t)) = {ty}" "offers calls ep ty"
    using start_paired [OF assms(1,2), of t] assms(4) by (auto simp: paired_def list_all_iff)
  moreover from this(1) have "types_of calls (t, m) = {ty}" by (auto simp: types_of_object [OF assms(1)] simp flip: set_created)
  ultimately show ?thesis unfolding offers_def serves_def by blast
qed

theorem sockets_paired_witness:
  "\<exists>calls t' m'. start_schedule Config_init calls \<and> (Router, ''z_bo_main'', Z_connect ''inproc://f_bo_main_pair'') \<in> set calls \<and>
     (t', m', Z_bind ''inproc://f_bo_main_pair'') \<in> set calls"
proof -
  let ?calls = "owned Main_thread main_sockets @ router_start Config_init @ concat (children Config_init)"
  have "(Router, ''z_bo_main'', Z_connect ''inproc://f_bo_main_pair'') \<in> set ?calls"
    by (rule start_schedule_calls [OF start_schedule_sequence, THEN iffD2]) (simp add: router_sockets)
  moreover from sockets_paired [OF start_schedule_sequence _ this]
  have "\<exists>t' m'. (t', m', Z_bind ''inproc://f_bo_main_pair'') \<in> set ?calls" by (auto simp: Config_init_def has_prefix_def)
  ultimately show ?thesis using start_schedule_sequence by blast
qed

text \<open>A thread reports that it is alive before it has opened the sockets of its own class: in some schedule the
  router has counted all its threads when no heartbeater is connected to it yet.\<close>

lemma alive_before_connected:
  "\<exists>ready rest. start_schedule c (ready @ rest) \<and>
     checkChildren (number_of_threads c) junk (concat (map sent ready)) = Some 0 \<and>
     hb_subscriptions ready = 0 \<and> hb_subscriptions rest = length (cf_hosts c)"
proof -
  let ?ready = "owned Main_thread main_sockets @ router_start c @ concat (map (\<lambda>p. owned (fst p) Transmitter_new) (kids c))"
  let ?rest = "concat (map (\<lambda>p. owned (fst p) (snd p)) (kids c))"
  have "interleaving (children c) (concat (map (\<lambda>p. owned (fst p) Transmitter_new) (kids c)) @ ?rest)"
    unfolding children_kids using interleaving_rounds [of "[]" "\<lambda>p. owned (fst p) (snd p)" "kids c" ?rest "\<lambda>p. owned (fst p) Transmitter_new"]
      interleaving_sequence [of "\<lambda>p. owned (fst p) (snd p)" "kids c"] by simp
  then have a: "start_schedule c (?ready @ ?rest)" unfolding start_schedule_def by auto
  have b: "concat (map sent ?ready) = replicate (number_of_threads c) alive_signal"
    using sent_transmitters [of fst "kids c"] sent_transmitters [of "\<lambda>p. Box_object (fst p)" "enumerate 0 (cf_boxes c)"]
    by (simp add: router_start_def main_sockets_def router_sockets number_of_threads_def kids_def split_def replicate_add [symmetric])
  have d: "hb_subscriptions ?ready = 0"
    using hb_subscriptions_transmitters [of "\<lambda>p. Box_object (fst p)" "enumerate 0 (cf_boxes c)"]
    by (simp add: router_start_def hb_subscriptions_transmitters split_def) (simp add: hb_subscriptions_def main_sockets_def router_sockets)
  have e: "checkChildren (number_of_threads c) junk (concat (map sent ?ready)) = Some 0" unfolding b by (rule checkChildren_alive)
  show ?thesis
    by (rule exI [of _ ?ready], rule exI [of _ ?rest], intro conjI) (rule a e d hb_subscriptions_kids)+
qed



end
