(* ===== verification/Session.thy ===== *)
theory Session
  imports Transport_Laws
begin

text \<open>
  Two nodes that run the router of \<open>Boxoffice\<close> and hear each other's heartbeats. The heartbeater of a node repeats the
  last message it took from its router; between router and heartbeater the messages queue up in order. So
  a channel is the list of messages from the one that is being repeated to the latest one. A step delivers the message
  in front, through the modelled steps of heartbeater, publisher and subscriber, to the other router, or lets the heartbeater take its next message. A
  router that throws or returns ends in \<open>Failed\<close>. The theory holds the step relation and what a router does on each heartbeat
  of a session in which a change of metadata is passed on.
\<close>

section \<open>Delivery of a heartbeat\<close>

definition delivered :: "string \<Rightarrow> string \<Rightarrow> string \<Rightarrow> bool" where
  "delivered uid m x \<longleftrightarrow>
    (\<exists>h h' now now' pv pv' y sv sv'.
       heartbeater_step h ((None, Some (m, []), None), now) = Inr (Some (h', [hb_text now h'])) \<and>
       publisher_step pv (None, None, Some (hb_text now' h', []), None) = Inr (Some (pv', [y])) \<and>
       subscriber_step uid sv (None, None, Some (y, [])) = Inr (Some (sv', [x])))"

text \<open>The message of status \<open>st\<close> from node \<open>uid\<close>, as the other router gets it.\<close>

definition heartbeat_from :: "string \<Rightarrow> status_t \<Rightarrow> u64 \<Rightarrow> string \<Rightarrow> string" where
  "heartbeat_from uid st now t = signal F_SIGTYPE_SUB (status_code st) @ uid @ CHR '' '' # htobe64 now @ CHR '' '' # t"

lemma heartbeat_relayed:
  assumes "100 \<le> code" "code \<le> 999" "status_code (hb_status h) = code" "hb_message h = '' '' @ p"
  shows "\<exists>t. set t \<subseteq> {CHR '' ''} \<and>
     publisher_step pv (None, None, Some (hb_text now h, []), None) =
       Inr (Some ((F_SIGTYPE_PUB, code), [dec code @ CHR '' '' # htobe64 now @ CHR '' '' # p @ t])) \<and>
     subscriber_step uid sv (None, None, Some (dec code @ CHR '' '' # htobe64 now @ CHR '' '' # p @ t, [])) =
       Inr (Some ((code, code), [signal F_SIGTYPE_SUB code @ uid @ CHR '' '' # htobe64 now @ CHR '' '' # p @ t]))"
proof -
  let ?r = "htobe64 now @ CHR '' '' # p"
  obtain t where t: "pad_to F_MINIMUM_HB_WIDTH (dec code @ CHR '' '' # ?r) = dec code @ CHR '' '' # ?r @ t" "set t \<subseteq> {CHR '' ''}"
    using pad_to_blanks [of F_MINIMUM_HB_WIDTH "dec code @ CHR '' '' # ?r"] by auto
  have "publisher_step pv (None, None, Some (hb_text now h, []), None) = Inr (Some ((F_SIGTYPE_PUB, code), [dec code @ CHR '' '' # ?r @ t]))"
    unfolding t(1) [symmetric] using assms by (intro publisher_relay) (simp_all add: recv_defs hb_text_eq space_no_digit)
  moreover have "subscriber_step uid sv (None, None, Some (dec code @ CHR '' '' # ?r @ t, [])) =
      Inr (Some ((code, code), [signal F_SIGTYPE_SUB code @ uid @ CHR '' '' # ?r @ t]))"
    using assms(1,2) by (intro subscriber_relay) (simp_all add: recv_defs space_no_digit)
  ultimately show ?thesis using t(2) by auto
qed

lemma delivered_heartbeat:
  assumes "100 \<le> status_code st" "status_code st \<le> 999" "CHR 0x0A \<notin> set payload" "delivered uid (fsm_message st payload) x"
  shows "\<exists>now t. set t \<subseteq> {CHR '' ''} \<and> x = heartbeat_from uid st now (payload @ t)"
proof -
  obtain h h' now now' pv pv' y sv sv' where d:
    "heartbeater_step h ((None, Some (fsm_message st payload, []), None), now) = Inr (Some (h', [hb_text now h']))"
    "publisher_step pv (None, None, Some (hb_text now' h', []), None) = Inr (Some (pv', [y]))"
    "subscriber_step uid sv (None, None, Some (y, [])) = Inr (Some (sv', [x]))"
    using assms(4) unfolding delivered_def by blast
  have h': "status_code (hb_status h') = status_code st" "hb_message h' = '' '' @ payload"
    using heartbeater_message [of st h payload now] d(1) assms(1,2) takeWhile_neq(2) [OF assms(3)] by auto
  from heartbeat_relayed [OF assms(1,2) h', of pv now' uid sv] d(2,3) obtain t where
    "set t \<subseteq> {CHR '' ''}" "x = heartbeat_from uid st now' (payload @ t)" by (auto simp: heartbeat_from_def)
  then show ?thesis by blast
qed

lemma delivered_exists:
  assumes "100 \<le> status_code st" "status_code st \<le> 999"
  shows "\<exists>x. delivered uid (fsm_message st payload) x"
proof -
  let ?h = "Heartbeater_init status_100 (0, 0)"
  obtain h' where h': "heartbeater_step ?h ((None, Some (fsm_message st payload, []), None), 0) = Inr (Some (h', [hb_text 0 h']))"
    "status_code (hb_status h') = status_code st" "hb_message h' = '' '' @ takeWhile (\<lambda>c. c \<noteq> CHR 0x0A) payload"
    using heartbeater_message [of st ?h payload 0] assms by auto
  from heartbeat_relayed [OF assms h'(2,3), of "(0, 0)" 0 uid "(0, 0)"] h'(1) show ?thesis
    unfolding delivered_def by blast
qed

text \<open>Before its router has sent anything the heartbeater repeats the status it was started with; after the publisher this is the
  same as an empty message of that status.\<close>

lemma initial_heartbeat:
  assumes "100 \<le> status_code st" "status_code st \<le> 999" "status_code (hb_status h) = status_code st" "hb_message h = '' ''"
  shows "publisher_step pv (None, None, Some (hb_text now (Heartbeater_init st v), []), None) =
     publisher_step pv (None, None, Some (hb_text now h, []), None)"
proof -
  have l: "length (dec (status_code st)) = 3" "length (htobe64 now) = 8" using dec_3(1) [OF assms(1,2)] by (simp_all add: be64.enc_length)
  have "pad_to F_MINIMUM_HB_WIDTH (dec (status_code st) @ CHR '' '' # htobe64 now) =
      pad_to F_MINIMUM_HB_WIDTH (dec (status_code st) @ CHR '' '' # htobe64 now @ '' '')"
    using l replicate_Suc [of 243 "CHR '' ''"] by (simp add: pad_to_def F_MINIMUM_HB_WIDTH_def blanks_def)
  moreover have "hb_text now (Heartbeater_init st v) = signal F_SIGTYPE_PUB (status_code st) @ CHR '' '' # htobe64 now"
    "hb_text now h = signal F_SIGTYPE_PUB (status_code st) @ CHR '' '' # htobe64 now @ '' ''"
    using assms(3,4) by (simp_all add: hb_text_eq Heartbeater_init_def)
  ultimately show ?thesis
    using publisher_relay [OF assms(1,2) space_no_digit(1), of None None "Some (hb_text now (Heartbeater_init st v), [])" None "htobe64 now" pv]
      publisher_relay [OF assms(1,2) space_no_digit(1), of None None "Some (hb_text now h, [])" None "htobe64 now @ '' ''" pv]
    by (simp add: recv_defs)
qed

section \<open>Two nodes\<close>

datatype 'fs session =
    Running "'fs boxoffice" "string list" "'fs boxoffice" "string list"
  | Failed

definition new_heartbeats :: "'fs boxoffice \<Rightarrow> 'fs boxoffice \<Rightarrow> string list" where
  "new_heartbeats bo bo' = drop (length (bo_hb bo)) (bo_hb bo')"

inductive session_step :: "'fs fs_api \<Rightarrow> string \<Rightarrow> string \<Rightarrow> 'fs session \<Rightarrow> 'fs session \<Rightarrow> bool"
  for api ua ub where
  a_heard: "delivered ua m x \<Longrightarrow> runRouter api vars [(e, x)] b = Inr (None, b') \<Longrightarrow>
    session_step api ua ub (Running a (m # ab) b ba) (Running a (m # ab) b' (ba @ new_heartbeats b b'))"
| b_heard: "delivered ub m x \<Longrightarrow> runRouter api vars [(e, x)] a = Inr (None, a') \<Longrightarrow>
    session_step api ua ub (Running a ab b (m # ba)) (Running a' (ab @ new_heartbeats a a') b (m # ba))"
| a_next: "session_step api ua ub (Running a (m # m' # ab) b ba) (Running a (m' # ab) b ba)"
| b_next: "session_step api ua ub (Running a ab b (m # m' # ba)) (Running a ab b (m' # ba))"
| b_ends: "delivered ua m x \<Longrightarrow> (\<And>b'. runRouter api vars [(e, x)] b \<noteq> Inr (None, b')) \<Longrightarrow>
    session_step api ua ub (Running a (m # ab) b ba) Failed"
| a_ends: "delivered ub m x \<Longrightarrow> (\<And>a'. runRouter api vars [(e, x)] a \<noteq> Inr (None, a')) \<Longrightarrow>
    session_step api ua ub (Running a ab b (m # ba)) Failed"

declare runRouter.simps [simp del]

inductive_cases session_stepE: "session_step api ua ub (Running a ab b ba) S"

definition session_run :: "'fs fs_api \<Rightarrow> string \<Rightarrow> string \<Rightarrow> 'fs session \<Rightarrow> 'fs session \<Rightarrow> bool" where
  "session_run api ua ub = (session_step api ua ub)\<^sup>*\<^sup>*"

section \<open>What a router does on a heartbeat\<close>

definition uid_ok :: "string \<Rightarrow> bool" where
  "uid_ok u \<longleftrightarrow> length u = 64 \<and> \<not> is_digit (hd u)"

text \<open>The router subscribes to the other node and to no one else.\<close>

definition knows :: "string \<Rightarrow> 'fs boxoffice \<Rightarrow> bool" where
  "knows u bo \<longleftrightarrow> \<not> bo_node_hash_is_key bo \<and>
    (\<exists>x. bo_subscribers bo = [x] \<and> s_key x = Hash_bytes u \<and> \<not> s_freed x)"

definition hb_stream :: "string \<Rightarrow> status_t \<Rightarrow> u64 \<Rightarrow> string \<Rightarrow> istream" where
  "hb_stream u st now t = stream_at (signal F_SIGTYPE_SUB (status_code st)) (u @ CHR '' '' # htobe64 now @ CHR '' '' # t)"

lemma runRouter_heartbeat:
  assumes "uid_ok u" "100 \<le> status_code st" "status_code st \<le> 999" "status_of_int (status_code st) = st"
  shows "runRouter api vars [(e, heartbeat_from u st now t)] bo =
    bindE (processEvent api e st (hb_stream u st now t) bo) (\<lambda>(r, bo). Inr (if r \<noteq> 0 then Some r else None, bo))"
proof -
  have r: "read_signal vars (heartbeat_from u st now t) = ((F_SIGTYPE_SUB, status_code st), hb_stream u st now t)"
    unfolding heartbeat_from_def hb_stream_def using assms(1-3) by (intro subscriber_read) (auto simp: uid_ok_def)
  show ?thesis
    by (cases "processEvent api e st (hb_stream u st now t) bo") (auto simp: runRouter.simps r assms(4) sig_defs split: prod.splits)
qed

definition hears :: "'fs fs_api \<Rightarrow> string \<Rightarrow> string \<Rightarrow> 'fs boxoffice \<Rightarrow> ('fs boxoffice \<Rightarrow> bool) \<Rightarrow> bool" where
  "hears api u m bo P \<longleftrightarrow>
    (\<forall>x vars e. delivered u m x \<longrightarrow> (\<exists>bo'. runRouter api vars [(e, x)] bo = Inr (None, bo') \<and> P bo'))"

definition named :: "status_t \<Rightarrow> bool" where
  "named st \<longleftrightarrow> 100 \<le> status_code st \<and> status_code st \<le> 999 \<and> status_of_int (status_code st) = st"

lemma hearsI:
  assumes "uid_ok u" "named st" "CHR 0x0A \<notin> set payload"
    and "\<And>e now t. set t \<subseteq> {CHR '' ''} \<Longrightarrow>
      \<exists>bo'. processEvent api e st (hb_stream u st now (payload @ t)) bo = Inr (0, bo') \<and> P bo'"
  shows "hears api u (fsm_message st payload) bo P"
  unfolding hears_def
proof (intro allI impI)
  fix x vars e assume x: "delivered u (fsm_message st payload) x"
  obtain now t where t: "set t \<subseteq> {CHR '' ''}" "x = heartbeat_from u st now (payload @ t)"
    using delivered_heartbeat [OF _ _ assms(3) x] assms(2) by (auto simp: named_def)
  from assms(4) [OF t(1), of e now] obtain bo' where
    "processEvent api e st (hb_stream u st now (payload @ t)) bo = Inr (0, bo')" "P bo'" by blast
  then show "\<exists>bo'. runRouter api vars [(e, x)] bo = Inr (None, bo') \<and> P bo'"
    using runRouter_heartbeat [of u st api vars e now "payload @ t" bo] assms(1,2) t(2) by (auto simp: named_def)
qed

lemma hears_ignored:
  assumes "uid_ok u" "named st" "CHR 0x0A \<notin> set payload" "\<not> accepts (bo_state bo) st"
  shows "hears api u (fsm_message st payload) bo (\<lambda>bo'. bo' = bo)"
  using assms by (intro hearsI) (auto simp: processEvent_def accepts_def)

definition heard :: "string \<Rightarrow> subscription \<Rightarrow> 'fs boxoffice \<Rightarrow> 'fs boxoffice" where
  "heard u x bo = bo\<lparr>bo_current_node_hash := Some (Hash_bytes u), bo_node_hash_is_key := False, bo_subscribers := [x]\<rparr>"

lemma updateTimestamp_heard:
  assumes "uid_ok u" "knows u bo"
  shows "\<exists>x p. s_key x = Hash_bytes u \<and> \<not> s_freed x \<and>
     updateTimestamp e (hb_stream u st now t) bo = Inr (stream_at p (CHR '' '' # t), heard u x bo)"
proof -
  obtain y where y: "bo_subscribers bo = [y]" "s_key y = Hash_bytes u" "\<not> s_freed y" using assms(2) by (auto simp: knows_def)
  have a: "sub_access (Hash_bytes u) (bo_subscribers bo) = Inr ([y], False)" by (simp add: sub_access_def y)
  have l: "length u = 64" "length (htobe64 now) = 8" using assms(1) by (simp_all add: uid_ok_def be64.enc_length)
  obtain g where "updateTimestamp e (hb_stream u st now t) bo =
      Inr (stream_at (signal F_SIGTYPE_SUB (status_code st) @ u @ CHR '' '' # htobe64 now) (CHR '' '' # t),
        heard u (y\<lparr>s_node := g (s_node y)\<rparr>) bo)"
    using updateTimestamp_parse [OF l _ a, of e "signal F_SIGTYPE_SUB (status_code st)" "CHR '' ''" "CHR '' '' # t"] assms(2)
    by (auto simp: hb_stream_def heard_def sub_update_def y knows_def)
  then show ?thesis using y(2,3) by (intro exI [of _ "y\<lparr>s_node := g (s_node y)\<rparr>"]) auto
qed

lemma heard_sel [simp]:
  "bo_state (heard u x bo) = bo_state bo" "bo_file_list_data (heard u x bo) = bo_file_list_data bo"
  "bo_file_list_metadata (heard u x bo) = bo_file_list_metadata bo" "bo_boxes (heard u x bo) = bo_boxes bo"
  "bo_fs (heard u x bo) = bo_fs bo" "bo_hb (heard u x bo) = bo_hb bo" "bo_file_metadata_written (heard u x bo) = bo_file_metadata_written bo"
  "bo_subscribers (heard u x bo) = [x]" "bo_node_hash_is_key (heard u x bo) = False" "bo_current_node_hash (heard u x bo) = Some (Hash_bytes u)"
  by (simp_all add: heard_def)

lemma note_reply_heard:
  assumes "s_key x = Hash_bytes u" "\<not> s_freed x"
  shows "\<exists>x'. s_key x' = Hash_bytes u \<and> \<not> s_freed x' \<and> note_reply (heard u x bo) = Inr (True, heard u x' bo)"
proof -
  have a: "sub_access (Hash_bytes u) [x] = Inr ([x], False)" by (simp add: sub_access_def assms)
  show ?thesis using assms
    by (intro exI [of _ "x\<lparr>s_node := (s_node x)\<lparr>n_replied := False\<rparr>\<rparr>"])
      (simp add: note_reply_def a sub_update_def all_replied_def reset_replied_def heard_def Let_def)
qed

text \<open>The end of the handler when the state changes and the heartbeat carries nothing but its status.\<close>

lemma fsm_continue_plain:
  assumes "get_new_state (bo_state bo) ev st = s'" "bo_state bo \<noteq> s'" "get_action (bo_state bo) ev st = send_heartbeat_action"
    "s' \<notin> {sending_new_file_metadata_state, sending_new_file_metadata_with_more_state, sending_file_metadata_change_state,
       sending_file_metadata_change_with_more_state, syncing_stop_state}"
  shows "fsm_continue e st ev bo =
    Inr (0, bo\<lparr>bo_hb := bo_hb bo @ [fsm_message (get_heartbeat_status (bo_state bo) ev st) []], bo_state := s'\<rparr>)"
  using assms by (simp add: fsm_continue_def performAction_def updateHeartbeat_def prepareHeartbeatMessage_def send_hb_def Let_def)

lemma fsm_continue_same: "get_new_state (bo_state bo) ev st = bo_state bo \<Longrightarrow> fsm_continue e st ev bo = Inr (0, bo)"
  by (simp add: fsm_continue_def)

end
