(* ===== verification/Session_Laws.thy ===== *)
theory Session_Laws
  imports Session
begin

text \<open>
  A session in which one node passes a change of metadata on to another. The phases of the session are an invariant of all runs of the two
  routers, whatever the order of deliveries, repetitions and delays; every phase can be left towards the end. Two nodes that announce
  at the same time never get on. No local event but the first is part of a session.
\<close>

section \<open>The heartbeats of a session\<close>

lemma session_rows:
  "get_event_by_status_code status_100 = received_heartbeat_event" "get_event_by_status_code status_141 = received_heartbeat_event"
  "get_event_by_status_code status_150 = received_heartbeat_event" "get_event_by_status_code status_160 = received_heartbeat_event"
  "get_event_by_status_code status_161 = received_heartbeat_event" "get_event_by_status_code status_170 = received_heartbeat_event"
  "get_event_by_status_code status_171 = received_heartbeat_event" "get_event_by_status_code status_162 = all_nodes_replied_event"
  "get_event_by_status_code status_172 = all_nodes_have_file_event" "get_event_by_status_code status_173 = all_metadata_received_event"
  by (simp_all add: get_event_by_status_code_def)

lemma named_session:
  "named status_100" "named status_141" "named status_150" "named status_160" "named status_161" "named status_170" "named status_171"
  "named status_120" "named status_124" "named status_164"
  by (simp_all add: named_def status_of_int_def)

lemma session_other_event: "\<not> dispatch_due st received_heartbeat_event" "\<not> is_local_event received_heartbeat_event"
  "\<not> dispatch_due status_162 all_nodes_replied_event" "\<not> is_local_event all_nodes_replied_event"
  "\<not> dispatch_due st all_nodes_have_file_event" "\<not> is_local_event all_nodes_have_file_event"
  "\<not> dispatch_due st all_metadata_received_event" "\<not> is_local_event all_metadata_received_event"
  by (simp_all add: dispatch_due_def is_local_event_def)

lemma hears_step:
  assumes "uid_ok u" "knows u bo" "named st" "CHR 0x0A \<notin> set payload"
    and "accepts (bo_state bo) st" "get_event_by_status_code st = received_heartbeat_event"
    and step: "\<And>e s x p t. updateTimestamp e s bo = Inr (stream_at p (CHR '' '' # payload @ t), heard u x bo) \<Longrightarrow>
      s_key x = Hash_bytes u \<Longrightarrow> \<not> s_freed x \<Longrightarrow> set t \<subseteq> {CHR '' ''} \<Longrightarrow>
      \<exists>st' ev s' bo1 bo'. received_heartbeat api e st received_heartbeat_event s bo = Inr (Proceed st' ev s' bo1) \<and>
        \<not> dispatch_due st' ev \<and> \<not> is_local_event ev \<and> ev \<noteq> received_file_data_event \<and>
        fsm_continue e st' ev bo1 = Inr (0, bo') \<and> P bo'"
  shows "hears api u (fsm_message st payload) bo P"
proof (rule hearsI [OF assms(1,3,4)])
  fix e now t assume t: "set t \<subseteq> {CHR '' ''}"
  let ?s = "hb_stream u st now (payload @ t)"
  obtain x p where x: "s_key x = Hash_bytes u" "\<not> s_freed x"
    "updateTimestamp e ?s bo = Inr (stream_at p (CHR '' '' # payload @ t), heard u x bo)"
    using updateTimestamp_heard [OF assms(1,2)] by blast
  from step [OF x(3,1,2) t] obtain st' ev s' bo1 bo' where
    r: "received_heartbeat api e st received_heartbeat_event ?s bo = Inr (Proceed st' ev s' bo1)"
      "\<not> dispatch_due st' ev" "\<not> is_local_event ev" "ev \<noteq> received_file_data_event" "fsm_continue e st' ev bo1 = Inr (0, bo')" "P bo'"
    by blast
  show "\<exists>bo'. processEvent api e st ?s bo = Inr (0, bo') \<and> P bo'"
    using processEvent_heartbeat [OF assms(5,6) r(1)] r by auto
qed

definition at :: "string \<Rightarrow> (string \<times> string) list \<Rightarrow> state_t \<Rightarrow> (nat \<times> File) list \<Rightarrow> 'fs \<Rightarrow> 'fs boxoffice \<Rightarrow> bool" where
  "at u boxes st meta fs bo \<longleftrightarrow> knows u bo \<and> bo_state bo = st \<and> bo_file_list_data bo = [] \<and> bo_file_list_metadata bo = meta \<and>
     bo_boxes bo = boxes \<and> bo_fs bo = fs \<and>
     (st \<in> {acknowledging_file_metadata_change_state, receiving_file_metadata_change_state} \<longrightarrow> \<not> bo_file_metadata_written bo)"

definition moves :: "'fs fs_api \<Rightarrow> string \<Rightarrow> (string \<times> string) list \<Rightarrow> string \<Rightarrow> 'fs boxoffice \<Rightarrow> state_t \<Rightarrow> (nat \<times> File) list \<Rightarrow> 'fs \<Rightarrow>
    string list \<Rightarrow> bool" where
  "moves api u boxes m bo st meta fs out \<longleftrightarrow>
    hears api u m bo (\<lambda>bo'. at u boxes st meta fs bo' \<and> bo_hb bo' = bo_hb bo @ out)"

text \<open>The receiving node.\<close>

lemma ready_hears:
  assumes "uid_ok u" "at u boxes ready_state meta fs bo"
  shows "moves api u boxes (fsm_message status_100 []) bo ready_state meta fs []"
    and "moves api u boxes (fsm_message status_150 []) bo ready_state meta fs [fsm_message status_100 []]"
    and "moves api u boxes (fsm_message status_160 []) bo acknowledging_file_metadata_change_state meta fs [fsm_message status_161 []]"
proof -
  have k: "knows u bo" "bo_state bo = ready_state" using assms(2) by (simp_all add: at_def)
  note h = hears_step [OF assms(1) k(1), of _ "[]"]
  show "moves api u boxes (fsm_message status_100 []) bo ready_state meta fs []" unfolding moves_def
    by (rule h) (use assms(2) in \<open>auto simp: k named_session session_rows session_other_event fsm_step_eval received_heartbeat_def fsm_continue_def at_def knows_def\<close>)
  show "moves api u boxes (fsm_message status_160 []) bo acknowledging_file_metadata_change_state meta fs [fsm_message status_161 []]" unfolding moves_def
    by (rule h) (use assms(2) in \<open>auto simp: k named_session session_rows session_other_event fsm_step_eval received_heartbeat_def fsm_continue_plain at_def knows_def\<close>)
  show "moves api u boxes (fsm_message status_150 []) bo ready_state meta fs [fsm_message status_100 []]" unfolding moves_def
    by (rule h) (use assms(2) in \<open>auto simp: k named_session session_rows session_other_event fsm_step_eval received_heartbeat_def
      received_150_def performAction_def updateHeartbeat_def prepareHeartbeatMessage_def send_hb_def fsm_continue_def at_def knows_def\<close>)
qed

lemma acknowledging_hears:
  assumes "uid_ok u" "at u boxes acknowledging_file_metadata_change_state meta fs bo" "CHR 0x0A \<notin> set img"
  shows "moves api u boxes (fsm_message status_160 []) bo acknowledging_file_metadata_change_state meta fs []"
    and "moves api u boxes (fsm_message status_170 img) bo receiving_file_metadata_change_state meta fs [fsm_message status_171 []]"
proof -
  have k: "knows u bo" "bo_state bo = acknowledging_file_metadata_change_state" using assms(2) by (simp_all add: at_def)
  note h = hears_step [OF assms(1) k(1)]
  show "moves api u boxes (fsm_message status_160 []) bo acknowledging_file_metadata_change_state meta fs []" unfolding moves_def
    by (rule h) (use assms(2) in \<open>auto simp: k named_session session_rows session_other_event fsm_step_eval received_heartbeat_def fsm_continue_def at_def knows_def\<close>)
  show "moves api u boxes (fsm_message status_170 img) bo receiving_file_metadata_change_state meta fs [fsm_message status_171 []]" unfolding moves_def
    by (rule h) (use assms(2,3) in \<open>auto simp: k named_session session_rows session_other_event fsm_step_eval received_heartbeat_def
      received_170_def fsm_continue_plain at_def knows_def\<close>)
qed

lemma broadcasting_hears:
  assumes "uid_ok u" "at u boxes broadcasting_all_metadata_received_state meta fs bo" "CHR 0x0A \<notin> set img"
  shows "moves api u boxes (fsm_message status_170 img) bo broadcasting_all_metadata_received_state meta fs []"
    and "moves api u boxes (fsm_message status_150 []) bo ready_state meta fs [fsm_message status_150 []]"
proof -
  have k: "knows u bo" "bo_state bo = broadcasting_all_metadata_received_state" using assms(2) by (simp_all add: at_def)
  note h = hears_step [OF assms(1) k(1)]
  show "moves api u boxes (fsm_message status_170 img) bo broadcasting_all_metadata_received_state meta fs []" unfolding moves_def
    by (rule h) (use assms(2,3) in \<open>auto simp: k named_session session_rows session_other_event fsm_step_eval received_heartbeat_def
      received_170_def fsm_continue_def at_def knows_def\<close>)
  show "moves api u boxes (fsm_message status_150 []) bo ready_state meta fs [fsm_message status_150 []]" unfolding moves_def
    by (rule h) (use assms(2) in \<open>auto simp: k named_session session_rows session_other_event fsm_step_eval received_heartbeat_def
      received_150_def fsm_continue_plain at_def knows_def\<close>)
qed

text \<open>What the received image of a file does to the file system below \<open>dir\<close>: a deletion is carried out while it is read, other
  metadata is written afterwards.\<close>

definition writes :: "'fs fs_api \<Rightarrow> 'fs \<Rightarrow> File \<Rightarrow> 'fs \<Rightarrow> bool" where
  "writes api fs g fs' \<longleftrightarrow>
    (if isToBeDeleted g then fs' = fs
     else \<exists>ex g2 fs2. file_exists api fs g = Inr ex \<and>
       (if ex then resize_self api fs g else create_file api fs g) = Inr (g2, fs2) \<and> storeMetadata api fs2 g2 = Inr fs')"

definition applies :: "'fs fs_api \<Rightarrow> 'fs \<Rightarrow> string \<Rightarrow> string \<Rightarrow> string \<Rightarrow> 'fs \<Rightarrow> bool" where
  "applies api fs dir h r fs' \<longleftrightarrow>
    (\<forall>p t. set t \<subseteq> {CHR '' ''} \<longrightarrow>
      (\<exists>s g fs1. file_in api fs (stream_at p (r @ t)) (File_default dir (Some (Hash_bytes h))) = Inr (s, g, fs1) \<and> writes api fs1 g fs'))"

lemma write_metadata_writes:
  assumes "writes api (bo_fs bo) g fs'" "\<not> bo_file_metadata_written bo"
  shows "\<exists>g' w. write_metadata api g bo = Inr (g', bo\<lparr>bo_fs := fs', bo_file_metadata_written := w\<rparr>)"
proof (cases "isToBeDeleted g")
  case True
  then have "write_metadata api g bo = Inr (g, bo\<lparr>bo_fs := fs', bo_file_metadata_written := False\<rparr>)"
    using assms by (simp add: write_metadata_def writes_def)
  then show ?thesis by blast
next
  case False
  then obtain ex g2 fs2 where "file_exists api (bo_fs bo) g = Inr ex" "storeMetadata api fs2 g2 = Inr fs'"
    "(if ex then resize_self api (bo_fs bo) g else create_file api (bo_fs bo) g) = Inr (g2, fs2)" using assms(1) by (auto simp: writes_def)
  then show ?thesis using False assms(2) by (cases ex) (auto simp: write_metadata_def)
qed

lemma read_box_file_applies:
  assumes "length h = 64" "map_of (bo_boxes bo) h = Some dir" "applies api (bo_fs bo) dir h r fs'" "set t \<subseteq> {CHR '' ''}"
  shows "\<exists>g s fs1. read_box_file api (stream_at p (CHR '' '' # h @ r @ t)) bo = Inr (h, g, s, bo\<lparr>bo_fs := fs1\<rparr>) \<and> writes api fs1 g fs'"
proof -
  have "digest (Hash_bytes h) = h" using assms(1) by (simp add: Hash_bytes_ok)
  moreover have "seekg_cur 1 (stream_at p (CHR '' '' # h @ r @ t)) = stream_at (p @ '' '') (h @ r @ t)"
    using seekg_cur_stream_at [of "'' ''" 1 p "h @ r @ t"] by simp
  moreover have "read_exact F_GENERIC_HASH_LEN (stream_at q (h @ r @ t)) = Inr (h, stream_at (q @ h) (r @ t))" for q
    using assms(1) by (intro read_exact_stream_at) (simp add: hash_len)
  moreover obtain s g fs1 where "file_in api (bo_fs bo) (stream_at ((p @ '' '') @ h) (r @ t)) (File_default dir (Some (Hash_bytes h))) = Inr (s, g, fs1)"
    "writes api fs1 g fs'" using assms(3,4) unfolding applies_def by blast
  ultimately show ?thesis using assms(2) by (auto simp: read_box_file_def box_base_dir_def Let_def)
qed

lemma receiving_hears:
  assumes "uid_ok u" "at u boxes receiving_file_metadata_change_state meta fs bo" "CHR 0x0A \<notin> set (h @ r)"
    and "length h = 64" "map_of boxes h = Some dir" "applies api fs dir h r fs'"
  shows "moves api u boxes (fsm_message status_170 (h @ r)) bo broadcasting_all_metadata_received_state meta fs' [fsm_message status_141 []]"
proof -
  have k: "knows u bo" "bo_state bo = receiving_file_metadata_change_state" "\<not> bo_file_metadata_written bo" "bo_boxes bo = boxes" "bo_fs bo = fs"
    using assms(2) by (simp_all add: at_def)
  show ?thesis unfolding moves_def
  proof (rule hears_step [OF assms(1) k(1) _ assms(3)])
    fix e s x p t
    assume u: "updateTimestamp e s bo = Inr (stream_at p (CHR '' '' # (h @ r) @ t), heard u x bo)"
      and x: "s_key x = Hash_bytes u" "\<not> s_freed x" and t: "set t \<subseteq> {CHR '' ''}"
    obtain g s1 fs1 where b: "read_box_file api (stream_at p (CHR '' '' # h @ r @ t)) (heard u x bo) = Inr (h, g, s1, (heard u x bo)\<lparr>bo_fs := fs1\<rparr>)"
      "writes api fs1 g fs'"
      using read_box_file_applies [of h "heard u x bo" dir api r fs' t p] assms(4-6) k t by auto
    obtain g' w where w: "write_metadata api g ((heard u x bo)\<lparr>bo_fs := fs1\<rparr>) = Inr (g', (heard u x bo)\<lparr>bo_fs := fs', bo_file_metadata_written := w\<rparr>)"
      using write_metadata_writes [of api "(heard u x bo)\<lparr>bo_fs := fs1\<rparr>" g fs'] b(2) k(3) by auto
    let ?bo1 = "(heard u x bo)\<lparr>bo_fs := fs', bo_file_metadata_written := False\<rparr>"
    have "received_heartbeat api e status_170 received_heartbeat_event s bo = Inr (Proceed status_173 all_metadata_received_event s1 ?bo1)"
      by (simp add: received_heartbeat_def u received_170_def k b w change_status_def session_rows fsm_step_eval)
    moreover have "fsm_continue e status_173 all_metadata_received_event ?bo1 =
        Inr (0, ?bo1\<lparr>bo_hb := bo_hb bo @ [fsm_message status_141 []], bo_state := broadcasting_all_metadata_received_state\<rparr>)"
      by (subst fsm_continue_plain) (simp_all add: k fsm_step_eval)
    ultimately show "\<exists>st' ev s' bo1 bo'. received_heartbeat api e status_170 received_heartbeat_event s bo = Inr (Proceed st' ev s' bo1) \<and>
        \<not> dispatch_due st' ev \<and> \<not> is_local_event ev \<and> ev \<noteq> received_file_data_event \<and> fsm_continue e st' ev bo1 = Inr (0, bo') \<and>
        at u boxes broadcasting_all_metadata_received_state meta fs' bo' \<and> bo_hb bo' = bo_hb bo @ [fsm_message status_141 []]"
      using assms(2) x by (auto simp: session_other_event at_def knows_def)
  qed (simp_all add: k named_session session_rows fsm_step_eval)
qed

text \<open>The sending node.\<close>

lemma announcing_hears:
  assumes "uid_ok u" "at u boxes announcing_file_metadata_change_state [(ptr, f)] fs bo" "file_out f = Inr img"
  shows "moves api u boxes (fsm_message status_161 []) bo sending_file_metadata_change_state [] fs [fsm_message status_170 img]"
proof -
  have k: "knows u bo" "bo_state bo = announcing_file_metadata_change_state" "bo_file_list_metadata bo = [(ptr, f)]"
    using assms(2) by (simp_all add: at_def)
  show ?thesis unfolding moves_def
  proof (rule hears_step [OF assms(1) k(1)])
    fix e s x p t
    assume u: "updateTimestamp e s bo = Inr (stream_at p (CHR '' '' # [] @ t), heard u x bo)" and x: "s_key x = Hash_bytes u" "\<not> s_freed x"
    obtain x' where x': "s_key x' = Hash_bytes u" "\<not> s_freed x'" "note_reply (heard u x bo) = Inr (True, heard u x' bo)"
      using note_reply_heard [OF x] by blast
    have "received_heartbeat api e status_161 received_heartbeat_event s bo =
        Inr (Proceed status_162 all_nodes_replied_event (stream_at p (CHR '' '' # t)) (heard u x' bo))"
      using u by (simp add: received_heartbeat_def received_reply_def x'(3) status_when_all_replied_def change_status_def k session_rows fsm_step_eval)
    moreover have "fsm_continue e status_162 all_nodes_replied_event (heard u x' bo) =
        Inr (0, (heard u x' bo)\<lparr>bo_current_file := stream_of (drop 32 img), bo_file_list_metadata := [],
          bo_hb := bo_hb bo @ [fsm_message status_170 img], bo_state := sending_file_metadata_change_state\<rparr>)"
      by (simp add: fsm_continue_def k fsm_step_eval performAction_def updateHeartbeat_def prepareHeartbeatMessage_def set_current_file_def
          assms(3) send_hb_def Let_def)
    ultimately show "\<exists>st' ev s' bo1 bo'. received_heartbeat api e status_161 received_heartbeat_event s bo = Inr (Proceed st' ev s' bo1) \<and>
        \<not> dispatch_due st' ev \<and> \<not> is_local_event ev \<and> ev \<noteq> received_file_data_event \<and> fsm_continue e st' ev bo1 = Inr (0, bo') \<and>
        at u boxes sending_file_metadata_change_state [] fs bo' \<and> bo_hb bo' = bo_hb bo @ [fsm_message status_170 img]"
      using assms(2) x' by (auto simp: session_other_event at_def knows_def)
  qed (simp_all add: k named_session session_rows fsm_step_eval)
qed

lemma sending_hears:
  assumes "uid_ok u" "at u boxes sending_file_metadata_change_state [] fs bo"
  shows "moves api u boxes (fsm_message status_171 []) bo sending_file_metadata_change_state [] fs []"
    and "moves api u boxes (fsm_message status_141 []) bo ready_state [] fs [fsm_message status_150 []]"
proof -
  have k: "knows u bo" "bo_state bo = sending_file_metadata_change_state" "bo_file_list_metadata bo = []" "bo_file_list_data bo = []"
    using assms(2) by (simp_all add: at_def)
  note h = hears_step [OF assms(1) k(1), of _ "[]"]
  show "moves api u boxes (fsm_message status_171 []) bo sending_file_metadata_change_state [] fs []" unfolding moves_def
    by (rule h) (use assms(2) in \<open>auto simp: k named_session session_rows session_other_event fsm_step_eval received_heartbeat_def fsm_continue_def at_def knows_def\<close>)
  show "moves api u boxes (fsm_message status_141 []) bo ready_state [] fs [fsm_message status_150 []]" unfolding moves_def
  proof (rule h)
    fix e s x p t
    assume u: "updateTimestamp e s bo = Inr (stream_at p (CHR '' '' # [] @ t), heard u x bo)" and x: "s_key x = Hash_bytes u" "\<not> s_freed x"
    obtain x' where x': "s_key x' = Hash_bytes u" "\<not> s_freed x'" "note_reply (heard u x bo) = Inr (True, heard u x' bo)"
      using note_reply_heard [OF x] by blast
    have "received_heartbeat api e status_141 received_heartbeat_event s bo =
        Inr (Proceed status_172 all_nodes_have_file_event (stream_at p (CHR '' '' # t)) (heard u x' bo))"
      using u by (simp add: received_heartbeat_def received_reply_def x'(3) status_when_all_replied_def change_status_def k session_rows fsm_step_eval)
    moreover have "fsm_continue e status_172 all_nodes_have_file_event (heard u x' bo) =
        Inr (0, (heard u x' bo)\<lparr>bo_hb := bo_hb bo @ [fsm_message status_150 []], bo_state := ready_state\<rparr>)"
      by (subst fsm_continue_plain) (simp_all add: k fsm_step_eval)
    ultimately show "\<exists>st' ev s' bo1 bo'. received_heartbeat api e status_141 received_heartbeat_event s bo = Inr (Proceed st' ev s' bo1) \<and>
        \<not> dispatch_due st' ev \<and> \<not> is_local_event ev \<and> ev \<noteq> received_file_data_event \<and> fsm_continue e st' ev bo1 = Inr (0, bo') \<and>
        at u boxes ready_state [] fs bo' \<and> bo_hb bo' = bo_hb bo @ [fsm_message status_150 []]"
      using assms(2) x' by (auto simp: session_other_event at_def knows_def)
  qed (simp_all add: k named_session session_rows fsm_step_eval)
qed

section \<open>The phases\<close>

text \<open>Who passes what on to whom: the nodes, their boxes, the queued file with its image (the hash of the box and the rest), the file
  system of the sender, and that of the receiver before and after.\<close>

record 'fs plan =
  pl_api :: "'fs fs_api"
  pl_ua :: string
  pl_ub :: string
  pl_boxes_a :: "(string \<times> string) list"
  pl_boxes_b :: "(string \<times> string) list"
  pl_file :: "nat \<times> File"
  pl_hash :: string
  pl_rest :: string
  pl_dir_b :: string
  pl_fs_a :: 'fs
  pl_before :: 'fs
  pl_after :: 'fs

definition plan_ok :: "'fs plan \<Rightarrow> bool" where
  "plan_ok P \<longleftrightarrow> uid_ok (pl_ua P) \<and> uid_ok (pl_ub P) \<and> file_out (snd (pl_file P)) = Inr (pl_hash P @ pl_rest P) \<and>
     CHR 0x0A \<notin> set (pl_hash P @ pl_rest P) \<and> length (pl_hash P) = 64 \<and> map_of (pl_boxes_b P) (pl_hash P) = Some (pl_dir_b P) \<and>
     applies (pl_api P) (pl_before P) (pl_dir_b P) (pl_hash P) (pl_rest P) (pl_after P)"

definition msg :: "status_t \<Rightarrow> string" where
  "msg st = fsm_message st []"

definition meta_msg :: "'fs plan \<Rightarrow> string" where
  "meta_msg P = fsm_message status_170 (pl_hash P @ pl_rest P)"

definition at_a :: "'fs plan \<Rightarrow> state_t \<Rightarrow> (nat \<times> File) list \<Rightarrow> 'fs boxoffice \<Rightarrow> bool" where
  "at_a P st meta = at (pl_ub P) (pl_boxes_a P) st meta (pl_fs_a P)"

definition at_b :: "'fs plan \<Rightarrow> state_t \<Rightarrow> 'fs \<Rightarrow> 'fs boxoffice \<Rightarrow> bool" where
  "at_b P st fs = at (pl_ua P) (pl_boxes_b P) st [] fs"

text \<open>What idle nodes may have under way: 141 and 150 of an earlier exchange, 100 in answer.\<close>

definition quiet_msgs :: "string list \<Rightarrow> bool" where
  "quiet_msgs ms \<longleftrightarrow> set ms \<subseteq> {msg status_100, msg status_141, msg status_150}"

lemma quiet_msgs_simps [simp]:
  "quiet_msgs []" "quiet_msgs (ms @ ms') \<longleftrightarrow> quiet_msgs ms \<and> quiet_msgs ms'"
  "quiet_msgs (m # ms) \<longleftrightarrow> m \<in> {msg status_100, msg status_141, msg status_150} \<and> quiet_msgs ms"
  by (auto simp: quiet_msgs_def)

definition ends_in :: "string \<Rightarrow> string list \<Rightarrow> bool" where
  "ends_in x ms \<longleftrightarrow> ms \<noteq> [] \<and> last ms = x \<and> quiet_msgs (butlast ms)"

lemma ends_in_simps [simp]:
  "\<not> ends_in x []" "ends_in x [m] \<longleftrightarrow> m = x" "ends_in x (ms @ [m]) \<longleftrightarrow> m = x \<and> quiet_msgs ms"
  "ends_in x (m # m' # ms) \<longleftrightarrow> m \<in> {msg status_100, msg status_141, msg status_150} \<and> ends_in x (m' # ms)"
  "ends_in x ms \<Longrightarrow> ms \<noteq> []" "ends_in x ms \<Longrightarrow> last ms = x"
  by (auto simp: ends_in_def)

lemma ends_in_cases:
  assumes "ends_in x ms"
  obtains "ms = [x]" | m m' ms' where "ms = m # m' # ms'" "m \<in> {msg status_100, msg status_141, msg status_150}" "ends_in x (m' # ms')"
  using assms by (metis ends_in_simps(1,2,4) list.exhaust)

inductive phase :: "'fs plan \<Rightarrow> nat \<Rightarrow> 'fs session \<Rightarrow> bool" for P where
  announced: "at_a P announcing_file_metadata_change_state [pl_file P] a \<Longrightarrow> at_b P ready_state (pl_before P) b \<Longrightarrow>
    ends_in (msg status_160) ab \<Longrightarrow> quiet_msgs ba \<Longrightarrow> ba \<noteq> [] \<Longrightarrow> phase P 0 (Running a ab b ba)"
| acknowledged: "at_a P announcing_file_metadata_change_state [pl_file P] a \<Longrightarrow> at_b P acknowledging_file_metadata_change_state (pl_before P) b \<Longrightarrow>
    ends_in (msg status_161) ba \<Longrightarrow> phase P 1 (Running a [msg status_160] b ba)"
| sent: "at_a P sending_file_metadata_change_state [] a \<Longrightarrow> at_b P acknowledging_file_metadata_change_state (pl_before P) b \<Longrightarrow>
    ab \<in> {[msg status_160, meta_msg P], [meta_msg P]} \<Longrightarrow> phase P 2 (Running a ab b [msg status_161])"
| receiving: "at_a P sending_file_metadata_change_state [] a \<Longrightarrow> at_b P receiving_file_metadata_change_state (pl_before P) b \<Longrightarrow>
    ba \<in> {[msg status_161, msg status_171], [msg status_171]} \<Longrightarrow> phase P 3 (Running a [meta_msg P] b ba)"
| stored: "at_a P sending_file_metadata_change_state [] a \<Longrightarrow> at_b P broadcasting_all_metadata_received_state (pl_after P) b \<Longrightarrow>
    ba \<in> {[msg status_161, msg status_171, msg status_141], [msg status_171, msg status_141], [msg status_141]} \<Longrightarrow>
    phase P 4 (Running a [meta_msg P] b ba)"
| confirmed: "at_a P ready_state [] a \<Longrightarrow> at_b P broadcasting_all_metadata_received_state (pl_after P) b \<Longrightarrow>
    ab \<in> {[meta_msg P, msg status_150], [msg status_150]} \<Longrightarrow> phase P 5 (Running a ab b [msg status_141])"
| idle: "at_a P ready_state [] a \<Longrightarrow> at_b P ready_state (pl_after P) b \<Longrightarrow> quiet_msgs ab \<Longrightarrow> quiet_msgs ba \<Longrightarrow>
    ab \<noteq> [] \<Longrightarrow> ba \<noteq> [] \<Longrightarrow> phase P 6 (Running a ab b ba)"

lemma hearsD: "hears api u m bo P \<Longrightarrow> delivered u m x \<Longrightarrow> \<exists>bo'. runRouter api vars [(e, x)] bo = Inr (None, bo') \<and> P bo'"
  unfolding hears_def by blast

lemma session_step_cases:
  assumes "session_step api ua ub (Running a ab b ba) S"
    and "\<And>m ms. ab = m # ms \<Longrightarrow> hears api ua m b (\<lambda>b'. Q (Running a ab b' (ba @ new_heartbeats b b')))"
    and "\<And>m ms. ba = m # ms \<Longrightarrow> hears api ub m a (\<lambda>a'. Q (Running a' (ab @ new_heartbeats a a') b ba))"
    and "\<And>m m' ms. ab = m # m' # ms \<Longrightarrow> Q (Running a (m' # ms) b ba)"
    and "\<And>m m' ms. ba = m # m' # ms \<Longrightarrow> Q (Running a ab b (m' # ms))"
  shows "Q S"
  using assms(1)
proof (cases rule: session_stepE [consumes 1])
  case (1 m x vars e b' ms)
  then show ?thesis using hearsD [OF assms(2) [OF 1(1)] 1(3), of vars e] by auto
next
  case (2 m x vars e a' ms)
  then show ?thesis using hearsD [OF assms(3) [OF 2(1)] 2(3), of vars e] by auto
next
  case (5 m x vars e ms)
  then show ?thesis using hearsD [OF assms(2) [OF 5(1)] 5(3), of vars e] by auto
next
  case (6 m x vars e ms)
  then show ?thesis using hearsD [OF assms(3) [OF 6(1)] 6(3), of vars e] by auto
qed (use assms(4,5) in auto)

text \<open>What the two routers of a plan do, by state and heartbeat.\<close>

definition goes :: "'fs fs_api \<Rightarrow> string \<Rightarrow> string \<Rightarrow> 'fs boxoffice \<Rightarrow> ('fs boxoffice \<Rightarrow> bool) \<Rightarrow> string list \<Rightarrow> bool" where
  "goes api u m bo R out \<longleftrightarrow> hears api u m bo (\<lambda>bo'. R bo' \<and> new_heartbeats bo bo' = out)"

lemma goes_hears:
  assumes "goes api u m bo R out" "\<And>bo'. R bo' \<Longrightarrow> new_heartbeats bo bo' = out \<Longrightarrow> Q bo'"
  shows "hears api u m bo Q"
  using assms unfolding goes_def hears_def by blast

lemma moves_goes: "moves api u boxes m bo st meta fs out \<Longrightarrow> goes api u m bo (at u boxes st meta fs) out"
  unfolding goes_def moves_def hears_def new_heartbeats_def by (metis append_eq_conv_conj)

lemma ignored_goes:
  assumes "uid_ok u" "named st" "at u boxes s meta fs bo" "\<not> accepts s st"
  shows "goes api u (msg st) bo (at u boxes s meta fs) []"
proof -
  have "hears api u (fsm_message st []) bo (\<lambda>bo'. bo' = bo)"
    using assms by (intro hears_ignored) (simp_all add: at_def)
  then show ?thesis using assms(3) unfolding goes_def msg_def hears_def by (auto simp: new_heartbeats_def)
qed

lemma a_announcing:
  assumes "plan_ok P" "at_a P announcing_file_metadata_change_state [pl_file P] a"
  shows "st \<in> {status_100, status_141, status_150} \<Longrightarrow>
      goes (pl_api P) (pl_ub P) (msg st) a (at_a P announcing_file_metadata_change_state [pl_file P]) []"
    and "goes (pl_api P) (pl_ub P) (msg status_161) a (at_a P sending_file_metadata_change_state []) [meta_msg P]"
proof -
  obtain ptr f where f: "pl_file P = (ptr, f)" by (cases "pl_file P")
  show "goes (pl_api P) (pl_ub P) (msg st) a (at_a P announcing_file_metadata_change_state [pl_file P]) []"
    if "st \<in> {status_100, status_141, status_150}"
    unfolding at_a_def using assms that named_session by (intro ignored_goes) (auto simp: plan_ok_def accepts_def fsm_step_eval at_a_def)
  show "goes (pl_api P) (pl_ub P) (msg status_161) a (at_a P sending_file_metadata_change_state []) [meta_msg P]"
    unfolding at_a_def msg_def meta_msg_def using assms by (intro moves_goes announcing_hears) (auto simp: plan_ok_def at_a_def f)
qed

lemma a_sending:
  assumes "plan_ok P" "at_a P sending_file_metadata_change_state [] a"
  shows "goes (pl_api P) (pl_ub P) (msg status_161) a (at_a P sending_file_metadata_change_state []) []"
    and "goes (pl_api P) (pl_ub P) (msg status_171) a (at_a P sending_file_metadata_change_state []) []"
    and "goes (pl_api P) (pl_ub P) (msg status_141) a (at_a P ready_state []) [msg status_150]"
proof -
  have u: "uid_ok (pl_ub P)" using assms(1) by (simp add: plan_ok_def)
  note a = assms(2) [unfolded at_a_def]
  show "goes (pl_api P) (pl_ub P) (msg status_161) a (at_a P sending_file_metadata_change_state []) []"
    unfolding at_a_def using u a by (intro ignored_goes) (auto simp: named_session accepts_def fsm_step_eval)
  show "goes (pl_api P) (pl_ub P) (msg status_171) a (at_a P sending_file_metadata_change_state []) []"
    "goes (pl_api P) (pl_ub P) (msg status_141) a (at_a P ready_state []) [msg status_150]"
    unfolding at_a_def msg_def using sending_hears [OF u a] by (auto intro: moves_goes)
qed

lemma ready_goes:
  assumes "uid_ok u" "at u boxes ready_state [] fs bo"
  shows "goes api u (msg status_141) bo (at u boxes ready_state [] fs) []"
    and "goes api u (msg status_100) bo (at u boxes ready_state [] fs) []"
    and "goes api u (msg status_150) bo (at u boxes ready_state [] fs) [msg status_100]"
    and "goes api u (msg status_160) bo (at u boxes acknowledging_file_metadata_change_state [] fs) [msg status_161]"
proof -
  show "goes api u (msg status_141) bo (at u boxes ready_state [] fs) []"
    using assms by (intro ignored_goes) (auto simp: named_session accepts_def fsm_step_eval)
  show "goes api u (msg status_100) bo (at u boxes ready_state [] fs) []"
    "goes api u (msg status_150) bo (at u boxes ready_state [] fs) [msg status_100]"
    "goes api u (msg status_160) bo (at u boxes acknowledging_file_metadata_change_state [] fs) [msg status_161]"
    unfolding msg_def using ready_hears [OF assms] by (auto intro: moves_goes)
qed

lemma a_ready:
  assumes "plan_ok P" "at_a P ready_state [] a"
  shows "goes (pl_api P) (pl_ub P) (msg status_141) a (at_a P ready_state []) []"
    and "goes (pl_api P) (pl_ub P) (msg status_100) a (at_a P ready_state []) []"
    and "goes (pl_api P) (pl_ub P) (msg status_150) a (at_a P ready_state []) [msg status_100]"
  using assms ready_goes [of "pl_ub P"] by (simp_all add: at_a_def plan_ok_def)

lemma b_ready:
  assumes "plan_ok P" "at_b P ready_state fs b"
  shows "goes (pl_api P) (pl_ua P) (msg status_141) b (at_b P ready_state fs) []"
    and "goes (pl_api P) (pl_ua P) (msg status_100) b (at_b P ready_state fs) []"
    and "goes (pl_api P) (pl_ua P) (msg status_150) b (at_b P ready_state fs) [msg status_100]"
    and "goes (pl_api P) (pl_ua P) (msg status_160) b (at_b P acknowledging_file_metadata_change_state fs) [msg status_161]"
  using assms ready_goes [of "pl_ua P"] by (simp_all add: at_b_def plan_ok_def)

lemma b_receives:
  assumes "plan_ok P"
  shows "at_b P acknowledging_file_metadata_change_state fs b \<Longrightarrow>
      goes (pl_api P) (pl_ua P) (msg status_160) b (at_b P acknowledging_file_metadata_change_state fs) []"
    and "at_b P acknowledging_file_metadata_change_state fs b \<Longrightarrow>
      goes (pl_api P) (pl_ua P) (meta_msg P) b (at_b P receiving_file_metadata_change_state fs) [msg status_171]"
    and "at_b P receiving_file_metadata_change_state (pl_before P) b \<Longrightarrow>
      goes (pl_api P) (pl_ua P) (meta_msg P) b (at_b P broadcasting_all_metadata_received_state (pl_after P)) [msg status_141]"
    and "at_b P broadcasting_all_metadata_received_state fs b \<Longrightarrow>
      goes (pl_api P) (pl_ua P) (meta_msg P) b (at_b P broadcasting_all_metadata_received_state fs) []"
    and "at_b P broadcasting_all_metadata_received_state fs b \<Longrightarrow>
      goes (pl_api P) (pl_ua P) (msg status_150) b (at_b P ready_state fs) [msg status_150]"
proof -
  have u: "uid_ok (pl_ua P)" "CHR 0x0A \<notin> set (pl_hash P @ pl_rest P)" using assms by (simp_all add: plan_ok_def)
  note [simp] = at_b_def msg_def meta_msg_def
  show "at_b P acknowledging_file_metadata_change_state fs b \<Longrightarrow>
      goes (pl_api P) (pl_ua P) (msg status_160) b (at_b P acknowledging_file_metadata_change_state fs) []"
    "at_b P acknowledging_file_metadata_change_state fs b \<Longrightarrow>
      goes (pl_api P) (pl_ua P) (meta_msg P) b (at_b P receiving_file_metadata_change_state fs) [msg status_171]"
    using acknowledging_hears [OF u(1) _ u(2)] by (auto intro!: moves_goes)
  show "at_b P broadcasting_all_metadata_received_state fs b \<Longrightarrow>
      goes (pl_api P) (pl_ua P) (meta_msg P) b (at_b P broadcasting_all_metadata_received_state fs) []"
    "at_b P broadcasting_all_metadata_received_state fs b \<Longrightarrow>
      goes (pl_api P) (pl_ua P) (msg status_150) b (at_b P ready_state fs) [msg status_150]"
    using broadcasting_hears [OF u(1) _ u(2)] by (auto intro!: moves_goes)
  show "at_b P receiving_file_metadata_change_state (pl_before P) b \<Longrightarrow>
      goes (pl_api P) (pl_ua P) (meta_msg P) b (at_b P broadcasting_all_metadata_received_state (pl_after P)) [msg status_141]"
    using receiving_hears [OF u(1) _ u(2)] assms by (auto intro!: moves_goes simp: plan_ok_def)
qed

section \<open>The phases are an invariant, and every phase leads on\<close>

inductive_simps phase_at:
  "phase P 0 (Running a ab b ba)" "phase P (Suc 0) (Running a ab b ba)" "phase P (Suc (Suc 0)) (Running a ab b ba)" "phase P 2 (Running a ab b ba)" "phase P 3 (Running a ab b ba)"
  "phase P 4 (Running a ab b ba)" "phase P 5 (Running a ab b ba)" "phase P 6 (Running a ab b ba)"

definition onward :: "'fs plan \<Rightarrow> nat \<Rightarrow> 'fs session \<Rightarrow> bool" where
  "onward P k S \<longleftrightarrow> phase P k S \<or> phase P (Suc k) S"

lemma announced_step:
  assumes "plan_ok P" "phase P k S" "k \<le> 1" "session_step (pl_api P) (pl_ua P) (pl_ub P) S S'"
  shows "onward P k S'"
  using assms(2)
proof cases
  case (announced a b ab ba)
  note h = a_announcing [OF assms(1) announced(3), THEN goes_hears] b_ready [OF assms(1) announced(4), THEN goes_hears]
  note step = session_step_cases [OF assms(4) [unfolded announced(2)]]
  from announced(5) show ?thesis
    by (cases rule: ends_in_cases) (rule step; use announced in \<open>auto simp: onward_def phase_at intro!: h\<close>)+
next
  case (acknowledged a b ba)
  note h = a_announcing [OF assms(1) acknowledged(3), THEN goes_hears] b_receives(1,2) [OF assms(1) acknowledged(4), THEN goes_hears]
  note step = session_step_cases [OF assms(4) [unfolded acknowledged(2)]]
  from acknowledged(5) show ?thesis
    by (cases rule: ends_in_cases) (rule step; use acknowledged in \<open>auto simp: onward_def phase_at intro!: h\<close>)+
qed (use assms(3) in auto)

lemma phase_step:
  assumes "plan_ok P" "phase P k S" "session_step (pl_api P) (pl_ua P) (pl_ub P) S S'"
  shows "onward P k S'"
  using assms(2)
proof cases
  case (sent a b ab)
  note h = a_sending [OF assms(1) sent(3), THEN goes_hears] b_receives(1,2) [OF assms(1) sent(4), THEN goes_hears]
  show ?thesis
    by (rule session_step_cases [OF assms(3) [unfolded sent(2)]]) (use sent in \<open>auto simp: onward_def phase_at intro!: h\<close>)
next
  case (receiving a b ba)
  note h = a_sending [OF assms(1) receiving(3), THEN goes_hears] b_receives(3) [OF assms(1) receiving(4), THEN goes_hears]
  show ?thesis
    by (rule session_step_cases [OF assms(3) [unfolded receiving(2)]]) (use receiving in \<open>auto simp: onward_def phase_at intro!: h\<close>)
next
  case (stored a b ba)
  note h = a_sending [OF assms(1) stored(3), THEN goes_hears] b_receives(4,5) [OF assms(1) stored(4), THEN goes_hears]
  show ?thesis
    by (rule session_step_cases [OF assms(3) [unfolded stored(2)]]) (use stored in \<open>auto simp: onward_def phase_at intro!: h\<close>)
next
  case (confirmed a b ab)
  note h = a_ready [OF assms(1) confirmed(3), THEN goes_hears] b_receives(4,5) [OF assms(1) confirmed(4), THEN goes_hears]
  show ?thesis
    by (rule session_step_cases [OF assms(3) [unfolded confirmed(2)]]) (use confirmed in \<open>auto simp: onward_def phase_at intro!: h\<close>)
next
  case (idle a b ab ba)
  note h = a_ready [OF assms(1) idle(3), THEN goes_hears] b_ready [OF assms(1) idle(4), THEN goes_hears]
  show ?thesis
    by (rule session_step_cases [OF assms(3) [unfolded idle(2)]]) (use idle in \<open>auto simp: onward_def phase_at intro!: h\<close>)
qed (use announced_step [OF assms(1,2) _ assms(3)] in auto)

text \<open>The heartbeater gets to the latest message of its router, and the other node can hear it.\<close>

lemma run_trans [trans]: "session_run api ua ub S S' \<Longrightarrow> session_run api ua ub S' S'' \<Longrightarrow> session_run api ua ub S S''"
  by (simp add: session_run_def)

lemma a_drains: "session_run api ua ub (Running a (ms @ [m]) b ba) (Running a [m] b ba)"
proof (induction ms)
  case (Cons m' ms)
  have "session_step api ua ub (Running a ((m' # ms) @ [m]) b ba) (Running a (ms @ [m]) b ba)"
    by (cases ms) (auto intro: session_step.intros)
  then show ?case using Cons unfolding session_run_def by (rule converse_rtranclp_into_rtranclp)
qed (simp add: session_run_def)

lemma b_drains: "session_run api ua ub (Running a ab b (ms @ [m])) (Running a ab b [m])"
proof (induction ms)
  case (Cons m' ms)
  have "session_step api ua ub (Running a ab b ((m' # ms) @ [m])) (Running a ab b (ms @ [m]))"
    by (cases ms) (auto intro: session_step.intros)
  then show ?case using Cons unfolding session_run_def by (rule converse_rtranclp_into_rtranclp)
qed (simp add: session_run_def)

definition sendable :: "string \<Rightarrow> bool" where
  "sendable m \<longleftrightarrow> (\<exists>st payload. m = fsm_message st payload \<and> named st)"

lemma sendable_msg: "named st \<Longrightarrow> sendable (msg st)" "sendable (meta_msg P)"
  unfolding sendable_def msg_def meta_msg_def using named_session(6) by blast+

lemma a_heard_run:
  assumes "goes api ua m b R out" "sendable m" "ab \<noteq> []" "last ab = m"
    and "\<And>b'. R b' \<Longrightarrow> Q (Running a [m] b' (ba @ out))"
  shows "\<exists>S'. session_run api ua ub (Running a ab b ba) S' \<and> Q S'"
proof -
  obtain x where x: "delivered ua m x" using assms(2) delivered_exists by (fastforce simp: sendable_def named_def)
  obtain b' where b': "runRouter api undefined [(undefined, x)] b = Inr (None, b')" "R b'" "new_heartbeats b b' = out"
    using hearsD [OF assms(1) [unfolded goes_def] x] by blast
  have "session_step api ua ub (Running a [m] b ba) (Running a [m] b' (ba @ out))"
    using session_step.a_heard [OF x b'(1)] b'(3) by auto
  moreover have "session_run api ua ub (Running a ab b ba) (Running a [m] b ba)"
    using a_drains [of api ua ub a "butlast ab" m b ba] append_butlast_last_id [OF assms(3)] assms(4) by simp
  ultimately show ?thesis using assms(5) [OF b'(2)] unfolding session_run_def by (meson rtranclp.rtrancl_into_rtrancl)
qed

lemma b_heard_run:
  assumes "goes api ub m a R out" "sendable m" "ba \<noteq> []" "last ba = m"
    and "\<And>a'. R a' \<Longrightarrow> Q (Running a' (ab @ out) b [m])"
  shows "\<exists>S'. session_run api ua ub (Running a ab b ba) S' \<and> Q S'"
proof -
  obtain x where x: "delivered ub m x" using assms(2) delivered_exists by (fastforce simp: sendable_def named_def)
  obtain a' where a': "runRouter api undefined [(undefined, x)] a = Inr (None, a')" "R a'" "new_heartbeats a a' = out"
    using hearsD [OF assms(1) [unfolded goes_def] x] by blast
  have "session_step api ua ub (Running a ab b [m]) (Running a' (ab @ out) b [m])"
    using session_step.b_heard [OF x a'(1)] a'(3) by auto
  moreover have "session_run api ua ub (Running a ab b ba) (Running a ab b [m])"
    using b_drains [of api ua ub a ab b "butlast ba" m] append_butlast_last_id [OF assms(3)] assms(4) by simp
  ultimately show ?thesis using assms(5) [OF a'(2)] unfolding session_run_def by (meson rtranclp.rtrancl_into_rtrancl)
qed

lemma phase_progress:
  assumes "plan_ok P" "phase P k S" "k < 6"
  shows "\<exists>S'. session_run (pl_api P) (pl_ua P) (pl_ub P) S S' \<and> phase P (Suc k) S'"
  using assms(2)
proof cases
  case (announced a b ab ba)
  show ?thesis unfolding announced(2)
    by (rule a_heard_run [OF b_ready(4) [OF assms(1) announced(4)] sendable_msg(1) [OF named_session(4)]]) (use announced in \<open>auto simp: phase_at\<close>)
next
  case (acknowledged a b ba)
  show ?thesis unfolding acknowledged(2)
    by (rule b_heard_run [OF a_announcing(2) [OF assms(1) acknowledged(3)] sendable_msg(1) [OF named_session(5)]]) (use acknowledged in \<open>auto simp: phase_at\<close>)
next
  case (sent a b ab)
  show ?thesis unfolding sent(2)
    by (rule a_heard_run [OF b_receives(2) [OF assms(1) sent(4)] sendable_msg(2)]) (use sent in \<open>auto simp: phase_at\<close>)
next
  case (receiving a b ba)
  show ?thesis unfolding receiving(2)
    by (rule a_heard_run [OF b_receives(3) [OF assms(1) receiving(4)] sendable_msg(2)]) (use receiving in \<open>auto simp: phase_at\<close>)
next
  case (stored a b ba)
  show ?thesis unfolding stored(2)
    by (rule b_heard_run [OF a_sending(3) [OF assms(1) stored(3)] sendable_msg(1) [OF named_session(2)]]) (use stored in \<open>auto simp: phase_at\<close>)
next
  case (confirmed a b ab)
  show ?thesis unfolding confirmed(2)
    by (rule a_heard_run [OF b_receives(5) [OF assms(1) confirmed(4)] sendable_msg(1) [OF named_session(3)]]) (use confirmed in \<open>auto simp: phase_at\<close>)
qed (use assms(3) in auto)

text \<open>All states that the two nodes reach are phases of the session, later ones at most; from each the last phase can be reached.\<close>

lemma phase_run:
  assumes "plan_ok P" "phase P k S" "session_run (pl_api P) (pl_ua P) (pl_ub P) S S'"
  shows "\<exists>k'\<ge>k. phase P k' S'"
  using assms(3) unfolding session_run_def
proof (induction rule: rtranclp_induct)
  case base
  then show ?case using assms(2) by blast
next
  case (step S' S'')
  then obtain k' where "k' \<ge> k" "phase P k' S'" by blast
  then show ?case using phase_step [OF assms(1) _ step(2)] unfolding onward_def by (meson le_Suc_eq)
qed

lemma phase_range: "phase P k S \<Longrightarrow> k \<le> 6" by (cases rule: phase.cases) auto

lemma phase_end:
  assumes "plan_ok P" "phase P k S"
  shows "\<exists>S'. session_run (pl_api P) (pl_ua P) (pl_ub P) S S' \<and> phase P 6 S'"
  using assms(2)
proof (induction "6 - k" arbitrary: k S)
  case 0
  then show ?case using phase_range [of P k S] by (auto simp: session_run_def)
next
  case (Suc n)
  have "k < 6" using Suc(2) by simp
  then obtain S1 where S1: "session_run (pl_api P) (pl_ua P) (pl_ub P) S S1" "phase P (Suc k) S1"
    using phase_progress [OF assms(1) Suc(3)] by blast
  have "n = 6 - Suc k" using Suc(2) by simp
  from Suc(1) [OF this S1(2)] obtain S' where "session_run (pl_api P) (pl_ua P) (pl_ub P) S1 S'" "phase P 6 S'" by blast
  then show ?case using run_trans [OF S1(1)] by blast
qed

section \<open>From the report of a box to the file system of the other node\<close>

text \<open>Both nodes are idle and nothing is queued; messages of an earlier exchange may still be under way.\<close>

definition idle_nodes :: "string \<Rightarrow> string \<Rightarrow> (string \<times> string) list \<Rightarrow> (string \<times> string) list \<Rightarrow> 'fs \<Rightarrow> 'fs \<Rightarrow> 'fs session \<Rightarrow> bool" where
  "idle_nodes ua ub boxes_a boxes_b fs_a fs_b S \<longleftrightarrow> (\<exists>a ab b ba. S = Running a ab b ba \<and>
     at ub boxes_a ready_state [] fs_a a \<and> at ua boxes_b ready_state [] fs_b b \<and> quiet_msgs ab \<and> quiet_msgs ba \<and> ab \<noteq> [] \<and> ba \<noteq> [])"

text \<open>While the change is passed on no router has ended, the sender's files stay as they are, those of the receiver are as before or as
  they shall be, and the sender is idle again only after they are. In the end both are idle.\<close>

definition passing :: "'fs \<Rightarrow> 'fs \<Rightarrow> 'fs \<Rightarrow> 'fs session \<Rightarrow> bool" where
  "passing fs_a before after S \<longleftrightarrow> (\<exists>a ab b ba. S = Running a ab b ba \<and> bo_fs a = fs_a \<and>
     (bo_fs b = before \<or> bo_fs b = after) \<and> (bo_state a = ready_state \<longrightarrow> bo_fs b = after))"

definition passes_on :: "'fs fs_api \<Rightarrow> string \<Rightarrow> string \<Rightarrow> (string \<times> string) list \<Rightarrow> (string \<times> string) list \<Rightarrow> 'fs \<Rightarrow> 'fs \<Rightarrow> 'fs \<Rightarrow> 'fs session \<Rightarrow> bool" where
  "passes_on api ua ub boxes_a boxes_b fs_a before after S \<longleftrightarrow>
    (\<forall>S'. session_run api ua ub S S' \<longrightarrow> passing fs_a before after S' \<and>
       (\<exists>S''. session_run api ua ub S' S'' \<and> idle_nodes ua ub boxes_a boxes_b fs_a after S''))"

lemma phase_passing: "phase P k S \<Longrightarrow> passing (pl_fs_a P) (pl_before P) (pl_after P) S"
  by (cases rule: phase.cases) (auto simp: passing_def at_a_def at_b_def at_def)

lemma phase_passed: "phase P 6 S \<Longrightarrow> idle_nodes (pl_ua P) (pl_ub P) (pl_boxes_a P) (pl_boxes_b P) (pl_fs_a P) (pl_after P) S"
  by (cases rule: phase.cases) (auto simp: idle_nodes_def at_a_def at_b_def)

lemma plan_passes_on:
  assumes "plan_ok P" "phase P k S"
  shows "passes_on (pl_api P) (pl_ua P) (pl_ub P) (pl_boxes_a P) (pl_boxes_b P) (pl_fs_a P) (pl_before P) (pl_after P) S"
  unfolding passes_on_def
proof (intro allI impI conjI)
  fix S' assume "session_run (pl_api P) (pl_ua P) (pl_ub P) S S'"
  then obtain k' where k': "phase P k' S'" using phase_run [OF assms] by blast
  then show "passing (pl_fs_a P) (pl_before P) (pl_after P) S'" by (rule phase_passing)
  from phase_end [OF assms(1) k'] show "\<exists>S''. session_run (pl_api P) (pl_ua P) (pl_ub P) S' S'' \<and>
      idle_nodes (pl_ua P) (pl_ub P) (pl_boxes_a P) (pl_boxes_b P) (pl_fs_a P) (pl_after P) S''"
    using phase_passed by blast
qed

lemma reported_at:
  assumes "at u boxes ready_state [] fs bo"
  shows "at u boxes announcing_file_metadata_change_state [(bo_next_ptr bo, f)] fs'
      (reported status_320 f status_160 announcing_file_metadata_change_state (bo\<lparr>bo_current_box := c, bo_fs := fs'\<rparr>))"
    and "new_heartbeats bo (reported status_320 f status_160 announcing_file_metadata_change_state (bo\<lparr>bo_current_box := c, bo_fs := fs'\<rparr>)) = [msg status_160]"
  using assms by (auto simp: at_def reported_def push_file_def ready_local_rows knows_def reset_replied_def new_heartbeats_def msg_def)

text \<open>A box of the first node reports the path of a change.\<close>

definition report_ok :: "string \<Rightarrow> string \<Rightarrow> nat \<Rightarrow> string \<Rightarrow> string \<Rightarrow> bool" where
  "report_ok ua ub im h path \<longleftrightarrow> uid_ok ua \<and> uid_ok ub \<and> im \<le> 2147483647 \<and> length h = 64 \<and> \<not> is_digit (hd h) \<and> CHR 0x0A \<notin> set h \<and>
     list_all (\<lambda>c. \<not> is_space c) path \<and> path \<noteq> [] \<and> length path \<le> 128"

definition array_of :: "string \<Rightarrow> string" where
  "array_of path = path @ replicate (128 - length path) NUL"

lemma report_passes_on:
  assumes "report_ok ua ub im h path" "idle_nodes ua ub boxes_a boxes_b fs_a fs_b (Running a ab b ba)"
    and "map_of boxes_a h = Some dir_a" "map_of boxes_b h = Some dir_b"
    and mk: "make_local_file api (int im) dir_a (Hash_bytes h) path (a\<lparr>bo_current_box := Some h\<rparr>) = Inr (f, a\<lparr>bo_current_box := Some h, bo_fs := fs_a'\<rparr>)"
    and "file_out f = Inr (h @ r)" "CHR 0x0A \<notin> set r" "applies api fs_b dir_b h r fs_b'"
  shows "\<exists>a'. runRouter api vars [(e, inotify_message status_320 im h path)] a = Inr (None, a') \<and>
     passes_on api ua ub boxes_a boxes_b fs_a' fs_b fs_b' (Running a' (ab @ new_heartbeats a a') b ba)"
proof -
  define P where "P = \<lparr>pl_api = api, pl_ua = ua, pl_ub = ub, pl_boxes_a = boxes_a, pl_boxes_b = boxes_b, pl_file = (bo_next_ptr a, f),
    pl_hash = h, pl_rest = r, pl_dir_b = dir_b, pl_fs_a = fs_a', pl_before = fs_b, pl_after = fs_b'\<rparr>"
  let ?a = "reported status_320 f status_160 announcing_file_metadata_change_state (a\<lparr>bo_current_box := Some h, bo_fs := fs_a'\<rparr>)"
  have i: "at ub boxes_a ready_state [] fs_a a" "at ua boxes_b ready_state [] fs_b b" "quiet_msgs ab" "quiet_msgs ba" "ba \<noteq> []"
    using assms(2) by (simp_all add: idle_nodes_def)
  have a: "bo_state a = ready_state" "bo_boxes a = boxes_a" using i(1) by (simp_all add: at_def)
  have "runRouter api vars [(e, inotify_message status_320 im h path)] a = Inr (None, ?a)"
    using assms(1,3) mk a unfolding report_ok_def by (intro router_reported [where dir = dir_a]) auto
  moreover have "phase P 0 (Running ?a (ab @ new_heartbeats a ?a) b ba)"
    using reported_at [OF i(1)] i(2-) by (auto simp: phase_at at_a_def at_b_def P_def)
  moreover have "plan_ok P" using assms by (simp add: plan_ok_def P_def report_ok_def)
  ultimately show ?thesis using plan_passes_on [of P 0] by (auto simp: P_def)
qed

lemma no_newline: "list_all (\<lambda>c. \<not> is_space c) path \<Longrightarrow> CHR 0x0A \<notin> set path" "CHR 0x0A \<noteq> NUL"
  by (auto simp: list_all_iff is_space_def NUL_def)

lemma blanks_hd: "set t \<subseteq> {CHR '' ''} \<Longrightarrow> t = [] \<or> is_space (hd t)"
  by (cases t) (auto simp: is_space_def)

text \<open>The receiver's part of a deletion: the file with that path is removed when it is there.\<close>

definition delete_at :: "'fs fs_api \<Rightarrow> string \<Rightarrow> string \<Rightarrow> 'fs \<Rightarrow> 'fs result" where
  "delete_at api dir path fs =
    bindE (constructPath dir path) (\<lambda>bp. bindE (fs_exists api fs (c_str bp)) (\<lambda>ex.
      if ex then fs_remove api fs (c_str bp) else Inr fs))"

lemma deletion_applies:
  assumes "dir \<noteq> []" "length path = 128" "delete_at api dir path fs = Inr fs'"
  shows "applies api fs dir h (path @ ''IN_DELETE'') fs'"
  unfolding applies_def
proof (intro allI impI)
  fix p t assume t: "set t \<subseteq> {CHR '' ''}"
  let ?g = "File_default dir (Some (Hash_bytes h))"
  obtain s where "file_in api fs (stream_at p (path @ ''IN_DELETE'' @ t)) ?g = file_in_delete api fs s path (?g\<lparr>f_path := path\<rparr>)"
    using file_in_IN_DELETE [of ?g path t api fs p] assms(1,2) blanks_hd [OF t] by (auto simp: File_default_def path_len)
  moreover obtain bp where "file_in_delete api fs s path (?g\<lparr>f_path := path\<rparr>) = Inr (s, ?g\<lparr>f_path := path, f_deleted := True, f_bpath := bp\<rparr>, fs')"
    using assms(3) by (auto simp: file_in_delete_def delete_at_def bindE_eq_Inr File_default_def split: if_splits)
  ultimately show "\<exists>s g fs1. file_in api fs (stream_at p ((path @ ''IN_DELETE'') @ t)) ?g = Inr (s, g, fs1) \<and>
      writes api fs1 g fs'"
    by (auto simp: isToBeDeleted_def writes_def)
qed

lemma metadata_applies:
  assumes "dir \<noteq> []" "length (f_path f) = 128" "plain_mode (f_mode f)" "f_type f = regular_file"
    and "constructPath dir (f_path f) = Inr bp" "checkArguments api fs bp (f_path f) regular_file True = Inr fs1"
    and "fs_exists api fs1 (c_str bp) = Inr True" "fs_resize_file api fs1 (c_str bp) (f_size f) = Inr fs2"
    and "fs_permissions api fs2 (c_str bp) (f_mode f) = Inr fs3" "fs_set_last_write_time api fs3 (c_str bp) (uint (f_mtime f)) = Inr fs'"
  shows "applies api fs dir h (f_path f @ meta_bytes f) fs'"
  unfolding applies_def
proof (intro allI impI)
  fix p t
  let ?g = "File_default dir (Some (Hash_bytes h))"
  let ?g1 = "?g\<lparr>f_path := f_path f, f_bpath := bp, f_mode := f_mode f, f_type := f_type f, f_mtime := f_mtime f, f_size := f_size f\<rparr>"
  have "file_in api fs (stream_at p (f_path f @ meta_bytes f @ t)) ?g =
      file_in_body api fs (stream_at (p @ f_path f) (meta_bytes f @ t)) (f_path f) (?g\<lparr>f_path := f_path f\<rparr>)"
    by (rule file_in_plain) (use assms in \<open>auto simp: File_default_def path_len\<close>)
  also have "\<dots> = Inr (stream_at ((p @ f_path f) @ meta_bytes f) t, ?g1, fs1)"
    using assms by (subst file_in_body_meta) (auto simp: File_default_def)
  finally have "file_in api fs (stream_at p ((f_path f @ meta_bytes f) @ t)) ?g = Inr (stream_at ((p @ f_path f) @ meta_bytes f) t, ?g1, fs1)"
    by simp
  moreover have "\<not> isToBeDeleted ?g1" by (simp add: isToBeDeleted_def File_default_def)
  moreover have "file_exists api fs1 ?g1 = Inr True" "resize_self api fs1 ?g1 = Inr (?g1, fs2)" "storeMetadata api fs2 ?g1 = Inr fs'"
    using assms by (simp_all add: file_exists_def resize_self_def resize_def storeMetadata_def File_default_def)
  ultimately show "\<exists>s g fs1. file_in api fs (stream_at p ((f_path f @ meta_bytes f) @ t)) ?g = Inr (s, g, fs1) \<and>
      writes api fs1 g fs'"
    by (auto simp: writes_def)
qed

lemma array_of: "length path \<le> 128 \<Longrightarrow> length (array_of path) = 128"
  "list_all (\<lambda>c. \<not> is_space c) path \<Longrightarrow> CHR 0x0A \<notin> set (array_of path)"
  "length path \<le> 128 \<Longrightarrow> f_path f = empty_path \<Longrightarrow> copy_path path f = Inr (f\<lparr>f_path := array_of path\<rparr>)"
  using no_newline(1) [of path] no_newline(2) by (auto simp: array_of_def copy_path_def path_len empty_path_def)

lemma deletion_report:
  assumes "report_ok ua ub im h path" "idle_nodes ua ub boxes_a boxes_b fs_a fs_b (Running a ab b ba)" "and (int im) IN_DELETE = IN_DELETE"
    and "map_of boxes_a h = Some dir_a" "map_of boxes_b h = Some dir_b" "dir_b \<noteq> []" "delete_at api dir_b (array_of path) fs_b = Inr fs_b'"
  shows "\<exists>a'. runRouter api vars [(e, inotify_message status_320 im h path)] a = Inr (None, a') \<and>
     passes_on api ua ub boxes_a boxes_b fs_a fs_b fs_b' (Running a' (ab @ new_heartbeats a a') b ba)"
proof (rule report_passes_on [OF assms(1,2,4,5)])
  let ?f = "(File_default dir_a (Some (Hash_bytes h)))\<lparr>f_deleted := True, f_path := array_of path\<rparr>"
  note r = assms(1) [unfolded report_ok_def]
  have "File_deleted dir_a (Some (Hash_bytes h)) path False True = Inr ?f"
    using r array_of(3) [of path] by (simp add: File_deleted_def File_default_def)
  then show "make_local_file api (int im) dir_a (Hash_bytes h) path (a\<lparr>bo_current_box := Some h\<rparr>) =
      Inr (?f, a\<lparr>bo_current_box := Some h, bo_fs := fs_a\<rparr>)"
    using assms(2,3) by (simp add: make_local_file_def idle_nodes_def at_def)
  show "file_out ?f = Inr (h @ array_of path @ ''IN_DELETE'')"
    using r by (simp add: file_out_def getBytes_def Hash_bytes_ok File_default_def filled_cases)
  show "CHR 0x0A \<notin> set (array_of path @ ''IN_DELETE'')" using r array_of(2) [of path] by auto
  show "applies api fs_b dir_b h (array_of path @ ''IN_DELETE'') fs_b'"
    using r assms(6,7) array_of(1) by (intro deletion_applies) auto
qed

text \<open>What a regular file's metadata does to the file system of the receiver.\<close>

definition update_at :: "'fs fs_api \<Rightarrow> string \<Rightarrow> File \<Rightarrow> 'fs \<Rightarrow> 'fs result" where
  "update_at api dir f fs =
    bindE (constructPath dir (f_path f)) (\<lambda>bp.
    bindE (checkArguments api fs bp (f_path f) regular_file True) (\<lambda>fs.
    bindE (fs_exists api fs (c_str bp)) (\<lambda>ex.
    if \<not> ex then Inl Filesystem_error
    else bindE (fs_resize_file api fs (c_str bp) (f_size f)) (\<lambda>fs.
      bindE (fs_permissions api fs (c_str bp) (f_mode f)) (\<lambda>fs.
      fs_set_last_write_time api fs (c_str bp) (uint (f_mtime f)))))))"

lemma metadata_report:
  assumes "report_ok ua ub im h path" "idle_nodes ua ub boxes_a boxes_b fs_a fs_b (Running a ab b ba)" "and (int im) IN_DELETE \<noteq> IN_DELETE"
    and "map_of boxes_a h = Some dir_a" "map_of boxes_b h = Some dir_b" "dir_b \<noteq> []"
    and f: "File_path api fs_a dir_a (Some (Hash_bytes h)) path = Inr (f, fs_a')" "f_type f = regular_file" "plain_mode (f_mode f)"
      "CHR 0x0A \<notin> set (meta_bytes f)" "update_at api dir_b f fs_b = Inr fs_b'"
  shows "\<exists>a'. runRouter api vars [(e, inotify_message status_320 im h path)] a = Inr (None, a') \<and>
     passes_on api ua ub boxes_a boxes_b fs_a' fs_b fs_b' (Running a' (ab @ new_heartbeats a a') b ba)"
proof (rule report_passes_on [OF assms(1,2,4,5)])
  note r = assms(1) [unfolded report_ok_def]
  have "f_box_hash f = Some (Hash_bytes h)" "\<not> f_deleted f" and p: "f_path f = array_of path"
    using f(1) r by (auto simp: File_path_def bindE_eq_Inr File_default_def copy_path_def path_len empty_path_def array_of_def split: if_splits)
  then show "file_out f = Inr (h @ f_path f @ meta_bytes f)"
    using file_out_regular [of f "Hash_bytes h"] r f(2) by (simp add: Hash_bytes_ok)
  show "make_local_file api (int im) dir_a (Hash_bytes h) path (a\<lparr>bo_current_box := Some h\<rparr>) =
      Inr (f, a\<lparr>bo_current_box := Some h, bo_fs := fs_a'\<rparr>)"
    using assms(2,3) f(1) by (simp add: make_local_file_def idle_nodes_def at_def)
  show "CHR 0x0A \<notin> set (f_path f @ meta_bytes f)" using f(4) r p array_of(2) [of path] by auto
  obtain bp fs1 fs2 fs3 where "constructPath dir_b (f_path f) = Inr bp" "checkArguments api fs_b bp (f_path f) regular_file True = Inr fs1"
    "fs_exists api fs1 (c_str bp) = Inr True" "fs_resize_file api fs1 (c_str bp) (f_size f) = Inr fs2"
    "fs_permissions api fs2 (c_str bp) (f_mode f) = Inr fs3" "fs_set_last_write_time api fs3 (c_str bp) (uint (f_mtime f)) = Inr fs_b'"
    using f(5) by (auto simp: update_at_def bindE_eq_Inr split: if_splits)
  then show "applies api fs_b dir_b h (f_path f @ meta_bytes f) fs_b'"
    using r p array_of(1) [of path] assms(6) f(2,3) by (intro metadata_applies) auto
qed

section \<open>Two announcements at once\<close>

lemma announcing_ignores:
  assumes "uid_ok u" "bo_state bo \<in> {announcing_new_file_state, announcing_file_metadata_change_state}"
    and "m \<in> msg ` {status_100, status_120, status_150, status_160}"
  shows "hears api u m bo (\<lambda>bo'. bo' = bo)"
proof -
  obtain st where st: "m = fsm_message st []" "st \<in> {status_100, status_120, status_150, status_160}" using assms(3) by (auto simp: msg_def)
  moreover have "\<not> accepts (bo_state bo) st" using assms(2) st(2) by (auto simp: accepts_def fsm_step_eval)
  ultimately show ?thesis using assms(1) named_session by (auto intro: hears_ignored)
qed

definition waiting :: "'fs boxoffice \<Rightarrow> 'fs boxoffice \<Rightarrow> 'fs session \<Rightarrow> bool" where
  "waiting a b S \<longleftrightarrow> (\<exists>ab ba. S = Running a ab b ba \<and> set ab \<union> set ba \<subseteq> msg ` {status_100, status_120, status_150, status_160})"

lemma waiting_step:
  assumes "uid_ok ua" "uid_ok ub" "bo_state a \<in> {announcing_new_file_state, announcing_file_metadata_change_state}"
    "bo_state b \<in> {announcing_new_file_state, announcing_file_metadata_change_state}"
    and "waiting a b S" "session_step api ua ub S S'"
  shows "waiting a b S'"
proof -
  obtain ab ba where S: "S = Running a ab b ba" "set ab \<subseteq> msg ` {status_100, status_120, status_150, status_160}"
    "set ba \<subseteq> msg ` {status_100, status_120, status_150, status_160}" using assms(5) by (auto simp: waiting_def)
  have w: "waiting a b (Running a xs b ys)" if "set xs \<subseteq> set ab" "set ys \<subseteq> set ba" for xs ys
    using S that unfolding waiting_def by blast
  have h: "hears api u m bo Q" if "hears api u m bo (\<lambda>bo'. bo' = bo)" "Q bo" for u m bo and Q :: "'a boxoffice \<Rightarrow> bool"
    using that unfolding hears_def by fastforce
  show ?thesis
    by (rule session_step_cases [OF assms(6) [unfolded S(1)]])
      (use S in \<open>auto intro!: w h announcing_ignores [OF assms(1,4)] announcing_ignores [OF assms(2,3)] simp: new_heartbeats_def\<close>)
qed

section \<open>Two sample nodes\<close>

definition sample_node :: "string \<Rightarrow> (string \<Rightarrow> string option) \<Rightarrow> (string \<Rightarrow> string option) boxoffice" where
  "sample_node u fs = Boxoffice_init fs [\<lparr>s_key = Hash_bytes u, s_freed = False, s_node = node_default\<rparr>] [(replicate 64 CHR ''h'', ''/b'')]"

definition sample_uid :: "char \<Rightarrow> string" where "sample_uid c = replicate 64 c"

lemma sample_node_at: "at u [(replicate 64 CHR ''h'', ''/b'')] ready_state [] fs (sample_node u fs)"
  by (simp add: sample_node_def Boxoffice_init_def at_def knows_def)

lemma sample_uid_ok: "uid_ok (sample_uid CHR ''n'')" "uid_ok (sample_uid CHR ''m'')"
  by (simp_all add: uid_ok_def sample_uid_def is_digit_def)

lemma sample_session_chars: "\<not> is_digit (hd (replicate 64 CHR ''h''))" "CHR 0x0A \<notin> set (replicate 64 CHR ''h'')"
  "list_all (\<lambda>c. \<not> is_space c) ''a''" "length (replicate 64 CHR ''h'') = 64"
  by (simp_all add: is_digit_def is_space_def)

lemma sample_bytes: "CHR 0x0A \<notin> set (htobe16 420)" "CHR 0x0A \<notin> set (byte_of regular_file)" "CHR 0x0A \<notin> set (htobe32 0)"
  "CHR 0x0A \<notin> set (htobe64 3)"
  by code_simp+

lemma sample_array_of: "array_of ''a'' = sample_path"
  by (simp add: sample_path_def array_of_def)

lemma sample_report_ok: "im \<le> 512 \<Longrightarrow> report_ok (sample_uid CHR ''n'') (sample_uid CHR ''m'') im (replicate 64 CHR ''h'') ''a''"
  using sample_uid_ok sample_session_chars by (simp add: report_ok_def)

definition sample_boxes :: "(string \<times> string) list" where
  "sample_boxes = [(replicate 64 CHR ''h'', ''/b'')]"

definition sample_nodes :: "(string \<Rightarrow> string option) \<Rightarrow> (string \<Rightarrow> string option) \<Rightarrow> (string \<Rightarrow> string option) session" where
  "sample_nodes fs_a fs_b =
    Running (sample_node (sample_uid CHR ''m'') fs_a) [msg status_100] (sample_node (sample_uid CHR ''n'') fs_b) [msg status_100]"

lemma sample_idle: "idle_nodes (sample_uid CHR ''n'') (sample_uid CHR ''m'') sample_boxes sample_boxes fs_a fs_b (sample_nodes fs_a fs_b)"
  using sample_node_at by (auto simp: idle_nodes_def sample_nodes_def sample_boxes_def)

lemma sample_box: "map_of sample_boxes (replicate 64 CHR ''h'') = Some ''/b''"
  by (simp add: sample_boxes_def)

lemma sample_delete: "delete_at mem_api ''/b'' (array_of ''a'') fs = Inr (fs(''/b/a'' := None))"
  unfolding sample_array_of delete_at_def sample_props bindE.simps by (auto simp: mem_api_def)

section \<open>Properties\<close>

text \<open>C1. A deletion that a box reports reaches the file system of the other node. Two nodes are idle; the box of
  the first reports that a file below its directory was deleted. Its router accepts the report. From then on, in whatever order the two
  heartbeaters take the messages of their routers and however often or late a heartbeat is heard, no router ever ends, the sender's files stay as they are, the
  receiver's are as before or with that one file removed, and the sender is idle again only after it is removed; and from every state that is reached
  the nodes can get to the state in which both are idle, nothing is queued and the file is removed.\<close>

theorem deletion_session:
  assumes "report_ok ua ub im h path" "idle_nodes ua ub boxes_a boxes_b fs_a fs_b (Running a ab b ba)" "and (int im) IN_DELETE = IN_DELETE"
    and "map_of boxes_a h = Some dir_a" "map_of boxes_b h = Some dir_b" "dir_b \<noteq> []" "delete_at api dir_b (array_of path) fs_b = Inr fs_b'"
  shows "\<exists>a'. runRouter api vars [(e, inotify_message status_320 im h path)] a = Inr (None, a') \<and>
     passes_on api ua ub boxes_a boxes_b fs_a fs_b fs_b' (Running a' (ab @ new_heartbeats a a') b ba)"
  by (rule deletion_report [OF assms])

theorem deletion_session_witness:
  "let a = sample_node (sample_uid CHR ''m'') (\<lambda>_. None); b = sample_node (sample_uid CHR ''n'') ((\<lambda>_. None)(''/b/a'' \<mapsto> ''data'')) in
   \<exists>a'. runRouter mem_api (0, 0) [(sample_env, inotify_message status_320 512 (replicate 64 CHR ''h'') ''a'')] a = Inr (None, a') \<and>
     passes_on mem_api (sample_uid CHR ''n'') (sample_uid CHR ''m'') sample_boxes sample_boxes (\<lambda>_. None) ((\<lambda>_. None)(''/b/a'' \<mapsto> ''data'')) (\<lambda>_. None)
       (Running a' ([msg status_100] @ new_heartbeats a a') b [msg status_100])"
  unfolding Let_def
  by (rule deletion_session [OF sample_report_ok sample_idle [unfolded sample_nodes_def] _ sample_box sample_box])
    (simp_all add: IN_DELETE_def sample_delete)

text \<open>C2. A change of a regular file that a box reports reaches the other node, in the same sense, as far as its metadata goes: the file of the receiver is
  created when it is not there, gets the size of the sender's file, then its mode and its time. The mode must not begin with a byte that
  is white space and no byte of the metadata may be a line feed, which would end the heartbeat.\<close>

theorem metadata_session:
  assumes "report_ok ua ub im h path" "idle_nodes ua ub boxes_a boxes_b fs_a fs_b (Running a ab b ba)" "and (int im) IN_DELETE \<noteq> IN_DELETE"
    and "map_of boxes_a h = Some dir_a" "map_of boxes_b h = Some dir_b" "dir_b \<noteq> []"
    and "File_path api fs_a dir_a (Some (Hash_bytes h)) path = Inr (f, fs_a')" "f_type f = regular_file" "plain_mode (f_mode f)"
      "CHR 0x0A \<notin> set (meta_bytes f)" "update_at api dir_b f fs_b = Inr fs_b'"
  shows "\<exists>a'. runRouter api vars [(e, inotify_message status_320 im h path)] a = Inr (None, a') \<and>
     passes_on api ua ub boxes_a boxes_b fs_a' fs_b fs_b' (Running a' (ab @ new_heartbeats a a') b ba)"
  by (rule metadata_report [OF assms])

theorem metadata_session_witness:
  "let a = sample_node (sample_uid CHR ''m'') ((\<lambda>_. None)(''/b/a'' \<mapsto> ''xyz'')); b = sample_node (sample_uid CHR ''n'') ((\<lambda>_. None)(''/b/a'' \<mapsto> ''data'')) in
   \<exists>a'. runRouter mem_api (0, 0) [(sample_env, inotify_message status_320 4 (replicate 64 CHR ''h'') ''a'')] a = Inr (None, a') \<and>
     passes_on mem_api (sample_uid CHR ''n'') (sample_uid CHR ''m'') sample_boxes sample_boxes ((\<lambda>_. None)(''/b/a'' \<mapsto> ''xyz''))
       ((\<lambda>_. None)(''/b/a'' \<mapsto> ''data'')) ((\<lambda>_. None)(''/b/a'' \<mapsto> ''dat''))
       (Running a' ([msg status_100] @ new_heartbeats a a') b [msg status_100])"
  unfolding Let_def
proof (rule metadata_session [OF sample_report_ok sample_idle [unfolded sample_nodes_def] _ sample_box sample_box])
  let ?f = "sample_file\<lparr>f_mtime := 0\<rparr>"
  have p: "f_path ?f = sample_path" "f_size ?f = 3" by (simp_all add: sample_file_def)
  show "File_path mem_api ((\<lambda>_. None)(''/b/a'' \<mapsto> ''xyz'')) ''/b'' (Some (Hash_bytes (replicate 64 CHR ''h''))) ''a'' =
      Inr (?f, (\<lambda>_. None)(''/b/a'' \<mapsto> ''xyz''))"
    by (simp add: File_path_def constructPath_def exists_ec_def c_str_def NUL_def mem_api_def is_regular_file_def checkArguments_def
        copy_path_def File_default_def path_len empty_path_def sample_file_def sample_hash_obj_def sample_path_def)
  show "CHR 0x0A \<notin> set (meta_bytes ?f)" by (simp add: meta_bytes_def sample_file_def sample_bytes)
  have "checkArguments mem_api ((\<lambda>_. None)(''/b/a'' \<mapsto> ''data'')) (''/b/'' @ sample_path) sample_path regular_file True =
      Inr ((\<lambda>_. None)(''/b/a'' \<mapsto> ''data''))"
    by (rule checkArguments_existing) (simp_all only: exists_ec_def sample_props, simp_all add: mem_api_def)
  then show "update_at mem_api ''/b'' ?f ((\<lambda>_. None)(''/b/a'' \<mapsto> ''data'')) = Inr ((\<lambda>_. None)(''/b/a'' \<mapsto> ''dat''))"
    unfolding update_at_def p sample_props bindE.simps by (simp add: sample_props mem_api_def)
qed (simp_all add: IN_DELETE_def sample_file_def plain_mode_def)

text \<open>C4. Two nodes that announce at once wait for each other for ever: with both routers in an announcing state and only announcements and idle heartbeats
  under way, neither router ever changes in any respect, whatever is delivered in whatever order. A node acknowledges in the ready state only.\<close>

theorem crossing_announcements:
  assumes "uid_ok ua" "uid_ok ub" "bo_state a \<in> {announcing_new_file_state, announcing_file_metadata_change_state}"
    "bo_state b \<in> {announcing_new_file_state, announcing_file_metadata_change_state}"
    and "set ab \<union> set ba \<subseteq> msg ` {status_100, status_120, status_150, status_160}"
    and "session_run api ua ub (Running a ab b ba) S"
  shows "\<exists>ab' ba'. S = Running a ab' b ba'"
proof -
  have "waiting a b S" using assms(6) unfolding session_run_def
    by (induction rule: rtranclp_induct) (use assms(5) waiting_step [OF assms(1-4)] in \<open>auto simp: waiting_def\<close>)
  then show ?thesis by (auto simp: waiting_def)
qed

theorem crossing_announcements_witness:
  "let a = (sample_node (sample_uid CHR ''m'') (\<lambda>_. None))\<lparr>bo_state := announcing_file_metadata_change_state\<rparr>;
       b = (sample_node (sample_uid CHR ''n'') (\<lambda>_. None))\<lparr>bo_state := announcing_new_file_state\<rparr>;
       run = session_run mem_api (sample_uid CHR ''n'') (sample_uid CHR ''m'')
         (Running a [msg status_100, msg status_160] b [msg status_100, msg status_120])
   in run (Running a [msg status_160] b [msg status_100, msg status_120]) \<and> \<not> run Failed \<and> 
     \<not> (\<exists>S fs fs'. run S \<and> idle_nodes (sample_uid CHR ''n'') (sample_uid CHR ''m'') sample_boxes sample_boxes fs fs' S)"
proof -
  let ?a = "(sample_node (sample_uid CHR ''m'') (\<lambda>_. None))\<lparr>bo_state := announcing_file_metadata_change_state\<rparr>"
  let ?b = "(sample_node (sample_uid CHR ''n'') (\<lambda>_. None))\<lparr>bo_state := announcing_new_file_state\<rparr>"
  let ?run = "session_run mem_api (sample_uid CHR ''n'') (sample_uid CHR ''m'')
     (Running ?a [msg status_100, msg status_160] ?b [msg status_100, msg status_120])"
  have "?run (Running ?a [msg status_160] ?b [msg status_100, msg status_120])"
    unfolding session_run_def by (blast intro: session_step.intros)
  moreover have r: "\<exists>ab ba. S = Running ?a ab ?b ba" if "?run S" for S
    by (rule crossing_announcements [OF sample_uid_ok _ _ _ that]) simp_all
  ultimately show ?thesis by (auto simp: Let_def idle_nodes_def at_def dest: r)
qed

end
