(* ===== verification/Agreement.thy ===== *)
theory Agreement
  imports Session_Laws
begin

text \<open>
  Two nodes over a whole history of deletions, made on either of them whenever both are idle. Deletions are an abstract
  operation on one set of files; the theory shows that the two nodes implement it: after every history both can get to the
  files that the abstract operation leaves, and whenever both are idle they have them.
\<close>

section \<open>The two directions\<close>

fun swap :: "'fs session \<Rightarrow> 'fs session" where
  "swap (Running a ab b ba) = Running b ba a ab"
| "swap Failed = Failed"

lemma swap_swap [simp]: "swap (swap S) = S"
  by (cases S) simp_all

lemma session_step_swap: "session_step api ua ub S S' \<Longrightarrow> session_step api ub ua (swap S) (swap S')"
  by (induction rule: session_step.induct) (auto intro: session_step.intros)

lemma session_run_swap: "session_run api ua ub S S' \<Longrightarrow> session_run api ub ua (swap S) (swap S')"
  unfolding session_run_def
  by (induction rule: rtranclp_induct) (auto intro: session_step_swap rtranclp.rtrancl_into_rtrancl)

lemma idle_nodes_swap: "idle_nodes ua ub boxes_a boxes_b fs_a fs_b S \<Longrightarrow> idle_nodes ub ua boxes_b boxes_a fs_b fs_a (swap S)"
  by (auto simp: idle_nodes_def)

lemma idle_step:
  assumes "uid_ok ua" "uid_ok ub" "idle_nodes ua ub boxes_a boxes_b fs_a fs_b S" "session_step api ua ub S S'"
  shows "idle_nodes ua ub boxes_a boxes_b fs_a fs_b S'"
proof -
  obtain a ab b ba where S: "S = Running a ab b ba" "at ub boxes_a ready_state [] fs_a a" "at ua boxes_b ready_state [] fs_b b"
    "quiet_msgs ab" "quiet_msgs ba" "ab \<noteq> []" "ba \<noteq> []" using assms(3) by (auto simp: idle_nodes_def)
  note h = ready_goes [OF assms(2) S(2), THEN goes_hears] ready_goes [OF assms(1) S(3), THEN goes_hears]
  show ?thesis
    by (rule session_step_cases [OF assms(4) [unfolded S(1)]]) (use S in \<open>auto simp: idle_nodes_def intro!: h\<close>)
qed

section \<open>Histories\<close>

text \<open>The files after a history of deletions: every entry is the hash of the box and the path below it.\<close>

definition deletion :: "'fs fs_api \<Rightarrow> (string \<times> string) list \<Rightarrow> 'fs \<Rightarrow> string \<times> string \<Rightarrow> 'fs result" where
  "deletion api boxes fs d =
    (case map_of boxes (fst d) of
       None \<Rightarrow> Inl Out_of_range
     | Some dir \<Rightarrow> delete_at api dir (array_of (snd d)) fs)"

definition after_deletions :: "'fs fs_api \<Rightarrow> (string \<times> string) list \<Rightarrow> 'fs \<Rightarrow> (string \<times> string) list \<Rightarrow> 'fs result" where
  "after_deletions api boxes = foldE (deletion api boxes)"

text \<open>What a user does: the file goes from the disk of one node, if it is there, and the box reports it to the router.\<close>

definition deleted_on :: "'fs fs_api \<Rightarrow> (string \<times> string) list \<Rightarrow> string \<times> string \<Rightarrow> 'fs boxoffice \<Rightarrow> 'fs boxoffice \<Rightarrow> bool" where
  "deleted_on api boxes d bo bo' \<longleftrightarrow>
    (\<exists>fs' vars e im. deletion api boxes (bo_fs bo) d = Inr fs' \<and> im \<le> 2147483647 \<and> and (int im) IN_DELETE = IN_DELETE \<and>
       runRouter api vars [(e, inotify_message status_320 im (fst d) (snd d))] (bo\<lparr>bo_fs := fs'\<rparr>) = Inr (None, bo'))"

inductive history :: "'fs fs_api \<Rightarrow> string \<Rightarrow> string \<Rightarrow> (string \<times> string) list \<Rightarrow> 'fs session \<Rightarrow> (string \<times> string) list \<Rightarrow> 'fs session \<Rightarrow> bool"
  for api ua ub boxes S0 where
  begins: "history api ua ub boxes S0 [] S0"
| goes_on: "history api ua ub boxes S0 ds S \<Longrightarrow> session_step api ua ub S S' \<Longrightarrow> history api ua ub boxes S0 ds S'"
| deleted_a: "history api ua ub boxes S0 ds (Running a ab b ba) \<Longrightarrow> idle_nodes ua ub boxes boxes (bo_fs a) (bo_fs b) (Running a ab b ba) \<Longrightarrow>
    report_ok ua ub 0 (fst d) (snd d) \<Longrightarrow> deleted_on api boxes d a a' \<Longrightarrow>
    history api ua ub boxes S0 (ds @ [d]) (Running a' (ab @ new_heartbeats a a') b ba)"
| deleted_b: "history api ua ub boxes S0 ds (Running a ab b ba) \<Longrightarrow> idle_nodes ua ub boxes boxes (bo_fs a) (bo_fs b) (Running a ab b ba) \<Longrightarrow>
    report_ok ua ub 0 (fst d) (snd d) \<Longrightarrow> deleted_on api boxes d b b' \<Longrightarrow>
    history api ua ub boxes S0 (ds @ [d]) (Running a ab b' (ba @ new_heartbeats b b'))"

text \<open>The nodes agree on \<open>fs\<close>, or one of them is passing it on to the other.\<close>

definition catching_up :: "'fs fs_api \<Rightarrow> string \<Rightarrow> string \<Rightarrow> (string \<times> string) list \<Rightarrow> 'fs \<Rightarrow> 'fs session \<Rightarrow> bool" where
  "catching_up api ua ub boxes fs S \<longleftrightarrow> (\<exists>before. passes_on api ua ub boxes boxes fs before fs S)"

definition agreed :: "'fs fs_api \<Rightarrow> string \<Rightarrow> string \<Rightarrow> (string \<times> string) list \<Rightarrow> 'fs \<Rightarrow> 'fs session \<Rightarrow> bool" where
  "agreed api ua ub boxes fs S \<longleftrightarrow> idle_nodes ua ub boxes boxes fs fs S \<or> catching_up api ua ub boxes fs S \<or> catching_up api ub ua boxes fs (swap S)"

lemma passes_on_step:
  "passes_on api ua ub boxes_a boxes_b fs_a before after S \<Longrightarrow> session_step api ua ub S S' \<Longrightarrow>
     passes_on api ua ub boxes_a boxes_b fs_a before after S'"
  unfolding passes_on_def session_run_def by (meson converse_rtranclp_into_rtranclp)

lemma catching_up_step: "catching_up api ua ub boxes fs S \<Longrightarrow> session_step api ua ub S S' \<Longrightarrow> catching_up api ua ub boxes fs S'"
  unfolding catching_up_def by (elim exE) (rule exI, rule passes_on_step)

lemma agreed_step:
  assumes "uid_ok ua" "uid_ok ub" "agreed api ua ub boxes fs S" "session_step api ua ub S S'"
  shows "agreed api ua ub boxes fs S'"
  using assms(3) idle_step [OF assms(1,2) _ assms(4)] catching_up_step [OF _ assms(4)] catching_up_step [OF _ session_step_swap [OF assms(4)]]
  unfolding agreed_def by blast

lemma agreed_swap: "agreed api ua ub boxes fs S \<Longrightarrow> agreed api ub ua boxes fs (swap S)"
  unfolding agreed_def using idle_nodes_swap by fastforce

lemma agreed_idle:
  assumes "agreed api ua ub boxes fs (Running a ab b ba)" "bo_state a = ready_state" "bo_state b = ready_state"
  shows "bo_fs a = fs \<and> bo_fs b = fs"
proof -
  have p: "passing fs x fs S" if "passes_on api u v boxes boxes fs x fs S" for u v x S
    using that unfolding passes_on_def session_run_def by blast
  show ?thesis
    using assms(1) p unfolding agreed_def catching_up_def
    by (elim disjE exE; fastforce simp: idle_nodes_def at_def passing_def assms(2,3))
qed

lemma agreed_end:
  assumes "agreed api ua ub boxes fs S"
  shows "\<exists>S'. session_run api ua ub S S' \<and> idle_nodes ua ub boxes boxes fs fs S'"
proof -
  have e: "\<exists>S'. session_run api u v S S' \<and> idle_nodes u v boxes boxes fs fs S'" if "catching_up api u v boxes fs S" for u v S
    using that unfolding catching_up_def passes_on_def session_run_def by blast
  have "session_run api ua ub S S" by (simp add: session_run_def)
  with assms e show ?thesis unfolding agreed_def by (metis idle_nodes_swap session_run_swap swap_swap)
qed

lemma deleted_agreed:
  assumes "idle_nodes ua ub boxes boxes fs fs (Running a ab b ba)" "report_ok ua ub 0 (fst d) (snd d)" "deleted_on api boxes d a a'"
    and "\<forall>dir \<in> snd ` set boxes. dir \<noteq> []"
  shows "\<exists>fs'. deletion api boxes fs d = Inr fs' \<and> agreed api ua ub boxes fs' (Running a' (ab @ new_heartbeats a a') b ba)"
proof -
  have f: "bo_fs a = fs" using assms(1) by (simp add: idle_nodes_def at_def)
  obtain fs' vars e im where d: "deletion api boxes fs d = Inr fs'" "im \<le> 2147483647" "and (int im) IN_DELETE = IN_DELETE"
    "runRouter api vars [(e, inotify_message status_320 im (fst d) (snd d))] (a\<lparr>bo_fs := fs'\<rparr>) = Inr (None, a')"
    using assms(3) unfolding deleted_on_def f by blast
  obtain dir where dir: "map_of boxes (fst d) = Some dir" "delete_at api dir (array_of (snd d)) fs = Inr fs'"
    using d(1) by (auto simp: deletion_def split: option.splits)
  have "dir \<noteq> []" using dir(1) assms(4) by (force dest: map_of_SomeD)
  moreover have "idle_nodes ua ub boxes boxes fs' fs (Running (a\<lparr>bo_fs := fs'\<rparr>) ab b ba)"
    using assms(1) by (simp add: idle_nodes_def at_def knows_def)
  moreover have "report_ok ua ub im (fst d) (snd d)" using assms(2) d(2) by (simp add: report_ok_def)
  ultimately obtain a'' where a'': "runRouter api vars [(e, inotify_message status_320 im (fst d) (snd d))] (a\<lparr>bo_fs := fs'\<rparr>) = Inr (None, a'')"
    "passes_on api ua ub boxes boxes fs' fs fs' (Running a'' (ab @ new_heartbeats (a\<lparr>bo_fs := fs'\<rparr>) a'') b ba)"
    using deletion_report [OF _ _ d(3) dir(1) dir(1) _ dir(2)] by blast
  have "a'' = a'" using a''(1) d(4) by simp
  with a''(2) have "passes_on api ua ub boxes boxes fs' fs fs' (Running a' (ab @ new_heartbeats (a\<lparr>bo_fs := fs'\<rparr>) a') b ba)" by simp
  then have "agreed api ua ub boxes fs' (Running a' (ab @ new_heartbeats a a') b ba)"
    by (auto simp: agreed_def catching_up_def new_heartbeats_def)
  with d(1) show ?thesis by blast
qed

lemma report_ok_swap: "report_ok ua ub im h path \<Longrightarrow> report_ok ub ua im h path"
  by (simp add: report_ok_def)

lemma history_agreed:
  assumes "history api ua ub boxes S0 ds S" "uid_ok ua" "uid_ok ub" "\<forall>dir \<in> snd ` set boxes. dir \<noteq> []"
    and "idle_nodes ua ub boxes boxes fs fs S0"
  shows "\<exists>fs'. after_deletions api boxes fs ds = Inr fs' \<and> agreed api ua ub boxes fs' S"
  using assms(1)
proof induction
  case begins
  then show ?case using assms(5) by (simp add: after_deletions_def agreed_def)
next
  case (goes_on ds S S')
  from goes_on.IH obtain fs' where "after_deletions api boxes fs ds = Inr fs'" "agreed api ua ub boxes fs' S" by (elim exE conjE)
  from this(1) agreed_step [OF assms(2,3) this(2) goes_on.hyps(2)] show ?case by (intro exI conjI)
next
  case (deleted_a ds a ab b ba d a')
  then obtain fs' where fs': "after_deletions api boxes fs ds = Inr fs'" "agreed api ua ub boxes fs' (Running a ab b ba)" by blast
  have "idle_nodes ua ub boxes boxes fs' fs' (Running a ab b ba)"
    using deleted_a(2) agreed_idle [OF fs'(2)] by (auto simp: idle_nodes_def at_def)
  from deleted_agreed [OF this deleted_a(3,4) assms(4)] fs'(1) show ?case by (auto simp: after_deletions_def foldE_snoc)
next
  case (deleted_b ds a ab b ba d b')
  then obtain fs' where fs': "after_deletions api boxes fs ds = Inr fs'" "agreed api ua ub boxes fs' (Running a ab b ba)" by blast
  have "idle_nodes ua ub boxes boxes fs' fs' (Running a ab b ba)"
    using deleted_b(2) agreed_idle [OF fs'(2)] by (auto simp: idle_nodes_def at_def)
  from deleted_agreed [OF idle_nodes_swap [OF this, simplified] report_ok_swap [OF deleted_b(3)] deleted_b(4) assms(4)] obtain fs'' where
    "deletion api boxes fs' d = Inr fs''" "agreed api ub ua boxes fs'' (Running b' (ba @ new_heartbeats b b') a ab)" by blast
  from this(1) agreed_swap [OF this(2)] fs'(1) show ?case by (auto simp: after_deletions_def foldE_snoc)
qed

section \<open>Properties\<close>

text \<open>C3. Two nodes that start with the same files agree after any history of deletions, made on either of them at times when both are idle:
  the history has an outcome, the files that are left when the deletions are made one after the other; whenever both nodes are idle both have just these files;
  and from every state the nodes can get to such an idle state, without any further event.\<close>

theorem nodes_agree:
  assumes "history api ua ub boxes S0 ds S" "uid_ok ua" "uid_ok ub" "\<forall>dir \<in> snd ` set boxes. dir \<noteq> []"
    and "idle_nodes ua ub boxes boxes fs fs S0"
  shows "\<exists>fs'. after_deletions api boxes fs ds = Inr fs' \<and>
     (\<forall>a ab b ba. S = Running a ab b ba \<longrightarrow> bo_state a = ready_state \<longrightarrow> bo_state b = ready_state \<longrightarrow> bo_fs a = fs' \<and> bo_fs b = fs') \<and>
     (\<exists>S'. session_run api ua ub S S' \<and> idle_nodes ua ub boxes boxes fs' fs' S')"
proof -
  obtain fs' where fs': "after_deletions api boxes fs ds = Inr fs'" "agreed api ua ub boxes fs' S"
    using history_agreed [OF assms] by blast
  have "\<forall>a ab b ba. S = Running a ab b ba \<longrightarrow> bo_state a = ready_state \<longrightarrow> bo_state b = ready_state \<longrightarrow> bo_fs a = fs' \<and> bo_fs b = fs'"
    using agreed_idle fs'(2) by (intro allI impI) simp
  with fs'(1) agreed_end [OF fs'(2)] show ?thesis by (intro exI [of _ fs'] conjI)
qed

theorem nodes_agree_witness:
  "let fs = (\<lambda>_. None)(''/b/a'' \<mapsto> ''data''); d = (replicate 64 CHR ''h'', ''a''); n = sample_uid CHR ''n''; m = sample_uid CHR ''m'' in
   \<exists>S S'. history mem_api n m sample_boxes (sample_nodes fs fs) [d] S \<and> session_run mem_api n m S S' \<and>
     idle_nodes n m sample_boxes sample_boxes (\<lambda>_. None) (\<lambda>_. None) S'"
proof -
  let ?fs = "(\<lambda>_. None)(''/b/a'' \<mapsto> ''data'')" and ?h = "replicate 64 CHR ''h''" and ?n = "sample_uid CHR ''n''" and ?m = "sample_uid CHR ''m''"
  let ?a = "sample_node ?m ?fs" and ?b = "sample_node ?n ?fs"
  have i: "idle_nodes ?n ?m sample_boxes sample_boxes (\<lambda>_. None) ?fs (Running (?a\<lparr>bo_fs := \<lambda>_. None\<rparr>) [msg status_100] ?b [msg status_100])"
    using sample_idle [of ?fs ?fs] by (simp add: idle_nodes_def sample_nodes_def at_def knows_def)
  from deletion_report [OF sample_report_ok i _ sample_box sample_box _ sample_delete, of 512 "(0, 0)" sample_env] obtain a' where
    a': "runRouter mem_api (0, 0) [(sample_env, inotify_message status_320 512 ?h ''a'')] (?a\<lparr>bo_fs := \<lambda>_. None\<rparr>) = Inr (None, a')"
    by (auto simp: IN_DELETE_def)
  have fs: "bo_fs ?a = ?fs" "bo_fs ?b = ?fs" by (simp_all add: sample_node_def Boxoffice_init_def)
  have d: "deletion mem_api sample_boxes ?fs (?h, ''a'') = Inr (\<lambda>_. None)" by (simp add: deletion_def sample_box sample_delete)
  have h: "history mem_api ?n ?m sample_boxes (sample_nodes ?fs ?fs) ([] @ [(?h, ''a'')])
      (Running a' ([msg status_100] @ new_heartbeats ?a a') ?b [msg status_100])"
  proof (rule history.deleted_a)
    show "history mem_api ?n ?m sample_boxes (sample_nodes ?fs ?fs) [] (Running ?a [msg status_100] ?b [msg status_100])"
      unfolding sample_nodes_def by (rule history.begins)
    show "idle_nodes ?n ?m sample_boxes sample_boxes (bo_fs ?a) (bo_fs ?b) (Running ?a [msg status_100] ?b [msg status_100])"
      using sample_idle [of ?fs ?fs] unfolding fs sample_nodes_def .
    show "report_ok ?n ?m 0 (fst (?h, ''a'')) (snd (?h, ''a''))" using sample_report_ok by simp
    have "and (int 512) IN_DELETE = IN_DELETE" by (simp add: IN_DELETE_def)
    then show "deleted_on mem_api sample_boxes (?h, ''a'') ?a a'"
      unfolding deleted_on_def fs d using a' by (intro exI conjI) auto
  qed
  have "after_deletions mem_api sample_boxes ?fs ([] @ [(?h, ''a'')]) = Inr (\<lambda>_. None)"
    by (simp add: after_deletions_def d)
  with nodes_agree [OF h sample_uid_ok _ sample_idle] h show ?thesis by (auto simp: Let_def sample_boxes_def)
qed

end
