(* ===== verification/Spec2Isabelle.thy ===== *)
theory Spec2Isabelle
  imports Hash_Tree Boxoffice_Protocol Box Sockets_Laws Agreement
begin

text \<open>
  A verification development of \<^bold>\<open>flocksy\<close>, a program that keeps directories (``boxes'') of several computers
  (``nodes'') in step without a server. Paths below are relative to the repository.

  \<^bold>\<open>The program.\<close> One process runs per computer. Its main thread (\<^verbatim>\<open>src/main.cpp\<close>) reads the configuration
  (\<^verbatim>\<open>src/config.cpp\<close>) and starts the router, the class \<^verbatim>\<open>Boxoffice\<close> (\<^verbatim>\<open>src/boxoffice.cpp\<close>). The router opens one thread per
  box, which watches the directories of the box with inotify; a heartbeater, a dispatcher and a publisher per host; and a
  subscriber per other node. Messages of the boxes and of the subscribers reach the router as text; it
  looks the status they carry up in the state machine \<^verbatim>\<open>include/flock_fsm.h\<close>, changes its state, and tells heartbeaters and dispatchers
  what to send. The heartbeaters repeat the status of the node, the dispatchers send file data and fake data; the publisher passes both on
  to the network with equal lengths, and the subscribers of the other nodes hand them to their routers. \<^verbatim>\<open>File\<close> is the metadata and data
  of a file, \<^verbatim>\<open>Hash\<close> and \<^verbatim>\<open>HashTree\<close> name boxes, directories and nodes and detect changes.

  \<^bold>\<open>The theories\<close>, in the order in which they build on each other:

  \<^item> \<open>Prelude\<close>: results of code that can fail (\<open>flock_error + 'a\<close>, with undefined behaviour as an error of its
    own), the collections of rules, generic lemmas.
  \<^item> \<open>Flock_FSM\<close>, \<open>Flock_FSM_Laws\<close> (\<^verbatim>\<open>include/flock_fsm.h\<close>): the enumerations as datatypes and the four tables, one
    definition per table and state. The tables have the same rows; every row is a step of an abstract protocol on roles; the exit
    state is reached by the interrupt only; a session can always be completed; all states but the null state are reachable. The
    locale \<open>flock_tables\<close> is what the router relies on.
  \<^item> \<open>Streams\<close>: \<^verbatim>\<open>std::stringstream\<close>, decimal numbers and big-endian fields, with the locale \<open>fixed_codec\<close> interpreted at the widths
    the messages use.
  \<^item> \<open>Hash\<close> (\<^verbatim>\<open>hash.hpp\<close>, \<^verbatim>\<open>hash.cpp\<close>): the comparison operators are the lexicographic order of the bytes, a strict total order (locale \<open>digest_order\<close>).
  \<^item> \<open>Hash_Tree\<close> (\<^verbatim>\<open>hash_tree.cpp\<close>): for up to $2^{29}$ leaves the vector of nodes built by the loops is the Merkle tree of the sorted leaves (for
    more the \<^verbatim>\<open>int\<close> of the tree size overflows); it does not
    depend on the order of the leaves; the changed hashes are the symmetric difference; without collisions a change of a leaf changes the top.
  \<^item> \<open>File\<close> (\<^verbatim>\<open>file.hpp\<close>, \<^verbatim>\<open>file.cpp\<close>): constructors, metadata on the wire, reading and storing packages. Round trips of metadata,
    deletions and data (the data into a file that is the receiver's own, \<open>store_law\<close>); the invariant of the path array.
  \<^item> \<open>Boxoffice\<close> (\<^verbatim>\<open>boxoffice.cpp\<close>): the state of the router as a record, \<open>processEvent\<close> with its four blocks, \<open>runRouter\<close>,
    \<open>checkChildren\<close> and \<open>closeConnections\<close>. \<open>Boxoffice_Laws\<close>: the router follows the state machine message by message, whatever arrives, and announces every change of state; the
    contracts of the blocks are the locales \<open>event_block\<close>, \<open>quiet_block\<close> and \<open>fresh_block\<close>. \<open>Boxoffice_Protocol\<close>: announcing, the barrier before metadata is
    sent and the message that gets around it, and the sequences of messages on which the router fails.
  \<^item> \<open>Transport\<close> (\<^verbatim>\<open>constants.cpp\<close>, \<^verbatim>\<open>heartbeater.cpp\<close>, \<^verbatim>\<open>publisher.cpp\<close>, \<^verbatim>\<open>subscriber.cpp\<close>, \<^verbatim>\<open>dispatcher.cpp\<close>): one step per round of a thread's
    loop on what its sockets have ready. \<open>Transport_Laws\<close>: the composition of heartbeater, publisher, subscriber and router, the order of the router to the
    dispatcher, which fails, the end of a transmission, and the locale \<open>worker\<close> of the loops that end on an interrupt, interpreted for the four loops and in \<open>Box\<close> for the fifth.
  \<^item> \<open>Directory\<close> (\<^verbatim>\<open>directory.cpp\<close> and the scan of \<^verbatim>\<open>box.cpp\<close>): \<open>Directory_Laws\<close> shows that the scan of a box returns the Merkle root
    over the directories of the tree the file system shows, and when following symbolic links ends.
  \<^item> \<open>Box\<close> (\<^verbatim>\<open>box.cpp\<close>): watches, inotify events and the loop of the thread; when the loops of all threads end on the interrupt, and when they miss it.
  \<^item> \<open>Config\<close> (\<^verbatim>\<open>config.cpp\<close>, \<^verbatim>\<open>main.cpp\<close>): options, configuration file, keystore, the sequence of the router's and the main thread, and the signals the
    main thread waits for. \<open>Config_Laws\<close>: what an accepted configuration guarantees, whatever the configuration file and the options name, and that SIGINT or SIGTERM, and nothing else, ends the process in order.
  \<^item> \<open>Sockets\<close> (\<^verbatim>\<open>transmitter.cpp\<close> and the constructors, destructors and setup functions of all threads): the calls of the socket library.
    \<open>Sockets_Laws\<close>: over all schedules of the threads, when the start succeeds, that connected and bound sockets fit, and when all are closed. What the library is asked for
    is \<open>zmq_laws\<close>; the keys and endpoints it accepts are a parameter.
  \<^item> \<open>Session\<close>, \<open>Session_Laws\<close>: two nodes that hear each other, as a step relation over the routers, heartbeaters, publishers and subscribers above. A heartbeater repeats the
    message it has or takes the next one of its router; a heartbeat in the air is heard any number of times or not at all. A change or a deletion
    that a box reports is carried through to the file system of the other node (the phases of the exchange are an invariant of all runs, and every phase can be left towards the end); two
    nodes that announce at the same time stay as they are. Only the first local event belongs to a session.
    A session begins and ends with both nodes idle. \<open>Agreement\<close> puts sessions together: after any history of deletions, made on either node while both are idle, the nodes have the same files. A
    report of the receiver's own box after a deletion is such an event; local events while a session is under way are left out.

  \<^bold>\<open>Conventions.\<close> A byte is a \<open>char\<close>, a byte array or \<^verbatim>\<open>std::string\<close> a \<open>string\<close>. Integers keep their width where the code's
  arithmetic can wrap (\<open>u8\<close> to \<open>u64\<close>); signals and statuses read from text are \<open>int\<close>. Objects whose address matters (files in the queues, shared
  hashes) carry it. Uninitialised variables are arguments called \<open>junk\<close> or \<open>vars\<close>. The clock and random numbers are inputs. Maps whose order the code sees are association
  lists.

  \<^bold>\<open>Parameters.\<close> The hash function of \<^verbatim>\<open>libsodium\<close>, the file system as \<^verbatim>\<open>boost::filesystem\<close> and \<^verbatim>\<open>fstream\<close> reach it,
  \<^verbatim>\<open>program_options\<close>, \<^verbatim>\<open>jsoncpp\<close>, \<^verbatim>\<open>wordexp\<close>, \<^verbatim>\<open>inotify_add_watch\<close> and \<^verbatim>\<open>zmqpp\<close> are arguments of the definitions that use them. What a theorem asks of them is among its
  hypotheses, and its witness instantiates them with a concrete function.

  \<^bold>\<open>Bounds and fuel.\<close> The loop over the packages of a file (\<open>dispatch_loop\<close>) has fuel, since its offset of 64 bits wraps around before it
  passes a size close to \<open>2 ^ 64\<close>; the theorems on it name the rounds that are needed. Following links and the scan of a box are \<open>partial_function\<close>s where \<open>None\<close> is a run without end; that they return is proved
  (\<open>symlink_chain_termination\<close>, \<open>box_scan_reference\<close>). All other loops are functions on the messages at hand, or terminate by a measure. A package has 4096 bytes, a path array 128, a digest 64. A hash tree has at most $2^{29}$ leaves, so the scan of a box is
  proved to return for at most as many files in a directory and directories in a box.

  \<^bold>\<open>Not modelled.\<close> What happens below the sockets (encryption, authentication, lost messages), the polling timeouts and the sleep of the
  dispatcher before its deadline, sends that wait for room, debug output, and the destructors that only free memory. A second call of \<^verbatim>\<open>Boxoffice::initialize\<close>
  ends the model as undefined behaviour, and of the files that \<^verbatim>\<open>jsoncpp\<close> reads only objects are followed.
  Tests and build files are left aside.
\<close>

end
